(* ===== verification/Prelude.thy ===== *)
theory Prelude
  imports Complex_Main "HOL-Library.List_Lexorder"
begin

text \<open>
  Shared vocabulary of the development.

  \<^item> Python text (\<open>str\<close>) is a list of Unicode code points, \<open>pystr\<close>; \<open>lit\<close> turns an
    Isabelle string literal into one, so \<open>lit ''R_VERIFIED''\<close> is the source's
    \<open>"R_VERIFIED"\<close>.  Comparison of \<open>pystr\<close> is Python's: lexicographic on code points.
  \<^item> Functions that raise return a sum: \<open>Inl\<close> is the exception, \<open>Inr\<close> the result;
    \<open>bindE\<close> sequences them.
  \<^item> Functions that also have effects are state passing programs \<open>('s, 'e, 'a) prog\<close>.  An
    exception keeps the state reached so far, because mail that has been sent stays sent when a
    later statement raises; what a rollback restores is written out where it happens.
  \<^item> \<open>preserves I m\<close> says that program \<open>m\<close> keeps \<open>I\<close> whether it returns or raises.
\<close>

named_theorems preserves_rules \<open>rules that decompose a preservation goal along the program text\<close>
named_theorems run_simps \<open>evaluation of the sequencing combinators\<close>

section \<open>Text\<close>

type_synonym pystr = "nat list"

definition lit :: "string \<Rightarrow> pystr" where
  "lit s = map of_char s"

lemma lit_Nil [simp]: "lit [] = []"
  by (simp add: lit_def)

lemma lit_eq_iff [simp]: "lit s = lit t \<longleftrightarrow> s = t"
  unfolding lit_def by (rule inj_map_eq_map) (auto simp: inj_def)

text \<open>Decimal digits of a natural number, Python's \<open>str\<close> of a non-negative integer.\<close>

function nat_digits :: "nat \<Rightarrow> nat list" where
  "nat_digits n = (if n < 10 then [n] else nat_digits (n div 10) @ [n mod 10])"
  by pat_completeness auto
termination
  by (relation "measure id") auto

declare nat_digits.simps [simp del]

definition nat_str :: "nat \<Rightarrow> pystr" where
  "nat_str n = map (\<lambda>d. 48 + d) (nat_digits n)"

definition int_str :: "int \<Rightarrow> pystr" where
  "int_str i = (if i < 0 then lit ''-'' @ nat_str (nat (- i)) else nat_str (nat i))"

fun digits_value :: "nat list \<Rightarrow> nat" where
  "digits_value ds = foldl (\<lambda>a d. 10 * a + d) 0 ds"

lemma digits_value_nat_digits [simp]: "foldl (\<lambda>a d. 10 * a + d) 0 (nat_digits n) = n"
proof (induction n rule: nat_digits.induct)
  case (1 n)
  show ?case
  proof (cases "n < 10")
    case True
    then show ?thesis by (simp add: nat_digits.simps [of n])
  next
    case False
    with 1 show ?thesis by (simp add: nat_digits.simps [of n])
  qed
qed

lemma nat_digits_inject [simp]: "nat_digits m = nat_digits n \<longleftrightarrow> m = n"
  by (metis digits_value_nat_digits)

lemma nat_str_inject [simp]: "nat_str m = nat_str n \<longleftrightarrow> m = n"
proof -
  have "inj (\<lambda>d::nat. 48 + d)" by (simp add: inj_def)
  then show ?thesis by (simp add: nat_str_def inj_map_eq_map)
qed

lemma nat_digits_not_Nil [simp]: "nat_digits n \<noteq> []"
  by (subst nat_digits.simps) simp

section \<open>Results that may be exceptions\<close>

definition bindE :: "'e + 'a \<Rightarrow> ('a \<Rightarrow> 'e + 'b) \<Rightarrow> 'e + 'b" where
  "bindE r f = (case r of Inl e \<Rightarrow> Inl e | Inr x \<Rightarrow> f x)"

lemma bindE_simps [simp]:
  "bindE (Inl e) f = Inl e"
  "bindE (Inr x) f = f x"
  by (simp_all add: bindE_def)

lemma bindE_eq_Inr: "bindE r f = Inr y \<longleftrightarrow> (\<exists>x. r = Inr x \<and> f x = Inr y)"
  by (cases r) simp_all

fun foldE :: "('b \<Rightarrow> 'a \<Rightarrow> 'e + 'b) \<Rightarrow> 'b \<Rightarrow> 'a list \<Rightarrow> 'e + 'b" where
  "foldE f b [] = Inr b"
| "foldE f b (x # xs) = bindE (f b x) (\<lambda>b'. foldE f b' xs)"

lemma foldE_append: "foldE f b (xs @ ys) = bindE (foldE f b xs) (\<lambda>b'. foldE f b' ys)"
proof (induction xs arbitrary: b)
  case Nil
  show ?case by simp
next
  case (Cons x xs)
  then show ?case by (cases "f b x") simp_all
qed

lemma foldE_snoc: "foldE f b (xs @ [x]) = bindE (foldE f b xs) (\<lambda>b'. f b' x)"
  by (cases "foldE f b xs"; simp add: foldE_append; cases "f b x"; simp add: bindE_def split: sum.splits)

lemma foldE_invariant:
  assumes "foldE f b xs = Inr r" and "I b"
    and "\<And>b x b'. x \<in> set xs \<Longrightarrow> I b \<Longrightarrow> f b x = Inr b' \<Longrightarrow> I b'"
  shows "I r"
  using assms
proof (induction xs arbitrary: b)
  case Nil
  then show ?case by simp
next
  case (Cons x xs)
  then obtain b' where "f b x = Inr b'" and "foldE f b' xs = Inr r"
    by (auto simp: bindE_eq_Inr)
  with Cons show ?case by (metis list.set_intros)
qed

section \<open>Programs with state and exceptions\<close>

type_synonym ('s, 'e, 'a) prog = "'s \<Rightarrow> ('e + 'a) \<times> 's"

definition returnM :: "'a \<Rightarrow> ('s, 'e, 'a) prog" where
  "returnM x = (\<lambda>s. (Inr x, s))"

definition raiseM :: "'e \<Rightarrow> ('s, 'e, 'a) prog" where
  "raiseM e = (\<lambda>s. (Inl e, s))"

definition bindM :: "('s, 'e, 'a) prog \<Rightarrow> ('a \<Rightarrow> ('s, 'e, 'b) prog) \<Rightarrow> ('s, 'e, 'b) prog" where
  "bindM m f = (\<lambda>s. case m s of (r, s') \<Rightarrow> (case r of Inl e \<Rightarrow> (Inl e, s') | Inr x \<Rightarrow> f x s'))"

definition thenM :: "('s, 'e, 'a) prog \<Rightarrow> ('s, 'e, 'b) prog \<Rightarrow> ('s, 'e, 'b) prog" where
  "thenM m n = bindM m (\<lambda>_. n)"

definition getM :: "('s \<Rightarrow> 'a) \<Rightarrow> ('s, 'e, 'a) prog" where
  "getM f = (\<lambda>s. (Inr (f s), s))"

definition modifyM :: "('s \<Rightarrow> 's) \<Rightarrow> ('s, 'e, unit) prog" where
  "modifyM f = (\<lambda>s. (Inr (), f s))"

definition liftM :: "'e + 'a \<Rightarrow> ('s, 'e, 'a) prog" where
  "liftM r = (\<lambda>s. (r, s))"

definition tryM :: "('s, 'e, 'a) prog \<Rightarrow> ('s, 'e, 'e + 'a) prog" where
  "tryM m = (\<lambda>s. case m s of (r, s') \<Rightarrow> (Inr r, s'))"

fun foldM :: "('b \<Rightarrow> 'a \<Rightarrow> ('s, 'e, 'b) prog) \<Rightarrow> 'b \<Rightarrow> 'a list \<Rightarrow> ('s, 'e, 'b) prog" where
  "foldM f b [] = returnM b"
| "foldM f b (x # xs) = bindM (f b x) (\<lambda>b'. foldM f b' xs)"

lemma run_returnM [run_simps, simp]: "returnM x s = (Inr x, s)"
  by (simp add: returnM_def)

lemma run_raiseM [run_simps, simp]: "raiseM e s = (Inl e, s)"
  by (simp add: raiseM_def)

lemma run_getM [run_simps, simp]: "getM f s = (Inr (f s), s)"
  by (simp add: getM_def)

lemma run_modifyM [run_simps, simp]: "modifyM f s = (Inr (), f s)"
  by (simp add: modifyM_def)

lemma run_liftM [run_simps, simp]: "liftM r s = (r, s)"
  by (simp add: liftM_def)

lemma bindM_returnM [simp]: "bindM (returnM x) f = f x"
  by (simp add: bindM_def)

lemma bindM_raiseM [simp]: "bindM (raiseM e) f = raiseM e"
  by (simp add: bindM_def raiseM_def)

lemma bindM_assoc: "bindM (bindM m f) g = bindM m (\<lambda>x. bindM (f x) g)"
  by (auto simp: bindM_def fun_eq_iff split: prod.splits sum.splits)

lemma run_bindM_Inr [run_simps]: "m s = (Inr x, s') \<Longrightarrow> bindM m f s = f x s'"
  by (simp add: bindM_def)

lemma run_bindM_Inl [run_simps]: "m s = (Inl e, s') \<Longrightarrow> bindM m f s = (Inl e, s')"
  by (simp add: bindM_def)

lemma run_thenM_Inr [run_simps]: "m s = (Inr x, s') \<Longrightarrow> thenM m n s = n s'"
  by (simp add: thenM_def bindM_def)

lemma run_thenM_Inl [run_simps]: "m s = (Inl e, s') \<Longrightarrow> thenM m n s = (Inl e, s')"
  by (simp add: thenM_def bindM_def)

lemma run_bindM_basic [run_simps, simp]:
  "bindM (getM g) f s = f (g s) s"
  "bindM (modifyM h) f' s = f' () (h s)"
  "bindM (liftM (Inr x)) f s = f x s"
  "bindM (liftM (Inl e)) f s = (Inl e, s)"
  "thenM (modifyM h) n s = n (h s)"
  "thenM (returnM y) n s = n s"
  "thenM (raiseM e) n s = (Inl e, s)"
  "thenM (liftM (Inr y)) n s = n s"
  "thenM (liftM (Inl e)) n s = (Inl e, s)"
  "thenM (getM g) n s = n s"
  by (simp_all add: bindM_def thenM_def)

lemma bindM_eq_Inr:
  "bindM m f s = (Inr y, t) \<longleftrightarrow> (\<exists>x s'. m s = (Inr x, s') \<and> f x s' = (Inr y, t))"
  by (auto simp: bindM_def split: prod.splits sum.splits)

lemma bindM_eq_Inl:
  "bindM m f s = (Inl e, t) \<longleftrightarrow>
     m s = (Inl e, t) \<or> (\<exists>x s'. m s = (Inr x, s') \<and> f x s' = (Inl e, t))"
  by (auto simp: bindM_def split: prod.splits sum.splits)

lemma thenM_eq_Inr:
  "thenM m n s = (Inr y, t) \<longleftrightarrow> (\<exists>x s'. m s = (Inr x, s') \<and> n s' = (Inr y, t))"
  by (simp add: thenM_def bindM_eq_Inr)

lemma thenM_eq_Inl:
  "thenM m n s = (Inl e, t) \<longleftrightarrow>
     m s = (Inl e, t) \<or> (\<exists>x s'. m s = (Inr x, s') \<and> n s' = (Inl e, t))"
  by (simp add: thenM_def bindM_eq_Inl)

lemmas prog_inversion = bindM_eq_Inr thenM_eq_Inr bindM_eq_Inl thenM_eq_Inl

section \<open>Preservation of a predicate on the state\<close>

definition preserves :: "('s \<Rightarrow> bool) \<Rightarrow> ('s, 'e, 'a) prog \<Rightarrow> bool" where
  "preserves I m \<longleftrightarrow> (\<forall>s. I s \<longrightarrow> I (snd (m s)))"

lemma preservesI: "(\<And>s r t. I s \<Longrightarrow> m s = (r, t) \<Longrightarrow> I t) \<Longrightarrow> preserves I m"
  by (simp add: preserves_def) (metis prod.collapse)

lemma preservesD: "preserves I m \<Longrightarrow> I s \<Longrightarrow> m s = (r, t) \<Longrightarrow> I t"
  unfolding preserves_def by (metis snd_conv)

lemma preserves_returnM [preserves_rules]: "preserves I (returnM x)"
  by (simp add: preserves_def)

lemma preserves_raiseM [preserves_rules]: "preserves I (raiseM e)"
  by (simp add: preserves_def)

lemma preserves_getM [preserves_rules]: "preserves I (getM f)"
  by (simp add: preserves_def)

lemma preserves_liftM [preserves_rules]: "preserves I (liftM r)"
  by (simp add: preserves_def)

lemma preserves_modifyM: "(\<And>s. I s \<Longrightarrow> I (f s)) \<Longrightarrow> preserves I (modifyM f)"
  by (simp add: preserves_def)

lemma preserves_bindM [preserves_rules]:
  assumes "preserves I m" and "\<And>x. preserves I (f x)"
  shows "preserves I (bindM m f)"
proof (rule preservesI)
  fix s r t
  assume "I s" and run: "bindM m f s = (r, t)"
  obtain r' s' where m: "m s = (r', s')" by (cases "m s")
  with assms(1) \<open>I s\<close> have "I s'" by (blast dest: preservesD)
  with m run assms(2) show "I t"
    by (cases r') (auto simp: bindM_def dest: preservesD)
qed

lemma preserves_thenM [preserves_rules]:
  "preserves I m \<Longrightarrow> preserves I n \<Longrightarrow> preserves I (thenM m n)"
  by (simp add: thenM_def preserves_bindM)

lemma preserves_tryM [preserves_rules]: "preserves I m \<Longrightarrow> preserves I (tryM m)"
  by (auto simp: preserves_def tryM_def split: prod.splits)

lemma preserves_foldM [preserves_rules]:
  assumes "\<And>b x. preserves I (f b x)"
  shows "preserves I (foldM f b xs)"
  by (induction xs arbitrary: b) (auto intro: preserves_returnM preserves_bindM assms)

lemma preserves_if [preserves_rules]:
  "preserves I m \<Longrightarrow> preserves I n \<Longrightarrow> preserves I (if b then m else n)"
  by simp

lemma preserves_case_option [preserves_rules]:
  "preserves I m \<Longrightarrow> (\<And>x. preserves I (f x)) \<Longrightarrow>
   preserves I (case r of None \<Rightarrow> m | Some x \<Rightarrow> f x)"
  by (simp split: option.splits)

lemma preserves_case_sum [preserves_rules]:
  "(\<And>x. preserves I (f x)) \<Longrightarrow> (\<And>y. preserves I (g y)) \<Longrightarrow>
   preserves I (case r of Inl x \<Rightarrow> f x | Inr y \<Rightarrow> g y)"
  by (simp split: sum.splits)

lemma preserves_case_prod [preserves_rules]:
  "(\<And>x y. preserves I (f x y)) \<Longrightarrow> preserves I (case p of (x, y) \<Rightarrow> f x y)"
  by (simp split: prod.splits)

lemma preserves_conj:
  "preserves I m \<Longrightarrow> preserves J m \<Longrightarrow> preserves (\<lambda>s. I s \<and> J s) m"
  by (auto simp: preserves_def)

section \<open>Partial correctness with an exceptional postcondition\<close>

text \<open>
  \<open>hoare P m Q R\<close>: from a state in \<open>P\<close>, program \<open>m\<close> either returns a result and a state in \<open>Q\<close>
  or raises and leaves a state in \<open>R\<close>.  Every program returns or raises, so this is total.
\<close>

definition hoare ::
  "('s \<Rightarrow> bool) \<Rightarrow> ('s, 'e, 'a) prog \<Rightarrow> ('a \<Rightarrow> 's \<Rightarrow> bool) \<Rightarrow> ('s \<Rightarrow> bool) \<Rightarrow> bool" where
  "hoare P m Q R \<longleftrightarrow> (\<forall>s. P s \<longrightarrow> (case m s of (Inr x, t) \<Rightarrow> Q x t | (Inl e, t) \<Rightarrow> R t))"

named_theorems hoare_rules \<open>structural rules for hoare triples\<close>

lemma hoareI:
  assumes "\<And>s x t. P s \<Longrightarrow> m s = (Inr x, t) \<Longrightarrow> Q x t" and "\<And>s e t. P s \<Longrightarrow> m s = (Inl e, t) \<Longrightarrow> R t"
  shows "hoare P m Q R"
  unfolding hoare_def
proof (intro allI impI)
  fix s assume "P s"
  with assms show "case m s of (Inr x, t) \<Rightarrow> Q x t | (Inl e, t) \<Rightarrow> R t"
    by (cases "m s"; cases "fst (m s)") auto
qed

lemma hoareD:
  "hoare P m Q R \<Longrightarrow> P s \<Longrightarrow> m s = (Inr x, t) \<Longrightarrow> Q x t"
  "hoare P m Q R \<Longrightarrow> P s \<Longrightarrow> m s = (Inl e, t) \<Longrightarrow> R t"
  unfolding hoare_def by (drule spec, drule (1) mp, simp)+

lemma hoare_weaken:
  assumes "hoare P m Q R" and "\<And>s. P' s \<Longrightarrow> P s" and "\<And>x s. Q x s \<Longrightarrow> Q' x s"
    and "\<And>s. R s \<Longrightarrow> R' s"
  shows "hoare P' m Q' R'"
  using assms by (intro hoareI) (blast dest: hoareD)+

lemma hoare_pre: "hoare P m Q R \<Longrightarrow> (\<And>s. P' s \<Longrightarrow> P s) \<Longrightarrow> hoare P' m Q R"
  by (rule hoare_weaken)

lemma hoare_conj:
  assumes "hoare P m Q R" and "hoare P' m Q' R'"
  shows "hoare (\<lambda>s. P s \<and> P' s) m (\<lambda>x s. Q x s \<and> Q' x s) (\<lambda>s. R s \<and> R' s)"
  using assms by (intro hoareI) (blast dest: hoareD)+

lemma hoare_bindM [hoare_rules]:
  assumes "hoare P m Q R" and "\<And>x. hoare (Q x) (f x) Q' R"
  shows "hoare P (bindM m f) Q' R"
proof (rule hoareI)
  fix s y t assume "P s" and "bindM m f s = (Inr y, t)"
  with assms show "Q' y t" by (fastforce simp: bindM_eq_Inr dest: hoareD)
next
  fix s e t assume "P s" and "bindM m f s = (Inl e, t)"
  with assms show "R t" by (fastforce simp: bindM_eq_Inl dest: hoareD)
qed

lemma hoare_thenM [hoare_rules]:
  "hoare P m (\<lambda>_. Q) R \<Longrightarrow> hoare Q n Q' R \<Longrightarrow> hoare P (thenM m n) Q' R"
  unfolding thenM_def by (rule hoare_bindM)

lemma hoare_returnM [hoare_rules]: "(\<And>s. P s \<Longrightarrow> Q x s) \<Longrightarrow> hoare P (returnM x) Q R"
  by (simp add: hoare_def)

lemma hoare_raiseM [hoare_rules]: "(\<And>s. P s \<Longrightarrow> R s) \<Longrightarrow> hoare P (raiseM e) Q R"
  by (simp add: hoare_def)

lemma hoare_liftM [hoare_rules]:
  "(\<And>s x. P s \<Longrightarrow> r = Inr x \<Longrightarrow> Q x s) \<Longrightarrow> (\<And>s. P s \<Longrightarrow> R s) \<Longrightarrow> hoare P (liftM r) Q R"
  by (cases r) (simp_all add: hoare_def)

lemma hoare_getM: "(\<And>s. P s \<Longrightarrow> Q (f s) s) \<Longrightarrow> hoare P (getM f) Q R"
  by (simp add: hoare_def)

lemma hoare_foldM:
  assumes "\<And>b x. x \<in> set xs \<Longrightarrow> hoare P (f b x) (\<lambda>_. P) R"
  shows "hoare P (foldM f b xs) (\<lambda>_. P) R"
  using assms
proof (induction xs arbitrary: b)
  case Nil
  then show ?case unfolding foldM.simps by (intro hoare_returnM)
next
  case (Cons x xs)
  then show ?case unfolding foldM.simps by (intro hoare_bindM [of P _ "\<lambda>_. P"]) auto
qed

section \<open>Lists\<close>

lemma sorted_map_filter: "sorted (map f xs) \<Longrightarrow> sorted (map f (filter P xs))"
  by (simp add: sorted_filter)

lemma sort_key_sorted: "sorted (map f xs) \<Longrightarrow> sort_key f xs = xs"
  by (rule sort_key_id_if_sorted)

lemma insort_key_snoc: "f x \<le> f y \<Longrightarrow> insort_key f x (ys @ [y]) = insort_key f x ys @ [y]"
  by (induction ys) auto

lemma sort_key_snoc_max:
  "(\<And>x. x \<in> set xs \<Longrightarrow> f x \<le> f y) \<Longrightarrow> sort_key f (xs @ [y]) = sort_key f xs @ [y]"
  by (induction xs) (simp_all add: insort_key_snoc)

lemma find_Some_mem: "find P xs = Some x \<Longrightarrow> x \<in> set xs \<and> P x"
  by (auto simp: find_Some_iff)

lemma find_append: "find P (xs @ ys) = (case find P xs of None \<Rightarrow> find P ys | Some x \<Rightarrow> Some x)"
  by (induction xs) simp_all

lemma distinct_map_eq: "distinct (map f xs) \<Longrightarrow> x \<in> set xs \<Longrightarrow> y \<in> set xs \<Longrightarrow> f x = f y \<Longrightarrow> x = y"
  by (auto simp: distinct_map inj_on_def)

lemma find_key_unique:
  assumes "distinct (map f xs)" and "x \<in> set xs"
  shows "find (\<lambda>y. f y = f x) xs = Some x"
  using assms by (induction xs) auto

end
