(* ===== verification/Enums.thy ===== *)
theory Enums
  imports Prelude
begin

text \<open>
  The closed vocabularies of \<open>domain/enums.py\<close>, the event catalogue's names from
  \<open>domain/events.py\<close>, and the exceptions the application raises.  Enumeration members keep
  the source's names; a prefix tells apart members that several Python classes share
  (\<open>EscalationOrigin.STEP_LIMIT\<close> and \<open>CaseOutcome.STEP_LIMIT\<close> are \<open>EO_STEP_LIMIT\<close> and
  \<open>CO_STEP_LIMIT\<close>).  Each \<open>*_value\<close> function is the member's string value.
\<close>

section \<open>Enumerations\<close>

datatype actor = Actor_CUSTOMER | Actor_AGENT | Actor_OPERATOR | Actor_SYSTEM

datatype channel = Channel_EMAIL | Channel_OPERATOR_API | Channel_VERIFICATION_API | Channel_INTERNAL

datatype case_status = CS_OPEN | CS_AWAITING_APPROVAL | CS_AWAITING_VERIFICATION | CS_CLOSED

datatype refund_status = RS_PENDING_APPROVAL | RS_APPROVED | RS_EXECUTED | RS_REJECTED | RS_EXPIRED

datatype escalation_origin = EO_AGENT | EO_POLICY | EO_STEP_LIMIT | EO_PARSE_LIMIT | EO_MODEL_FAILURE

datatype order_status = OS_DELIVERED | OS_DELIVERED_DAMAGED | OS_SHIPPED

datatype case_outcome = CO_FINISHED | CO_ESCALATED | CO_STEP_LIMIT | CO_PARSE_LIMIT | CO_MODEL_FAILURE

datatype verification_method = VM_SEED | VM_TOKEN

fun actor_value :: "actor \<Rightarrow> pystr" where
  "actor_value Actor_CUSTOMER = lit ''customer''"
| "actor_value Actor_AGENT = lit ''agent''"
| "actor_value Actor_OPERATOR = lit ''operator''"
| "actor_value Actor_SYSTEM = lit ''system''"

fun channel_value :: "channel \<Rightarrow> pystr" where
  "channel_value Channel_EMAIL = lit ''email''"
| "channel_value Channel_OPERATOR_API = lit ''operator_api''"
| "channel_value Channel_VERIFICATION_API = lit ''verification_api''"
| "channel_value Channel_INTERNAL = lit ''internal''"

fun case_status_value :: "case_status \<Rightarrow> pystr" where
  "case_status_value CS_OPEN = lit ''open''"
| "case_status_value CS_AWAITING_APPROVAL = lit ''awaiting_approval''"
| "case_status_value CS_AWAITING_VERIFICATION = lit ''awaiting_verification''"
| "case_status_value CS_CLOSED = lit ''closed''"

fun refund_status_value :: "refund_status \<Rightarrow> pystr" where
  "refund_status_value RS_PENDING_APPROVAL = lit ''pending_approval''"
| "refund_status_value RS_APPROVED = lit ''approved''"
| "refund_status_value RS_EXECUTED = lit ''executed''"
| "refund_status_value RS_REJECTED = lit ''rejected''"
| "refund_status_value RS_EXPIRED = lit ''expired''"

fun escalation_origin_value :: "escalation_origin \<Rightarrow> pystr" where
  "escalation_origin_value EO_AGENT = lit ''agent''"
| "escalation_origin_value EO_POLICY = lit ''policy''"
| "escalation_origin_value EO_STEP_LIMIT = lit ''step_limit''"
| "escalation_origin_value EO_PARSE_LIMIT = lit ''parse_limit''"
| "escalation_origin_value EO_MODEL_FAILURE = lit ''model_failure''"

fun order_status_value :: "order_status \<Rightarrow> pystr" where
  "order_status_value OS_DELIVERED = lit ''delivered''"
| "order_status_value OS_DELIVERED_DAMAGED = lit ''delivered_damaged''"
| "order_status_value OS_SHIPPED = lit ''shipped''"

fun case_outcome_value :: "case_outcome \<Rightarrow> pystr" where
  "case_outcome_value CO_FINISHED = lit ''finished''"
| "case_outcome_value CO_ESCALATED = lit ''escalated''"
| "case_outcome_value CO_STEP_LIMIT = lit ''step_limit''"
| "case_outcome_value CO_PARSE_LIMIT = lit ''parse_limit''"
| "case_outcome_value CO_MODEL_FAILURE = lit ''model_failure''"

fun verification_method_value :: "verification_method \<Rightarrow> pystr" where
  "verification_method_value VM_SEED = lit ''seed''"
| "verification_method_value VM_TOKEN = lit ''token''"

section \<open>The event catalogue's names\<close>

datatype event_type =
    ET_CASE_OPENED
  | ET_EMAIL_RECEIVED
  | ET_ORDERS_LISTED
  | ET_ORDER_LINKED
  | ET_VERIFICATION_REQUESTED
  | ET_CUSTOMER_VERIFIED
  | ET_REFUND_PROPOSED
  | ET_REFUND_AUTO_APPROVED
  | ET_REFUND_APPROVAL_REQUIRED
  | ET_REFUND_APPROVED
  | ET_REFUND_REJECTED
  | ET_REFUND_EXPIRED
  | ET_REFUND_EXECUTED
  | ET_REPLY_SENT
  | ET_ESCALATED
  | ET_ACTION_DENIED
  | ET_INVALID_OUTPUT
  | ET_CASE_CLOSED

fun event_type_value :: "event_type \<Rightarrow> pystr" where
  "event_type_value ET_CASE_OPENED = lit ''case_opened''"
| "event_type_value ET_EMAIL_RECEIVED = lit ''email_received''"
| "event_type_value ET_ORDERS_LISTED = lit ''orders_listed''"
| "event_type_value ET_ORDER_LINKED = lit ''order_linked''"
| "event_type_value ET_VERIFICATION_REQUESTED = lit ''verification_requested''"
| "event_type_value ET_CUSTOMER_VERIFIED = lit ''customer_verified''"
| "event_type_value ET_REFUND_PROPOSED = lit ''refund_proposed''"
| "event_type_value ET_REFUND_AUTO_APPROVED = lit ''refund_auto_approved''"
| "event_type_value ET_REFUND_APPROVAL_REQUIRED = lit ''refund_approval_required''"
| "event_type_value ET_REFUND_APPROVED = lit ''refund_approved''"
| "event_type_value ET_REFUND_REJECTED = lit ''refund_rejected''"
| "event_type_value ET_REFUND_EXPIRED = lit ''refund_expired''"
| "event_type_value ET_REFUND_EXECUTED = lit ''refund_executed''"
| "event_type_value ET_REPLY_SENT = lit ''reply_sent''"
| "event_type_value ET_ESCALATED = lit ''escalated''"
| "event_type_value ET_ACTION_DENIED = lit ''action_denied''"
| "event_type_value ET_INVALID_OUTPUT = lit ''invalid_output''"
| "event_type_value ET_CASE_CLOSED = lit ''case_closed''"

definition event_types :: "event_type list" where
  "event_types =
     [ET_CASE_OPENED, ET_EMAIL_RECEIVED, ET_ORDERS_LISTED, ET_ORDER_LINKED,
      ET_VERIFICATION_REQUESTED, ET_CUSTOMER_VERIFIED, ET_REFUND_PROPOSED,
      ET_REFUND_AUTO_APPROVED, ET_REFUND_APPROVAL_REQUIRED, ET_REFUND_APPROVED,
      ET_REFUND_REJECTED, ET_REFUND_EXPIRED, ET_REFUND_EXECUTED, ET_REPLY_SENT,
      ET_ESCALATED, ET_ACTION_DENIED, ET_INVALID_OUTPUT, ET_CASE_CLOSED]"

lemma event_types_complete: "t \<in> set event_types"
  by (cases t) (simp_all add: event_types_def)

section \<open>Exceptions\<close>

text \<open>
  One constructor per exception class that the modelled code raises or that the libraries raise
  into it; the argument is what the constructor of the Python class records.
  \<open>IntegrityError\<close> carries the name of the violated constraint, \<open>InvalidOperation\<close> and
  \<open>Overflow\<close> are the signals of the \<open>decimal\<close> module.
\<close>

datatype error =
    CaseNotFoundError pystr
  | CustomerNotFoundError pystr
  | RefundNotFoundError pystr
  | LookupError pystr
  | UnknownEventTypeError pystr
  | InvalidActorChannelError event_type actor channel actor channel
  | InvalidEventScopeError pystr
  | InvalidEventRelationalScopeError pystr
  | ValidationError
  | IntegrityError string
  | AuthorisationError pystr
  | RefundStatusTransitionError pystr
  | RefundIntentImmutableError pystr
  | RefundIntentIntegrityError pystr
  | ImmutableRowError pystr
  | RuntimeError pystr
  | ValueError pystr
  | TypeError pystr
  | KeyError pystr
  | AssertionError pystr
  | InvalidOperation
  | Overflow
  | ModelGatewayProtocolError pystr
  | ModelResponseTypeError pystr
  | ScriptedModelExhaustedError pystr
  | UnicodeDecodeError
  | UnicodeEncodeError
  | RecursionError
  | JSONDecodeError pystr
  | ProtocolViolationError pystr
  | OverflowError
  | TimeoutError

text \<open>\<open>type(error).__name__\<close>, which the model boundary quotes in its escalation reason.\<close>

fun error_class_name :: "error \<Rightarrow> pystr" where
  "error_class_name (CaseNotFoundError _) = lit ''CaseNotFoundError''"
| "error_class_name (CustomerNotFoundError _) = lit ''CustomerNotFoundError''"
| "error_class_name (RefundNotFoundError _) = lit ''RefundNotFoundError''"
| "error_class_name (LookupError _) = lit ''LookupError''"
| "error_class_name (UnknownEventTypeError _) = lit ''UnknownEventTypeError''"
| "error_class_name (InvalidActorChannelError _ _ _ _ _) = lit ''InvalidActorChannelError''"
| "error_class_name (InvalidEventScopeError _) = lit ''InvalidEventScopeError''"
| "error_class_name (InvalidEventRelationalScopeError _) = lit ''InvalidEventRelationalScopeError''"
| "error_class_name ValidationError = lit ''ValidationError''"
| "error_class_name (IntegrityError _) = lit ''IntegrityError''"
| "error_class_name (AuthorisationError _) = lit ''AuthorisationError''"
| "error_class_name (RefundStatusTransitionError _) = lit ''RefundStatusTransitionError''"
| "error_class_name (RefundIntentImmutableError _) = lit ''RefundIntentImmutableError''"
| "error_class_name (RefundIntentIntegrityError _) = lit ''RefundIntentIntegrityError''"
| "error_class_name (ImmutableRowError _) = lit ''ImmutableRowError''"
| "error_class_name (RuntimeError _) = lit ''RuntimeError''"
| "error_class_name (ValueError _) = lit ''ValueError''"
| "error_class_name (TypeError _) = lit ''TypeError''"
| "error_class_name (KeyError _) = lit ''KeyError''"
| "error_class_name (AssertionError _) = lit ''AssertionError''"
| "error_class_name InvalidOperation = lit ''InvalidOperation''"
| "error_class_name Overflow = lit ''Overflow''"
| "error_class_name (ModelGatewayProtocolError _) = lit ''ModelGatewayProtocolError''"
| "error_class_name (ModelResponseTypeError _) = lit ''ModelResponseTypeError''"
| "error_class_name (ScriptedModelExhaustedError _) = lit ''ScriptedModelExhaustedError''"
| "error_class_name UnicodeDecodeError = lit ''UnicodeDecodeError''"
| "error_class_name UnicodeEncodeError = lit ''UnicodeEncodeError''"
| "error_class_name OverflowError = lit ''OverflowError''"
| "error_class_name (ProtocolViolationError _) = lit ''ProtocolViolationError''"
| "error_class_name (JSONDecodeError _) = lit ''JSONDecodeError''"
| "error_class_name RecursionError = lit ''RecursionError''"
| "error_class_name TimeoutError = lit ''TimeoutError''"

end
