(* ===== verification/Decimal.thy ===== *)
theory Decimal
  imports Enums
begin

text \<open>
  The part of Python's \<open>decimal\<close> module that the program uses: a finite number is a sign, a
  coefficient and a power of ten; infinities and NaNs are separate values.  Arithmetic follows
  the default context: 28 digits of precision, \<open>ROUND_HALF_EVEN\<close>, and the traps
  \<open>InvalidOperation\<close> and \<open>Overflow\<close> raising.  Ordering comparisons with a NaN raise
  \<open>InvalidOperation\<close>.  \<open>dec_val\<close> is the rational number a finite decimal denotes; the lemmas
  say when the operations are exact, which is what the money rules rely on.
\<close>

section \<open>Values\<close>

datatype decimal = Dec bool nat int | DInf bool | DNaN bool

fun dec_is_finite :: "decimal \<Rightarrow> bool" where
  "dec_is_finite (Dec _ _ _) = True"
| "dec_is_finite _ = False"

text \<open>\<open>as_tuple().exponent\<close>: an \<open>int\<close> for finite values, a letter (here \<open>None\<close>) otherwise.\<close>

fun dec_exponent :: "decimal \<Rightarrow> int option" where
  "dec_exponent (Dec _ _ e) = Some e"
| "dec_exponent _ = None"

text \<open>The signed coefficient written with the smaller exponent \<open>m\<close>.\<close>

fun dec_aligned :: "int \<Rightarrow> decimal \<Rightarrow> int" where
  "dec_aligned m (Dec s c e) = (if s then -1 else 1) * int c * 10 ^ nat (e - m)"
| "dec_aligned m _ = 0"

fun dec_val :: "decimal \<Rightarrow> rat" where
  "dec_val (Dec s c e) = (if s then -1 else 1) * of_nat c * 10 powi e"
| "dec_val _ = 0"

section \<open>Comparison\<close>

fun dec_le :: "decimal \<Rightarrow> decimal \<Rightarrow> error + bool" where
  "dec_le (Dec s c e) (Dec s' c' e') =
     (let m = min e e' in Inr (dec_aligned m (Dec s c e) \<le> dec_aligned m (Dec s' c' e')))"
| "dec_le (DNaN _) _ = Inl InvalidOperation"
| "dec_le _ (DNaN _) = Inl InvalidOperation"
| "dec_le (DInf neg) (DInf neg') = Inr (neg \<or> \<not> neg')"
| "dec_le (DInf neg) (Dec _ _ _) = Inr neg"
| "dec_le (Dec _ _ _) (DInf neg) = Inr (\<not> neg)"

text \<open>Equality never raises for quiet NaNs and compares numbers by value.\<close>

fun dec_eq :: "decimal \<Rightarrow> decimal \<Rightarrow> bool" where
  "dec_eq (Dec s c e) (Dec s' c' e') =
     (let m = min e e' in dec_aligned m (Dec s c e) = dec_aligned m (Dec s' c' e'))"
| "dec_eq (DInf neg) (DInf neg') = (neg = neg')"
| "dec_eq _ _ = False"

section \<open>Arithmetic in the default context\<close>

definition dec_prec :: nat where
  "dec_prec = 28"

definition dec_emax :: int where
  "dec_emax = 999999"

definition ndigits :: "nat \<Rightarrow> nat" where
  "ndigits n = length (nat_digits n)"

definition div_half_even :: "nat \<Rightarrow> nat \<Rightarrow> nat" where
  "div_half_even c d =
     (let q = c div d; r = c mod d
      in if 2 * r > d \<or> (2 * r = d \<and> odd q) then Suc q else q)"

text \<open>\<open>_fix\<close>: round to 28 digits when there are more, then check the exponent range.\<close>

definition dec_fix :: "bool \<Rightarrow> nat \<Rightarrow> int \<Rightarrow> error + decimal" where
  "dec_fix s c e =
     (let k = ndigits c - dec_prec;
          c1 = (if k = 0 then c else div_half_even c (10 ^ k));
          e1 = e + int k;
          (c2, e2) = (if c1 = 10 ^ dec_prec then (10 ^ (dec_prec - 1), e1 + 1) else (c1, e1))
      in if c2 \<noteq> 0 \<and> e2 + int (ndigits c2) - 1 > dec_emax then Inl Overflow
         else Inr (Dec s c2 e2))"

fun dec_add :: "decimal \<Rightarrow> decimal \<Rightarrow> error + decimal" where
  "dec_add (Dec s c e) (Dec s' c' e') =
     (let m = min e e';
          n = dec_aligned m (Dec s c e) + dec_aligned m (Dec s' c' e')
      in dec_fix (n < 0 \<or> (n = 0 \<and> s \<and> s')) (nat \<bar>n\<bar>) m)"
| "dec_add (DNaN True) _ = Inl InvalidOperation"
| "dec_add _ (DNaN True) = Inl InvalidOperation"
| "dec_add (DNaN False) _ = Inr (DNaN False)"
| "dec_add _ (DNaN False) = Inr (DNaN False)"
| "dec_add (DInf neg) (DInf neg') =
     (if neg = neg' then Inr (DInf neg) else Inl InvalidOperation)"
| "dec_add (DInf neg) (Dec _ _ _) = Inr (DInf neg)"
| "dec_add (Dec _ _ _) (DInf neg) = Inr (DInf neg)"

fun dec_neg :: "decimal \<Rightarrow> decimal" where
  "dec_neg (Dec s c e) = Dec (\<not> s) c e"
| "dec_neg (DInf s) = DInf (\<not> s)"
| "dec_neg (DNaN sg) = DNaN sg"

definition dec_sub :: "decimal \<Rightarrow> decimal \<Rightarrow> error + decimal" where
  "dec_sub a b = dec_add a (dec_neg b)"

definition div_half_up :: "nat \<Rightarrow> nat \<Rightarrow> nat" where
  "div_half_up c d = (let q = c div d; r = c mod d in if 2 * r \<ge> d then Suc q else q)"

text \<open>\<open>quantize(Decimal("0.01"), rounding=ROUND_HALF_UP)\<close>: rescale to exponent \<open>-2\<close>.\<close>

fun dec_quantize_cents :: "decimal \<Rightarrow> error + decimal" where
  "dec_quantize_cents (Dec s c e) =
     (let c' = (if e \<ge> -2 then c * 10 ^ nat (e + 2) else div_half_up c (10 ^ nat (- 2 - e)))
      in if ndigits c' > dec_prec then Inl InvalidOperation else Inr (Dec s c' (-2)))"
| "dec_quantize_cents (DInf _) = Inl InvalidOperation"
| "dec_quantize_cents (DNaN sg) = (if sg then Inl InvalidOperation else Inr (DNaN False))"

section \<open>Text of a decimal\<close>

text \<open>
  \<open>format(amount, "f")\<close>: positional notation.  \<open>dec_str\<close> is \<open>str(amount)\<close>, which switches to
  scientific notation for positive exponents and for numbers far below one.
\<close>

definition place_point :: "nat list \<Rightarrow> int \<Rightarrow> pystr" where
  "place_point ds p =
     (let n = int (length ds) in
      if p \<le> 0 then lit ''0.'' @ replicate (nat (- p)) 48 @ ds
      else if p \<ge> n then ds @ replicate (nat (p - n)) 48
      else take (nat p) ds @ lit ''.'' @ drop (nat p) ds)"

fun dec_format_f :: "decimal \<Rightarrow> pystr" where
  "dec_format_f (Dec s c e) =
     (if s then lit ''-'' else []) @
     (if e \<ge> 0 then nat_str c @ (if c = 0 then [] else replicate (nat e) 48)
      else place_point (nat_str c) (e + int (length (nat_str c))))"
| "dec_format_f (DInf s) = (if s then lit ''-Infinity'' else lit ''Infinity'')"
| "dec_format_f (DNaN sg) = (if sg then lit ''sNaN'' else lit ''NaN'')"

fun dec_str :: "decimal \<Rightarrow> pystr" where
  "dec_str (Dec s c e) =
     (let ds = nat_str c; n = int (length ds); left = e + n;
          p = (if e \<le> 0 \<and> left > -6 then left else 1)
      in (if s then lit ''-'' else []) @ place_point ds p @
         (if left = p then []
          else lit ''E'' @ (if left - p \<ge> 0 then lit ''+'' else []) @ int_str (left - p)))"
| "dec_str (DInf s) = (if s then lit ''-Infinity'' else lit ''Infinity'')"
| "dec_str (DNaN sg) = (if sg then lit ''sNaN'' else lit ''NaN'')"

section \<open>Exactness\<close>

lemma ten_powi_split: "m \<le> e \<Longrightarrow> (10::rat) ^ nat (e - m) * 10 powi m = 10 powi e"
  by (simp add: power_int_add [symmetric] flip: power_int_of_nat)

lemma dec_aligned_val:
  assumes "d = Dec s c e" and "m \<le> e"
  shows "of_int (dec_aligned m d) * (10::rat) powi m = dec_val d"
  using assms ten_powi_split [of m e] by (simp add: mult.assoc)

lemma powi_ten_pos [simp]: "(0::rat) < 10 powi m"
  by simp

lemma dec_le_val:
  "dec_le (Dec s c e) (Dec s' c' e') = Inr (dec_val (Dec s c e) \<le> dec_val (Dec s' c' e'))"
proof -
  let ?m = "min e e'"
  have "dec_aligned ?m (Dec s c e) \<le> dec_aligned ?m (Dec s' c' e') \<longleftrightarrow>
        (of_int (dec_aligned ?m (Dec s c e)) :: rat) * 10 powi ?m
          \<le> of_int (dec_aligned ?m (Dec s' c' e')) * 10 powi ?m"
    by (simp add: mult_le_cancel_right_pos del: dec_aligned.simps)
  also have "\<dots> \<longleftrightarrow> dec_val (Dec s c e) \<le> dec_val (Dec s' c' e')"
    by (subst (1 2) dec_aligned_val [OF refl]) simp_all
  finally show ?thesis by (simp add: Let_def del: dec_aligned.simps dec_val.simps)
qed

lemma dec_eq_val:
  "dec_eq (Dec s c e) (Dec s' c' e') \<longleftrightarrow> dec_val (Dec s c e) = dec_val (Dec s' c' e')"
proof -
  let ?m = "min e e'"
  have "dec_aligned ?m (Dec s c e) = dec_aligned ?m (Dec s' c' e') \<longleftrightarrow>
        (of_int (dec_aligned ?m (Dec s c e)) :: rat) * 10 powi ?m
          = of_int (dec_aligned ?m (Dec s' c' e')) * 10 powi ?m"
    by (simp del: dec_aligned.simps)
  also have "\<dots> \<longleftrightarrow> dec_val (Dec s c e) = dec_val (Dec s' c' e')"
    by (subst (1 2) dec_aligned_val [OF refl]) simp_all
  finally show ?thesis by (simp add: Let_def del: dec_aligned.simps dec_val.simps)
qed

lemma ndigits_le: "0 < k \<Longrightarrow> n < 10 ^ k \<Longrightarrow> ndigits n \<le> k"
proof (induction n arbitrary: k rule: nat_digits.induct)
  case (1 n)
  show ?case
  proof (cases "n < 10")
    case True
    with 1 show ?thesis by (simp add: ndigits_def nat_digits.simps [of n])
  next
    case False
    with "1.prems" obtain k' where k: "k = Suc k'" "0 < k'"
      by (cases k; cases "k - 1") auto
    with "1.prems" have "n div 10 < 10 ^ k'" by simp
    with 1 False k have "ndigits (n div 10) \<le> k'" by blast
    with False k show ?thesis by (simp add: ndigits_def nat_digits.simps [of n])
  qed
qed

lemma dec_fix_exact:
  assumes "c < 10 ^ dec_prec" and "e \<le> 0"
  shows "dec_fix s c e = Inr (Dec s c e)"
proof -
  have "ndigits c \<le> dec_prec" using assms by (simp add: ndigits_le dec_prec_def)
  with assms show ?thesis by (auto simp: dec_fix_def dec_emax_def dec_prec_def)
qed

text \<open>Money: a non-negative amount of cents below \<open>10 ^ 12\<close>, the range of \<open>Numeric(12, 2)\<close>.\<close>

definition cents :: "nat \<Rightarrow> decimal" where
  "cents n = Dec False n (-2)"

definition is_money :: "decimal \<Rightarrow> bool" where
  "is_money d \<longleftrightarrow> (case d of Dec s c e \<Rightarrow> \<not> s \<and> e = -2 \<and> c < 10 ^ 12 | _ \<Rightarrow> False)"

lemma is_moneyE:
  assumes "is_money d"
  obtains n where "d = cents n" and "n < 10 ^ 12"
  using assms by (cases d) (auto simp: is_money_def cents_def)

lemma is_money_cents [simp]: "is_money (cents n) \<longleftrightarrow> n < 10 ^ 12"
  by (simp add: is_money_def cents_def)

lemma cents_inject [simp]: "cents m = cents n \<longleftrightarrow> m = n"
  by (simp add: cents_def)

lemma dec_is_finite_cents [simp]: "dec_is_finite (cents n)"
  by (simp add: cents_def)

lemma dec_val_cents: "dec_val (cents n) = of_nat n / 100"
  by (simp add: cents_def power_int_minus field_simps)

lemma dec_le_cents [simp]: "dec_le (cents m) (cents n) = Inr (m \<le> n)"
  by (simp add: cents_def)

lemma dec_eq_cents [simp]: "dec_eq (cents m) (cents n) \<longleftrightarrow> m = n"
  by (simp add: cents_def)

lemma dec_add_cents:
  assumes "m + n < 10 ^ dec_prec"
  shows "dec_add (cents m) (cents n) = Inr (cents (m + n))"
proof -
  have "nat (int m + int n) = m + n" by simp
  with assms show ?thesis by (simp add: cents_def Let_def dec_fix_exact)
qed

lemma dec_add_zero_cents:
  assumes "n < 10 ^ dec_prec"
  shows "dec_add (Dec False 0 0) (cents n) = Inr (cents n)"
  using assms by (simp add: cents_def Let_def dec_fix_exact)

lemma dec_sub_cents:
  assumes "n \<le> m" and "m < 10 ^ dec_prec"
  shows "dec_sub (cents m) (cents n) = Inr (cents (m - n))"
proof -
  have "nat \<bar>int m - int n\<bar> = m - n" using assms by simp
  moreover from assms have "m - n < 10 ^ dec_prec" by simp
  ultimately show ?thesis using assms
    by (simp add: dec_sub_def cents_def Let_def dec_fix_exact)
qed

lemma dec_sub_zero_cents:
  assumes "m < 10 ^ dec_prec"
  shows "dec_sub (cents m) (Dec False 0 0) = Inr (cents m)"
  using assms by (simp add: dec_sub_def cents_def Let_def dec_fix_exact)

text \<open>
  An amount with at most two decimals is quantised without rounding: only the representation
  changes.
\<close>

lemma dec_quantize_cents_exact:
  assumes "e \<ge> -2" and "c * 10 ^ nat (e + 2) < 10 ^ dec_prec"
  shows "dec_quantize_cents (Dec s c e) = Inr (Dec s (c * 10 ^ nat (e + 2)) (-2))"
proof -
  have "ndigits (c * 10 ^ nat (e + 2)) \<le> dec_prec"
    using assms by (intro ndigits_le) (simp_all add: dec_prec_def)
  with assms show ?thesis by simp
qed

lemma dec_quantize_cents_val:
  assumes "dec_quantize_cents (Dec s c e) = Inr d" and "e \<ge> -2"
  shows "dec_val d = dec_val (Dec s c e) \<and> dec_exponent d = Some (-2)"
proof -
  from assms have d: "d = Dec s (c * 10 ^ nat (e + 2)) (-2)"
    by (auto simp: Let_def split: if_splits)
  have "(10::rat) ^ nat (e + 2) * 10 powi (-2) = 10 powi e"
    using ten_powi_split [of "-2" e] assms by simp
  then show ?thesis using d by (simp add: mult.assoc)
qed

end
