(* ===== verification/Config.thy ===== *)
theory Config
  imports Decimal
begin

text \<open>
  The settings of \<open>config.py\<close>.  Instants are integers counting microseconds, the resolution of
  Python's \<open>datetime\<close>; \<open>seconds n\<close> is \<open>timedelta(seconds=n)\<close>.
\<close>

type_synonym datetime = int

definition seconds :: "int \<Rightarrow> int" where
  "seconds n = n * 1000000"

definition REFUND_APPROVAL_THRESHOLD :: decimal where
  "REFUND_APPROVAL_THRESHOLD = Dec False 50000 (-2)"

definition APPROVAL_TTL_SECONDS :: int where "APPROVAL_TTL_SECONDS = 900"

definition VERIFICATION_TTL_SECONDS :: int where "VERIFICATION_TTL_SECONDS = 900"

definition MAX_AGENT_STEPS :: nat where "MAX_AGENT_STEPS = 12"

definition MAX_INVALID_OUTPUTS :: nat where "MAX_INVALID_OUTPUTS = 3"

definition MODEL_RESPONSE_MAX_BYTES :: nat where "MODEL_RESPONSE_MAX_BYTES = 65536"

definition MODEL_WORKER_MAX_REQUEST_BYTES :: nat where "MODEL_WORKER_MAX_REQUEST_BYTES = 512 * 1024"

definition DENIAL_LOOP_THRESHOLD :: nat where "DENIAL_LOOP_THRESHOLD = 3"

definition VERIFICATION_SUBJECT :: pystr where
  "VERIFICATION_SUBJECT = lit ''Verify your email address''"

definition VERIFICATION_BODY :: "pystr \<Rightarrow> pystr" where
  "VERIFICATION_BODY token = lit ''Use this verification token to continue: '' @ token"

definition UNKNOWN_SENDER_SUBJECT :: pystr where
  "UNKNOWN_SENDER_SUBJECT = lit ''We could not find your account''"

definition UNKNOWN_SENDER_BODY :: pystr where
  "UNKNOWN_SENDER_BODY = lit ''Please contact support using the email address on your account.''"

definition ACTION_TEXT_FIELD_MAX_LENGTH :: nat where "ACTION_TEXT_FIELD_MAX_LENGTH = 4000"

definition ACTION_ORDER_ID_MAX_LENGTH :: nat where "ACTION_ORDER_ID_MAX_LENGTH = 64"

definition INVALID_OUTPUT_PREVIEW_MAX_BYTES :: nat where "INVALID_OUTPUT_PREVIEW_MAX_BYTES = 4096"

definition PROMPT_UNTRUSTED_FIELD_MAX_CHARS :: nat where "PROMPT_UNTRUSTED_FIELD_MAX_CHARS = 2000"

definition PROMPT_MEMORY_SERIALIZED_MAX_BYTES :: nat where "PROMPT_MEMORY_SERIALIZED_MAX_BYTES = 65536"

definition PROMPT_TOTAL_MAX_BYTES :: nat where "PROMPT_TOTAL_MAX_BYTES = 131072"

definition AUTHORIZED_ORDER_COUNT_MAX :: nat where "AUTHORIZED_ORDER_COUNT_MAX = 100"

lemma threshold_cents: "REFUND_APPROVAL_THRESHOLD = cents 50000"
  by (simp add: REFUND_APPROVAL_THRESHOLD_def cents_def)

end
