(* ===== verification/Bytes.thy ===== *)
theory Bytes
  imports Config "HOL-Library.Word"
begin

text \<open>
  Bytes and text: strict UTF-8, the bounding of untrusted text (\<open>bounds.py\<close>) with its SHA-256
  digest, and the length-prefixed frames between the gateway and the worker
  (\<open>agent/gateway.py\<close>, \<open>worker/.../protocol.py\<close>).  A \<open>bytes\<close> object is a list of numbers below
  256; a stream that is read is the list of the chunks it will deliver.
\<close>

section \<open>UTF-8\<close>

definition utf8_char :: "nat \<Rightarrow> nat list option" where
  "utf8_char c =
     (if c < 128 then Some [c]
      else if c < 2048 then Some [192 + c div 64, 128 + c mod 64]
      else if 55296 \<le> c \<and> c < 57344 then None
      else if c < 65536 then Some [224 + c div 4096, 128 + c div 64 mod 64, 128 + c mod 64]
      else if c < 1114112 then
        Some [240 + c div 262144, 128 + c div 4096 mod 64, 128 + c div 64 mod 64, 128 + c mod 64]
      else None)"

text \<open>\<open>str.encode("utf-8")\<close>: a lone surrogate has no encoding.\<close>

fun utf8_encode :: "pystr \<Rightarrow> error + nat list" where
  "utf8_encode [] = Inr []"
| "utf8_encode (c # cs) =
     (case utf8_char c of None \<Rightarrow> Inl UnicodeEncodeError
      | Some bs \<Rightarrow> bindE (utf8_encode cs) (\<lambda>r. Inr (bs @ r)))"

definition continuation :: "nat \<Rightarrow> bool" where
  "continuation b \<longleftrightarrow> 128 \<le> b \<and> b < 192"

text \<open>The first character of a byte sequence and the rest of it.\<close>

fun utf8_step :: "nat list \<Rightarrow> (nat \<times> nat list) option" where
  "utf8_step [] = None"
| "utf8_step (a # r) =
     (if a < 128 then Some (a, r)
      else if 194 \<le> a \<and> a < 224 then
        (case r of b # r' \<Rightarrow> if continuation b then Some ((a - 192) * 64 + (b - 128), r') else None
         | _ \<Rightarrow> None)
      else if 224 \<le> a \<and> a < 240 then
        (case r of b # c # r' \<Rightarrow>
           (let cp = (a - 224) * 4096 + (b - 128) * 64 + (c - 128) in
            if continuation b \<and> continuation c \<and> 2048 \<le> cp \<and> \<not> (55296 \<le> cp \<and> cp < 57344)
            then Some (cp, r') else None)
         | _ \<Rightarrow> None)
      else if 240 \<le> a \<and> a < 245 then
        (case r of b # c # d # r' \<Rightarrow>
           (let cp = (a - 240) * 262144 + (b - 128) * 4096 + (c - 128) * 64 + (d - 128) in
            if continuation b \<and> continuation c \<and> continuation d \<and> 65536 \<le> cp \<and> cp < 1114112
            then Some (cp, r') else None)
         | _ \<Rightarrow> None)
      else None)"

lemma utf8_step_shorter: "utf8_step bs = Some (c, r) \<Longrightarrow> length r < length bs"
  by (cases bs) (auto simp: Let_def split: if_splits list.splits)

text \<open>\<open>bytes.decode("utf-8")\<close>.\<close>

function utf8_decode :: "nat list \<Rightarrow> error + pystr" where
  "utf8_decode bs =
     (if bs = [] then Inr []
      else case utf8_step bs of
        None \<Rightarrow> Inl UnicodeDecodeError
      | Some (c, r) \<Rightarrow> bindE (utf8_decode r) (\<lambda>s. Inr (c # s)))"
  by pat_completeness auto
termination by (relation "measure length") (auto dest: utf8_step_shorter)

declare utf8_decode.simps [simp del]

lemma utf8_decode_Nil [simp]: "utf8_decode [] = Inr []"
  by (simp add: utf8_decode.simps)

lemma digits_64:
  fixes c :: nat
  shows "c div 4096 * 4096 + c div 64 mod 64 * 64 + c mod 64 = c"
    and "c div 262144 * 262144 + c div 4096 mod 64 * 4096 + c div 64 mod 64 * 64 + c mod 64 = c"
proof -
  have "c div 4096 = c div 64 div 64" and "c div 262144 = c div 4096 div 64"
    by (simp_all add: div_mult2_eq [symmetric])
  moreover have "c div 64 * 64 + c mod 64 = c" "c div 64 div 64 * 64 + c div 64 mod 64 = c div 64"
    "c div 4096 div 64 * 64 + c div 4096 mod 64 = c div 4096" by simp_all
  ultimately show "c div 4096 * 4096 + c div 64 mod 64 * 64 + c mod 64 = c"
    and "c div 262144 * 262144 + c div 4096 mod 64 * 4096 + c div 64 mod 64 * 64 + c mod 64 = c"
    by linarith+
qed

lemma utf8_step_char:
  assumes "utf8_char c = Some bs"
  shows "utf8_step (bs @ r) = Some (c, r)"
proof -
  consider "c < 128" | "128 \<le> c" "c < 2048" | "2048 \<le> c" "c < 65536" | "65536 \<le> c" "c < 1114112"
    using assms by (fastforce simp: utf8_char_def split: if_splits)
  then show ?thesis
  proof cases
    case 1
    then have "bs = [c]" using assms by (simp add: utf8_char_def)
    with 1 show ?thesis by simp
  next
    case 2
    then have bs: "bs = [192 + c div 64, 128 + c mod 64]" using assms by (simp add: utf8_char_def)
    have "2 \<le> c div 64" and "c div 64 < 32" using 2 by simp_all
    then show ?thesis by (simp add: bs continuation_def)
  next
    case 3
    then have bs: "bs = [224 + c div 4096, 128 + c div 64 mod 64, 128 + c mod 64]"
      and plain: "\<not> (55296 \<le> c \<and> c < 57344)"
      using assms by (auto simp: utf8_char_def split: if_splits)
    have "c div 4096 < 16" using 3 by simp
    then show ?thesis using 3 plain by (simp add: bs continuation_def Let_def digits_64)
  next
    case 4
    then have bs: "bs = [240 + c div 262144, 128 + c div 4096 mod 64, 128 + c div 64 mod 64, 128 + c mod 64]"
      using assms by (auto simp: utf8_char_def split: if_splits)
    have "c div 262144 < 5" using 4 by simp
    then show ?thesis using 4 by (simp add: bs continuation_def Let_def digits_64)
  qed
qed

lemma utf8_char_not_Nil: "utf8_char c = Some bs \<Longrightarrow> bs \<noteq> []"
  by (auto simp: utf8_char_def split: if_splits)

text \<open>A proper, non-empty part of a character does not decode.\<close>

lemma utf8_step_partial:
  assumes "utf8_char c = Some (p @ q)" and "p \<noteq> []" and "q \<noteq> []"
  shows "utf8_step p = None"
proof -
  obtain a p' where p: "p = a # p'" using assms(2) by (cases p) auto
  consider "128 \<le> c" "c < 2048" | "2048 \<le> c" "c < 65536" | "65536 \<le> c" "c < 1114112"
    using assms by (fastforce simp: utf8_char_def Cons_eq_append_conv split: if_splits)
  then show ?thesis
  proof cases
    case 1
    then show ?thesis using assms p by (auto simp: utf8_char_def Cons_eq_append_conv)
  next
    case 2
    then show ?thesis using assms p
      by (auto simp: utf8_char_def Cons_eq_append_conv append_eq_Cons_conv split: if_splits list.splits)
  next
    case 3
    then show ?thesis using assms p
      by (auto simp: utf8_char_def Cons_eq_append_conv append_eq_Cons_conv split: if_splits list.splits)
  qed
qed

lemma utf8_decode_char:
  assumes "utf8_char c = Some bs"
  shows "utf8_decode (bs @ r) = bindE (utf8_decode r) (\<lambda>s. Inr (c # s))"
  using utf8_char_not_Nil [OF assms] utf8_step_char [OF assms]
  by (subst utf8_decode.simps) simp

text \<open>Decoding undoes encoding.\<close>

lemma utf8_decode_encode: "utf8_encode s = Inr bs \<Longrightarrow> utf8_decode bs = Inr s"
  by (induction s arbitrary: bs) (auto simp: utf8_decode_char bindE_eq_Inr split: option.splits)


section \<open>Bounding untrusted text\<close>

text \<open>The loop of \<open>truncate_utf8_bytes\<close>: drop the last byte until the rest decodes.\<close>

function longest_decodable :: "nat list \<Rightarrow> pystr" where
  "longest_decodable bs =
     (if bs = [] then []
      else case utf8_decode bs of Inr s \<Rightarrow> s | Inl _ \<Rightarrow> longest_decodable (butlast bs))"
  by pat_completeness auto
termination by (relation "measure length") (auto simp: less_diff_conv)

declare longest_decodable.simps [simp del]

definition truncate_utf8_bytes :: "nat list \<Rightarrow> nat \<Rightarrow> error + pystr" where
  "truncate_utf8_bytes text_bytes max_bytes =
     (if length text_bytes \<le> max_bytes then utf8_decode text_bytes
      else Inr (longest_decodable (take max_bytes text_bytes)))"

lemma utf8_encode_append:
  "utf8_encode (s @ t) = bindE (utf8_encode s) (\<lambda>a. bindE (utf8_encode t) (\<lambda>b. Inr (a @ b)))"
  by (induction s) (auto simp: bindE_def split: option.splits sum.splits)

lemma utf8_decode_append:
  "utf8_encode s = Inr bs \<Longrightarrow> utf8_decode (bs @ r) = bindE (utf8_decode r) (\<lambda>t. Inr (s @ t))"
proof (induction s arbitrary: bs)
  case Nil
  then show ?case by (cases "utf8_decode r") simp_all
next
  case (Cons c s)
  then obtain b1 b2 where "utf8_char c = Some b1" "utf8_encode s = Inr b2" "bs = b1 @ b2"
    by (auto simp: bindE_eq_Inr split: option.splits)
  with Cons.IH show ?case by (cases "utf8_decode r") (simp_all add: utf8_decode_char)
qed

text \<open>Any prefix of an encoding is the encoding of a prefix followed by part of one character.\<close>

lemma utf8_prefix_split:
  "utf8_encode s = Inr bs \<Longrightarrow> n < length bs \<Longrightarrow>
   \<exists>k c e p q. k < length s \<and> utf8_encode (take k s) = Inr e \<and> s ! k = c \<and> utf8_char c = Some (p @ q) \<and>
     q \<noteq> [] \<and> take n bs = e @ p"
proof (induction s arbitrary: bs n)
  case Nil
  then show ?case by simp
next
  case (Cons c s)
  then obtain b1 b2 where b: "utf8_char c = Some b1" "utf8_encode s = Inr b2" "bs = b1 @ b2"
    by (auto simp: bindE_eq_Inr split: option.splits)
  show ?case
  proof (cases "n < length b1")
    case True
    with b show ?thesis
      by (intro exI [of _ 0] exI [of _ c] exI [of _ "[]"] exI [of _ "take n b1"] exI [of _ "drop n b1"]) simp
  next
    case False
    with b Cons.prems have "n - length b1 < length b2" by simp
    from Cons.IH [OF b(2) this] obtain k c' e p q where k: "k < length s" "utf8_encode (take k s) = Inr e"
      "s ! k = c'" "utf8_char c' = Some (p @ q)" "q \<noteq> []" "take (n - length b1) b2 = e @ p"
      by blast
    with b False show ?thesis
      by (intro exI [of _ "Suc k"] exI [of _ c'] exI [of _ "b1 @ e"] exI [of _ p] exI [of _ q]) simp
  qed
qed

lemma partial_decode:
  assumes "utf8_encode s = Inr e" and "utf8_char c = Some (p @ q)" and "q \<noteq> []" and "p \<noteq> []"
  shows "utf8_decode (e @ p) = Inl UnicodeDecodeError"
proof -
  have "utf8_decode p = Inl UnicodeDecodeError"
    using utf8_step_partial [OF assms(2,4,3)] assms(4) by (subst utf8_decode.simps) simp
  then show ?thesis by (simp add: utf8_decode_append [OF assms(1)])
qed

lemma longest_decodable_partial:
  "utf8_encode s = Inr e \<Longrightarrow> utf8_char c = Some (p @ q) \<Longrightarrow> q \<noteq> [] \<Longrightarrow> longest_decodable (e @ p) = s"
proof (induction p arbitrary: q rule: rev_induct)
  case Nil
  then have "utf8_decode e = Inr s" by (simp add: utf8_decode_encode)
  then show ?case by (cases "e = []") (simp_all add: longest_decodable.simps [of e] longest_decodable.simps [of "[]"])
next
  case (snoc b p)
  have "utf8_decode (e @ p @ [b]) = Inl UnicodeDecodeError"
    by (rule partial_decode [OF snoc.prems(1,2)]) (use snoc.prems in simp_all)
  then have "longest_decodable (e @ p @ [b]) = longest_decodable (butlast (e @ p @ [b]))"
    by (subst longest_decodable.simps) simp
  with snoc.IH [of "b # q"] snoc.prems show ?case by (simp add: butlast_append)
qed

lemma utf8_encode_appendD:
  assumes "utf8_encode (s @ t) = Inr bs"
  obtains a b where "utf8_encode s = Inr a" and "utf8_encode t = Inr b" and "bs = a @ b"
  using assms unfolding utf8_encode_append by (auto simp: bindE_eq_Inr)

lemma encode_take_mono:
  assumes "utf8_encode s = Inr bs" and "j \<le> k"
  shows "\<exists>a b. utf8_encode (take j s) = Inr a \<and> utf8_encode (take k s) = Inr b \<and> length a \<le> length b"
proof -
  have "s = take k s @ drop k s" and split: "take k s = take j s @ drop j (take k s)"
    using assms(2) by (simp, metis append_take_drop_id min.absorb1 take_take)
  with assms(1) obtain b where b: "utf8_encode (take k s) = Inr b" by (metis utf8_encode_appendD)
  with split obtain a c where "utf8_encode (take j s) = Inr a" "b = a @ c" by (metis utf8_encode_appendD)
  with b show ?thesis by simp
qed


lemma truncate_longest_prefix':
  assumes "utf8_encode s = Inr bs"
  shows "\<exists>k\<le>length s. truncate_utf8_bytes bs n = Inr (take k s) \<and>
    (\<exists>e. utf8_encode (take k s) = Inr e \<and> length e \<le> n) \<and>
    \<not> (\<exists>j e. k < j \<and> j \<le> length s \<and> utf8_encode (take j s) = Inr e \<and> length e \<le> n)"
proof (cases "length bs \<le> n")
  case True
  with assms show ?thesis
    by (intro exI [of _ "length s"]) (simp add: truncate_utf8_bytes_def utf8_decode_encode)
next
  case False
  then obtain k c e p q where split: "k < length s" "utf8_encode (take k s) = Inr e" "s ! k = c"
    "utf8_char c = Some (p @ q)" "q \<noteq> []" "take n bs = e @ p"
    using utf8_prefix_split [OF assms, of n] by auto
  have n: "n = length e + length p" using split(6) False by (metis length_append length_take min_def nat_le_linear)
  have next_char: "utf8_encode (take (Suc k) s) = Inr (e @ p @ q)"
    using split by (simp add: take_Suc_conv_app_nth utf8_encode_append)
  have "n < length a" if "k < j" "utf8_encode (take j s) = Inr a" for j a
    using encode_take_mono [OF assms, of "Suc k" j] that next_char n split(5)
    by (cases q) auto
  then have "\<not> (\<exists>j a. k < j \<and> j \<le> length s \<and> utf8_encode (take j s) = Inr a \<and> length a \<le> n)"
    by (metis not_le)
  moreover have "truncate_utf8_bytes bs n = Inr (take k s)"
    using False split longest_decodable_partial [OF split(2,4,5)] by (simp add: truncate_utf8_bytes_def)
  ultimately show ?thesis using split n by (intro exI [of _ k]) auto
qed

text \<open>C35: \<open>truncate_utf8_bytes\<close> returns the longest prefix of the text whose encoding fits, and never
  raises on encoded text: it cuts between characters, never inside one.\<close>

theorem truncate_longest_prefix:
  assumes "utf8_encode s = Inr bs"
  shows "\<exists>k\<le>length s. truncate_utf8_bytes bs n = Inr (take k s) \<and>
    (\<exists>e. utf8_encode (take k s) = Inr e \<and> length e \<le> n) \<and>
    \<not> (\<exists>j e. k < j \<and> j \<le> length s \<and> utf8_encode (take j s) = Inr e \<and> length e \<le> n)"
  by (rule truncate_longest_prefix' [OF assms])

theorem truncate_longest_prefix_witness:
  "\<exists>k\<le>3. truncate_utf8_bytes [97, 226, 130, 172, 98] 3 = Inr (take k [97, 8364, 98]) \<and>
    (\<exists>e. utf8_encode (take k [97, 8364, 98]) = Inr e \<and> length e \<le> 3) \<and>
    \<not> (\<exists>j e. k < j \<and> j \<le> 3 \<and> utf8_encode (take j [97, 8364, 98]) = Inr e \<and> length e \<le> 3)"
  using truncate_longest_prefix [of "[97, 8364, 98]" "[97, 226, 130, 172, 98]" 3]
  by (simp add: utf8_char_def numeral_3_eq_3)

section \<open>SHA-256\<close>

text \<open>\<open>hashlib.sha256(...).hexdigest()\<close>, as the standard defines it, on 32-bit words.\<close>

unbundle bit_operations_syntax

definition sha256_constants :: "32 word list" where
  "sha256_constants =
    [1116352408, 1899447441, 3049323471, 3921009573, 961987163, 1508970993, 2453635748, 2870763221,
     3624381080, 310598401, 607225278, 1426881987, 1925078388, 2162078206, 2614888103, 3248222580,
     3835390401, 4022224774, 264347078, 604807628, 770255983, 1249150122, 1555081692, 1996064986,
     2554220882, 2821834349, 2952996808, 3210313671, 3336571891, 3584528711, 113926993, 338241895,
     666307205, 773529912, 1294757372, 1396182291, 1695183700, 1986661051, 2177026350, 2456956037,
     2730485921, 2820302411, 3259730800, 3345764771, 3516065817, 3600352804, 4094571909, 275423344,
     430227734, 506948616, 659060556, 883997877, 958139571, 1322822218, 1537002063, 1747873779,
     1955562222, 2024104815, 2227730452, 2361852424, 2428436474, 2756734187, 3204031479, 3329325298]"

definition sha256_extend :: "32 word list \<Rightarrow> 32 word list" where
  "sha256_extend ws = (let n = length ws; x = ws ! (n - 15); y = ws ! (n - 2) in
     ws @ [ws ! (n - 16) + (word_rotr 7 x XOR word_rotr 18 x XOR drop_bit 3 x) + ws ! (n - 7) +
           (word_rotr 17 y XOR word_rotr 19 y XOR drop_bit 10 y)])"

type_synonym sha256_state = "32 word \<times> 32 word \<times> 32 word \<times> 32 word \<times> 32 word \<times> 32 word \<times> 32 word \<times> 32 word"

fun sha256_round :: "sha256_state \<Rightarrow> 32 word \<times> 32 word \<Rightarrow> sha256_state" where
  "sha256_round (a, b, c, d, e, f, g, h) (k, w) =
     (let t1 = h + (word_rotr 6 e XOR word_rotr 11 e XOR word_rotr 25 e) +
               ((e AND f) XOR (NOT e AND g)) + k + w;
          t2 = (word_rotr 2 a XOR word_rotr 13 a XOR word_rotr 22 a) +
               ((a AND b) XOR (a AND c) XOR (b AND c))
      in (t1 + t2, a, b, c, d + t1, e, f, g))"

fun sha256_block :: "sha256_state \<Rightarrow> 32 word list \<Rightarrow> sha256_state" where
  "sha256_block (a, b, c, d, e, f, g, h) ws =
     (case foldl sha256_round (a, b, c, d, e, f, g, h)
         (zip sha256_constants ((sha256_extend ^^ 48) ws)) of
        (a', b', c', d', e', f', g', h') \<Rightarrow>
          (a + a', b + b', c + c', d + d', e + e', f + f', g + g', h + h'))"

definition sha256_initial :: sha256_state where
  "sha256_initial = (1779033703, 3144134277, 1013904242, 2773480762, 1359893119, 2600822924,
     528734635, 1541459225)"

text \<open>\<open>int.to_bytes(k, "big")\<close> of a number that fits, and \<open>int.from_bytes(..., "big")\<close>.\<close>

fun be_bytes :: "nat \<Rightarrow> nat \<Rightarrow> nat list" where
  "be_bytes 0 n = []"
| "be_bytes (Suc k) n = be_bytes k (n div 256) @ [n mod 256]"

definition be_value :: "nat list \<Rightarrow> nat" where
  "be_value bs = foldl (\<lambda>v b. v * 256 + b) 0 bs"

fun be_words :: "nat list \<Rightarrow> 32 word list" where
  "be_words (a # b # c # d # r) = word_of_nat (be_value [a, b, c, d]) # be_words r"
| "be_words _ = []"

definition sha256_padding :: "nat list \<Rightarrow> nat list" where
  "sha256_padding bs =
     bs @ [128] @ replicate ((119 - length bs mod 64) mod 64) 0 @ be_bytes 8 (8 * length bs)"

fun sha256_blocks :: "nat \<Rightarrow> sha256_state \<Rightarrow> 32 word list \<Rightarrow> sha256_state" where
  "sha256_blocks 0 st ws = st"
| "sha256_blocks (Suc k) st ws = sha256_blocks k (sha256_block st (take 16 ws)) (drop 16 ws)"

definition hex_digit :: "nat \<Rightarrow> nat" where
  "hex_digit d = (if d < 10 then 48 + d else 87 + d)"

definition hex_word :: "32 word \<Rightarrow> pystr" where
  "hex_word w = concat (map (\<lambda>b. [hex_digit (b div 16), hex_digit (b mod 16)]) (be_bytes 4 (unat w)))"

definition sha256_hexdigest :: "nat list \<Rightarrow> pystr" where
  "sha256_hexdigest bs =
     (let ws = be_words (sha256_padding bs) in
      case sha256_blocks (length ws div 16) sha256_initial ws of
        (a, b, c, d, e, f, g, h) \<Rightarrow>
          hex_word a @ hex_word b @ hex_word c @ hex_word d @ hex_word e @ hex_word f @ hex_word g @ hex_word h)"

definition bound_invalid_output_audit :: "pystr \<Rightarrow> error + (pystr \<times> int \<times> pystr)" where
  "bound_invalid_output_audit raw_model_output =
     bindE (utf8_encode raw_model_output) (\<lambda>raw_bytes.
     bindE (truncate_utf8_bytes raw_bytes INVALID_OUTPUT_PREVIEW_MAX_BYTES) (\<lambda>preview.
       Inr (preview, int (length raw_bytes), sha256_hexdigest raw_bytes)))"


lemma be_bytes_4: "be_bytes 4 n = [n div 256 div 256 div 256 mod 256, n div 256 div 256 mod 256,
    n div 256 mod 256, n mod 256]"
proof -
  have "(4::nat) = Suc (Suc (Suc (Suc 0)))" by simp
  then show ?thesis by (simp only: be_bytes.simps append.simps)
qed

lemma length_hex_word: "length (hex_word w) = 8"
  by (simp add: hex_word_def be_bytes_4)

lemma length_sha256_hexdigest: "length (sha256_hexdigest bs) = 64"
  unfolding sha256_hexdigest_def Let_def by (simp add: length_hex_word split: prod.split)

text \<open>What is kept of an unparseable output: a prefix of bounded size, the size and the digest.\<close>

lemma bound_invalid_output_audit_bounds:
  assumes "utf8_encode raw = Inr bs"
  shows "\<exists>k digest. bound_invalid_output_audit raw = Inr (take k raw, int (length bs), digest) \<and>
    length digest = 64 \<and> (\<exists>e. utf8_encode (take k raw) = Inr e \<and> length e \<le> 4096)"
proof -
  obtain k where "truncate_utf8_bytes bs INVALID_OUTPUT_PREVIEW_MAX_BYTES = Inr (take k raw)"
    and "\<exists>e. utf8_encode (take k raw) = Inr e \<and> length e \<le> INVALID_OUTPUT_PREVIEW_MAX_BYTES"
    using truncate_longest_prefix' [OF assms] by blast
  with assms show ?thesis
    by (intro exI [of _ k] exI [of _ "sha256_hexdigest bs"])
      (simp add: bound_invalid_output_audit_def INVALID_OUTPUT_PREVIEW_MAX_BYTES_def length_sha256_hexdigest)
qed

section \<open>Frames\<close>

lemma length_be_bytes [simp]: "length (be_bytes k n) = k"
  by (induction k arbitrary: n) simp_all

lemma be_value_snoc: "be_value (bs @ [b]) = be_value bs * 256 + b"
  by (simp add: be_value_def)

lemma be_value_bytes: "n < 256 ^ k \<Longrightarrow> be_value (be_bytes k n) = n"
proof (induction k arbitrary: n)
  case 0
  then show ?case by (simp add: be_value_def)
next
  case (Suc k)
  then have "n div 256 < 256 ^ k" by (simp add: less_mult_imp_div_less mult.commute)
  with Suc.IH show ?case by (simp add: be_value_snoc)
qed

text \<open>\<open>len(payload).to_bytes(4, "big")\<close> raises when the length needs more than four bytes.\<close>

definition frame_message :: "nat list \<Rightarrow> error + nat list" where
  "frame_message payload =
     (if length payload < 256 ^ 4 then Inr (be_bytes 4 (length payload) @ payload) else Inl OverflowError)"

definition read_framed_message :: "nat list \<Rightarrow> error + nat list" where
  "read_framed_message payload =
     (if length payload < 4
      then Inl (ModelGatewayProtocolError (lit ''model worker returned an incomplete protocol frame''))
      else let len = be_value (take 4 payload); body = drop 4 payload in
        if length body \<noteq> len
        then Inl (ModelGatewayProtocolError (lit ''model worker returned a truncated protocol frame ('' @
               nat_str (length body) @ lit '' bytes, expected '' @ nat_str len @ lit '')''))
        else Inr body)"

text \<open>\<open>stream.read(n)\<close>: at most \<open>n\<close> bytes of what has arrived; nothing is the end of the stream.\<close>

definition stream_read :: "nat list list \<Rightarrow> nat \<Rightarrow> nat list \<times> nat list list" where
  "stream_read stream n =
     (case stream of
        [] \<Rightarrow> ([], [])
      | c # r \<Rightarrow> if length c \<le> n then (c, r) else (take n c, drop n c # r))"

lemma length_stream_read: "length (fst (stream_read stream n)) \<le> n"
  by (simp add: stream_read_def split: list.split)

function read_exact :: "nat list list \<Rightarrow> nat \<Rightarrow> error + (nat list \<times> nat list list)" where
  "read_exact stream remaining =
     (if remaining = 0 then Inr ([], stream)
      else let chunk = fst (stream_read stream remaining); stream' = snd (stream_read stream remaining) in
        if chunk = []
        then Inl (ProtocolViolationError (lit ''worker protocol stream closed before message completed''))
        else bindE (read_exact stream' (remaining - length chunk)) (\<lambda>(rest, stream'').
          Inr (chunk @ rest, stream'')))"
  by pat_completeness auto
termination by (relation "measure snd") auto

declare read_exact.simps [simp del]

definition read_message :: "nat list list \<Rightarrow> nat \<Rightarrow> error + (nat list \<times> nat list list)" where
  "read_message stream max_bytes =
     bindE (read_exact stream 4) (\<lambda>(header, stream').
       let len = be_value header in
       if len > max_bytes
       then Inl (ProtocolViolationError (lit ''request exceeds configured byte limit ('' @ nat_str len @
              lit '' > '' @ nat_str max_bytes @ lit '')''))
       else read_exact stream' len)"

definition write_message :: "nat list \<Rightarrow> nat \<Rightarrow> error + nat list" where
  "write_message payload max_bytes =
     (if length payload > max_bytes
      then Inl (ProtocolViolationError (lit ''response exceeds configured byte limit ('' @
             nat_str (length payload) @ lit '' > '' @ nat_str max_bytes @ lit '')''))
      else frame_message payload)"

lemma read_exact_chunks:
  "concat stream = a @ b \<Longrightarrow> [] \<notin> set stream \<Longrightarrow>
   \<exists>stream'. read_exact stream (length a) = Inr (a, stream') \<and> concat stream' = b \<and> [] \<notin> set stream'"
proof (induction stream arbitrary: a)
  case Nil
  then show ?case by (simp add: read_exact.simps)
next
  case (Cons c stream)
  show ?case
  proof (cases "a = []")
    case True
    with Cons.prems show ?thesis by (simp add: read_exact.simps)
  next
    case False
    show ?thesis
    proof (cases "length c \<le> length a")
      case True
      then obtain a' where a: "a = c @ a'" using Cons.prems(1) by (auto simp: append_eq_append_conv2)
      then obtain stream' where "read_exact stream (length a') = Inr (a', stream')" "concat stream' = b"
        "[] \<notin> set stream'"
        using Cons.IH [of a'] Cons.prems by auto
      with False True a Cons.prems(2) show ?thesis
        by (subst read_exact.simps) (auto simp: stream_read_def)
    next
      case longer: False
      then obtain c' where c: "c = a @ c'" "c' \<noteq> []" using Cons.prems(1) by (auto simp: append_eq_append_conv2)
      then have "read_exact (c # stream) (length a) = Inr (a, c' # stream)"
        using False by (subst read_exact.simps) (simp add: stream_read_def read_exact.simps [of _ 0] Let_def)
      with c Cons.prems show ?thesis by auto
    qed
  qed
qed

lemma frame_parts:
  assumes "frame_message payload = Inr frame"
  shows "frame = be_bytes 4 (length payload) @ payload" and "length payload < 256 ^ 4"
    and "be_value (be_bytes 4 (length payload)) = length payload"
proof -
  show "frame = be_bytes 4 (length payload) @ payload" and len: "length payload < 256 ^ 4"
    using assms by (auto simp: frame_message_def split: if_splits)
  show "be_value (be_bytes 4 (length payload)) = length payload" by (rule be_value_bytes [OF len])
qed

lemma read_message_frame:
  assumes "frame_message payload = Inr frame" and "concat stream = frame @ rest" and "[] \<notin> set stream"
  shows "if length payload \<le> max_bytes
    then \<exists>stream'. read_message stream max_bytes = Inr (payload, stream') \<and> concat stream' = rest
    else \<exists>msg. read_message stream max_bytes = Inl (ProtocolViolationError msg)"
proof -
  note frame = frame_parts [OF assms(1)]
  obtain stream1 where s1: "read_exact stream 4 = Inr (be_bytes 4 (length payload), stream1)"
    "concat stream1 = payload @ rest" "[] \<notin> set stream1"
    using read_exact_chunks [of stream "be_bytes 4 (length payload)" "payload @ rest"] assms(2,3) frame(1) by auto
  obtain stream2 where "read_exact stream1 (length payload) = Inr (payload, stream2)" "concat stream2 = rest"
    using read_exact_chunks [OF s1(2,3)] by auto
  with s1(1) show ?thesis by (simp add: read_message_def frame(3) Let_def)
qed

lemma read_framed_message_frame:
  assumes "frame_message payload = Inr frame"
  shows "read_framed_message frame = Inr payload"
proof -
  note frame = frame_parts [OF assms]
  have "take 4 frame = be_bytes 4 (length payload)" "drop 4 frame = payload"
    by (simp_all only: frame(1)) (simp_all del: be_bytes.simps)
  then show ?thesis using frame by (simp add: read_framed_message_def Let_def)
qed

text \<open>C36: the framing protocol.  However the bytes of a frame arrive in chunks, the worker reads
  back exactly the payload that was framed and leaves what follows it in the stream; a payload
  the worker writes within its limit is what the gateway reads; and a frame over the reader's
  limit is refused before its payload is read.\<close>

theorem frame_roundtrip:
  assumes "frame_message payload = Inr frame"
  shows "(concat stream = frame @ rest \<and> [] \<notin> set stream \<longrightarrow>
      (if length payload \<le> max_bytes
       then \<exists>stream'. read_message stream max_bytes = Inr (payload, stream') \<and> concat stream' = rest
       else \<exists>msg. read_message stream max_bytes = Inl (ProtocolViolationError msg))) \<and>
    (length payload \<le> max_bytes \<longrightarrow>
      write_message payload max_bytes = Inr frame \<and> read_framed_message frame = Inr payload)"
  using read_message_frame [OF assms, of stream rest max_bytes] read_framed_message_frame [OF assms] assms
  by (simp add: write_message_def)

theorem frame_roundtrip_witness:
  "\<exists>stream'. read_message [[0, 0], [0, 2, 7], [8, 9]] 10 = Inr ([7, 8], stream') \<and> concat stream' = [9]"
  using frame_roundtrip [of "[7, 8]" "[0, 0, 0, 2, 7, 8]" "[[0, 0], [0, 2, 7], [8, 9]]" "[9]" 10]
  by (simp add: frame_message_def be_bytes_4)

end
