(* ===== verification/Events.thy ===== *)
theory Events
  imports Config
begin

text \<open>
  Event payloads (\<open>domain/payloads.py\<close>) and the construction of canonical events
  (\<open>domain/events.py\<close>).

  A payload object is a value of \<open>payload\<close>, one constructor per Pydantic class.  Its dictionary
  form, which is what an event row stores, is an association list from field names to \<open>pval\<close>;
  \<open>model_dump\<close> writes it and \<open>model_validate\<close> reads it back, refusing unknown fields
  (\<open>extra="forbid"\<close>), missing fields, wrongly typed fields and non-finite decimals.  Members of
  a \<open>StrEnum\<close> are strings, in Python as here, so enumeration fields are stored as their values.
\<close>

section \<open>Payload schemas\<close>

datatype payload =
    CaseOpenedPayload pystr                                 \<comment> \<open>opening_message_id\<close>
  | EmailReceivedPayload pystr pystr pystr                  \<comment> \<open>message_id, subject, body\<close>
  | OrdersListedPayload "pystr list"                        \<comment> \<open>order_ids\<close>
  | OrderLinkedPayload pystr                                \<comment> \<open>order_id\<close>
  | VerificationRequestedPayload pystr datetime             \<comment> \<open>token, expires_at\<close>
  | CustomerVerifiedPayload verification_method             \<comment> \<open>method\<close>
  | RefundProposedPayload pystr decimal                     \<comment> \<open>refund_id, amount\<close>
  | RefundAutoApprovedPayload pystr                         \<comment> \<open>refund_id\<close>
  | RefundApprovalRequiredPayload pystr decimal pystr       \<comment> \<open>refund_id, amount, rule\<close>
  | RefundApprovedPayload pystr pystr                       \<comment> \<open>refund_id, operator_id\<close>
  | RefundRejectedPayload pystr pystr pystr                 \<comment> \<open>refund_id, operator_id, reason\<close>
  | RefundExpiredPayload pystr                              \<comment> \<open>refund_id\<close>
  | RefundExecutedPayload pystr decimal pystr               \<comment> \<open>refund_id, amount, provider_ref\<close>
  | ReplySentPayload pystr pystr                            \<comment> \<open>subject, body\<close>
  | EscalatedPayload pystr escalation_origin pystr          \<comment> \<open>reason, origin, ticket_id\<close>
  | ActionDeniedPayload pystr pystr pystr pystr             \<comment> \<open>action, rule, agent_reason, customer_reason\<close>
  | InvalidOutputPayload pystr int pystr pystr              \<comment> \<open>preview, byte_count, sha256, error\<close>
  | CaseClosedPayload case_outcome "pystr option"           \<comment> \<open>outcome, summary\<close>

datatype pval = VStr pystr | VStrs "pystr list" | VInt int | VDecimal decimal | VTime datetime | VNone

type_synonym pdict = "(string \<times> pval) list"

definition opt_val :: "pystr option \<Rightarrow> pval" where
  "opt_val s = (case s of None \<Rightarrow> VNone | Some t \<Rightarrow> VStr t)"

fun model_dump :: "payload \<Rightarrow> pdict" where
  "model_dump (CaseOpenedPayload m) = [(''opening_message_id'', VStr m)]"
| "model_dump (EmailReceivedPayload m s b) =
     [(''message_id'', VStr m), (''subject'', VStr s), (''body'', VStr b)]"
| "model_dump (OrdersListedPayload ids) = [(''order_ids'', VStrs ids)]"
| "model_dump (OrderLinkedPayload oid) = [(''order_id'', VStr oid)]"
| "model_dump (VerificationRequestedPayload tok ex) =
     [(''token'', VStr tok), (''expires_at'', VTime ex)]"
| "model_dump (CustomerVerifiedPayload m) = [(''method'', VStr (verification_method_value m))]"
| "model_dump (RefundProposedPayload rid amt) =
     [(''refund_id'', VStr rid), (''amount'', VDecimal amt)]"
| "model_dump (RefundAutoApprovedPayload rid) = [(''refund_id'', VStr rid)]"
| "model_dump (RefundApprovalRequiredPayload rid amt rule) =
     [(''refund_id'', VStr rid), (''amount'', VDecimal amt), (''rule'', VStr rule)]"
| "model_dump (RefundApprovedPayload rid op) =
     [(''refund_id'', VStr rid), (''operator_id'', VStr op)]"
| "model_dump (RefundRejectedPayload rid op why) =
     [(''refund_id'', VStr rid), (''operator_id'', VStr op), (''reason'', VStr why)]"
| "model_dump (RefundExpiredPayload rid) = [(''refund_id'', VStr rid)]"
| "model_dump (RefundExecutedPayload rid amt ref) =
     [(''refund_id'', VStr rid), (''amount'', VDecimal amt), (''provider_ref'', VStr ref)]"
| "model_dump (ReplySentPayload s b) = [(''subject'', VStr s), (''body'', VStr b)]"
| "model_dump (EscalatedPayload why origin tkt) =
     [(''reason'', VStr why), (''origin'', VStr (escalation_origin_value origin)),
      (''ticket_id'', VStr tkt)]"
| "model_dump (ActionDeniedPayload act rule agent_why customer_why) =
     [(''action'', VStr act), (''rule'', VStr rule), (''agent_reason'', VStr agent_why),
      (''customer_reason'', VStr customer_why)]"
| "model_dump (InvalidOutputPayload preview n sha err) =
     [(''preview'', VStr preview), (''byte_count'', VInt n), (''sha256'', VStr sha),
      (''error'', VStr err)]"
| "model_dump (CaseClosedPayload outcome summary) =
     [(''outcome'', VStr (case_outcome_value outcome)), (''summary'', opt_val summary)]"

section \<open>Reading a dictionary\<close>

definition str_field :: "pdict \<Rightarrow> string \<Rightarrow> error + pystr" where
  "str_field d k = (case map_of d k of Some (VStr s) \<Rightarrow> Inr s | _ \<Rightarrow> Inl ValidationError)"

definition strs_field :: "pdict \<Rightarrow> string \<Rightarrow> error + pystr list" where
  "strs_field d k = (case map_of d k of Some (VStrs s) \<Rightarrow> Inr s | _ \<Rightarrow> Inl ValidationError)"

definition int_field :: "pdict \<Rightarrow> string \<Rightarrow> error + int" where
  "int_field d k = (case map_of d k of Some (VInt n) \<Rightarrow> Inr n | _ \<Rightarrow> Inl ValidationError)"

definition time_field :: "pdict \<Rightarrow> string \<Rightarrow> error + datetime" where
  "time_field d k = (case map_of d k of Some (VTime t) \<Rightarrow> Inr t | _ \<Rightarrow> Inl ValidationError)"

definition decimal_field :: "pdict \<Rightarrow> string \<Rightarrow> error + decimal" where
  "decimal_field d k =
     (case map_of d k of
        Some (VDecimal a) \<Rightarrow> (if dec_is_finite a then Inr a else Inl ValidationError)
      | _ \<Rightarrow> Inl ValidationError)"

definition opt_str_field :: "pdict \<Rightarrow> string \<Rightarrow> error + pystr option" where
  "opt_str_field d k =
     (case map_of d k of
        Some VNone \<Rightarrow> Inr None | Some (VStr s) \<Rightarrow> Inr (Some s) | _ \<Rightarrow> Inl ValidationError)"

definition enum_field :: "('a \<Rightarrow> pystr) \<Rightarrow> 'a list \<Rightarrow> pdict \<Rightarrow> string \<Rightarrow> error + 'a" where
  "enum_field val members d k =
     bindE (str_field d k) (\<lambda>s.
       case find (\<lambda>m. val m = s) members of Some m \<Rightarrow> Inr m | None \<Rightarrow> Inl ValidationError)"

definition only_fields :: "string list \<Rightarrow> pdict \<Rightarrow> error + payload \<Rightarrow> error + payload" where
  "only_fields ks d r = (if list_all (\<lambda>(k, _). k \<in> set ks) d then r else Inl ValidationError)"

abbreviation method_field :: "pdict \<Rightarrow> string \<Rightarrow> error + verification_method" where
  "method_field \<equiv> enum_field verification_method_value [VM_SEED, VM_TOKEN]"

abbreviation origin_field :: "pdict \<Rightarrow> string \<Rightarrow> error + escalation_origin" where
  "origin_field \<equiv> enum_field escalation_origin_value
     [EO_AGENT, EO_POLICY, EO_STEP_LIMIT, EO_PARSE_LIMIT, EO_MODEL_FAILURE]"

abbreviation outcome_field :: "pdict \<Rightarrow> string \<Rightarrow> error + case_outcome" where
  "outcome_field \<equiv> enum_field case_outcome_value
     [CO_FINISHED, CO_ESCALATED, CO_STEP_LIMIT, CO_PARSE_LIMIT, CO_MODEL_FAILURE]"

text \<open>The payload classes, as values: \<open>PAYLOAD_MODEL_BY_EVENT_TYPE\<close> maps an event type to one.\<close>

datatype payload_model =
    M_CaseOpened | M_EmailReceived | M_OrdersListed | M_OrderLinked | M_VerificationRequested
  | M_CustomerVerified | M_RefundProposed | M_RefundAutoApproved | M_RefundApprovalRequired
  | M_RefundApproved | M_RefundRejected | M_RefundExpired | M_RefundExecuted | M_ReplySent
  | M_Escalated | M_ActionDenied | M_InvalidOutput | M_CaseClosed

fun payload_model_for_event_type :: "event_type \<Rightarrow> payload_model" where
  "payload_model_for_event_type ET_CASE_OPENED = M_CaseOpened"
| "payload_model_for_event_type ET_EMAIL_RECEIVED = M_EmailReceived"
| "payload_model_for_event_type ET_ORDERS_LISTED = M_OrdersListed"
| "payload_model_for_event_type ET_ORDER_LINKED = M_OrderLinked"
| "payload_model_for_event_type ET_VERIFICATION_REQUESTED = M_VerificationRequested"
| "payload_model_for_event_type ET_CUSTOMER_VERIFIED = M_CustomerVerified"
| "payload_model_for_event_type ET_REFUND_PROPOSED = M_RefundProposed"
| "payload_model_for_event_type ET_REFUND_AUTO_APPROVED = M_RefundAutoApproved"
| "payload_model_for_event_type ET_REFUND_APPROVAL_REQUIRED = M_RefundApprovalRequired"
| "payload_model_for_event_type ET_REFUND_APPROVED = M_RefundApproved"
| "payload_model_for_event_type ET_REFUND_REJECTED = M_RefundRejected"
| "payload_model_for_event_type ET_REFUND_EXPIRED = M_RefundExpired"
| "payload_model_for_event_type ET_REFUND_EXECUTED = M_RefundExecuted"
| "payload_model_for_event_type ET_REPLY_SENT = M_ReplySent"
| "payload_model_for_event_type ET_ESCALATED = M_Escalated"
| "payload_model_for_event_type ET_ACTION_DENIED = M_ActionDenied"
| "payload_model_for_event_type ET_INVALID_OUTPUT = M_InvalidOutput"
| "payload_model_for_event_type ET_CASE_CLOSED = M_CaseClosed"

fun model_validate :: "payload_model \<Rightarrow> pdict \<Rightarrow> error + payload" where
  "model_validate M_CaseOpened d = only_fields [''opening_message_id''] d
     (bindE (str_field d ''opening_message_id'') (\<lambda>m. Inr (CaseOpenedPayload m)))"
| "model_validate M_EmailReceived d = only_fields [''message_id'', ''subject'', ''body''] d
     (bindE (str_field d ''message_id'') (\<lambda>m.
      bindE (str_field d ''subject'') (\<lambda>s.
      bindE (str_field d ''body'') (\<lambda>b. Inr (EmailReceivedPayload m s b)))))"
| "model_validate M_OrdersListed d = only_fields [''order_ids''] d
     (bindE (strs_field d ''order_ids'') (\<lambda>ids. Inr (OrdersListedPayload ids)))"
| "model_validate M_OrderLinked d = only_fields [''order_id''] d
     (bindE (str_field d ''order_id'') (\<lambda>oid. Inr (OrderLinkedPayload oid)))"
| "model_validate M_VerificationRequested d = only_fields [''token'', ''expires_at''] d
     (bindE (str_field d ''token'') (\<lambda>tok.
      bindE (time_field d ''expires_at'') (\<lambda>ex. Inr (VerificationRequestedPayload tok ex))))"
| "model_validate M_CustomerVerified d = only_fields [''method''] d
     (bindE (method_field d ''method'') (\<lambda>m. Inr (CustomerVerifiedPayload m)))"
| "model_validate M_RefundProposed d = only_fields [''refund_id'', ''amount''] d
     (bindE (str_field d ''refund_id'') (\<lambda>rid.
      bindE (decimal_field d ''amount'') (\<lambda>amt. Inr (RefundProposedPayload rid amt))))"
| "model_validate M_RefundAutoApproved d = only_fields [''refund_id''] d
     (bindE (str_field d ''refund_id'') (\<lambda>rid. Inr (RefundAutoApprovedPayload rid)))"
| "model_validate M_RefundApprovalRequired d = only_fields [''refund_id'', ''amount'', ''rule''] d
     (bindE (str_field d ''refund_id'') (\<lambda>rid.
      bindE (decimal_field d ''amount'') (\<lambda>amt.
      bindE (str_field d ''rule'') (\<lambda>rule. Inr (RefundApprovalRequiredPayload rid amt rule)))))"
| "model_validate M_RefundApproved d = only_fields [''refund_id'', ''operator_id''] d
     (bindE (str_field d ''refund_id'') (\<lambda>rid.
      bindE (str_field d ''operator_id'') (\<lambda>op. Inr (RefundApprovedPayload rid op))))"
| "model_validate M_RefundRejected d = only_fields [''refund_id'', ''operator_id'', ''reason''] d
     (bindE (str_field d ''refund_id'') (\<lambda>rid.
      bindE (str_field d ''operator_id'') (\<lambda>op.
      bindE (str_field d ''reason'') (\<lambda>why. Inr (RefundRejectedPayload rid op why)))))"
| "model_validate M_RefundExpired d = only_fields [''refund_id''] d
     (bindE (str_field d ''refund_id'') (\<lambda>rid. Inr (RefundExpiredPayload rid)))"
| "model_validate M_RefundExecuted d = only_fields [''refund_id'', ''amount'', ''provider_ref''] d
     (bindE (str_field d ''refund_id'') (\<lambda>rid.
      bindE (decimal_field d ''amount'') (\<lambda>amt.
      bindE (str_field d ''provider_ref'') (\<lambda>ref. Inr (RefundExecutedPayload rid amt ref)))))"
| "model_validate M_ReplySent d = only_fields [''subject'', ''body''] d
     (bindE (str_field d ''subject'') (\<lambda>s.
      bindE (str_field d ''body'') (\<lambda>b. Inr (ReplySentPayload s b))))"
| "model_validate M_Escalated d = only_fields [''reason'', ''origin'', ''ticket_id''] d
     (bindE (str_field d ''reason'') (\<lambda>why.
      bindE (origin_field d ''origin'') (\<lambda>origin.
      bindE (str_field d ''ticket_id'') (\<lambda>tkt. Inr (EscalatedPayload why origin tkt)))))"
| "model_validate M_ActionDenied d =
     only_fields [''action'', ''rule'', ''agent_reason'', ''customer_reason''] d
     (bindE (str_field d ''action'') (\<lambda>act.
      bindE (str_field d ''rule'') (\<lambda>rule.
      bindE (str_field d ''agent_reason'') (\<lambda>aw.
      bindE (str_field d ''customer_reason'') (\<lambda>cw. Inr (ActionDeniedPayload act rule aw cw))))))"
| "model_validate M_InvalidOutput d =
     only_fields [''preview'', ''byte_count'', ''sha256'', ''error''] d
     (bindE (str_field d ''preview'') (\<lambda>p.
      bindE (int_field d ''byte_count'') (\<lambda>n.
      bindE (str_field d ''sha256'') (\<lambda>sha.
      bindE (str_field d ''error'') (\<lambda>err. Inr (InvalidOutputPayload p n sha err))))))"
| "model_validate M_CaseClosed d = only_fields [''outcome'', ''summary''] d
     (bindE (outcome_field d ''outcome'') (\<lambda>outcome.
      bindE (opt_str_field d ''summary'') (\<lambda>summary. Inr (CaseClosedPayload outcome summary))))"

definition validate_payload :: "event_type \<Rightarrow> pdict \<Rightarrow> error + payload" where
  "validate_payload et d = model_validate (payload_model_for_event_type et) d"

section \<open>Scope, actor and channel\<close>

definition CASE_SCOPED_EVENT_TYPES :: "event_type set" where
  "CASE_SCOPED_EVENT_TYPES =
     {ET_CASE_OPENED, ET_EMAIL_RECEIVED, ET_ORDERS_LISTED, ET_VERIFICATION_REQUESTED,
      ET_REPLY_SENT, ET_ACTION_DENIED, ET_INVALID_OUTPUT, ET_ESCALATED, ET_CASE_CLOSED}"

definition CASE_AND_ORDER_SCOPED_EVENT_TYPES :: "event_type set" where
  "CASE_AND_ORDER_SCOPED_EVENT_TYPES =
     {ET_ORDER_LINKED, ET_REFUND_PROPOSED, ET_REFUND_AUTO_APPROVED, ET_REFUND_APPROVAL_REQUIRED,
      ET_REFUND_APPROVED, ET_REFUND_REJECTED, ET_REFUND_EXPIRED, ET_REFUND_EXECUTED}"

definition CUSTOMER_SCOPED_EVENT_TYPES :: "event_type set" where
  "CUSTOMER_SCOPED_EVENT_TYPES = {ET_CUSTOMER_VERIFIED}"

fun FIXED_ACTOR_CHANNEL :: "event_type \<Rightarrow> (actor \<times> channel) option" where
  "FIXED_ACTOR_CHANNEL ET_CASE_OPENED = Some (Actor_SYSTEM, Channel_INTERNAL)"
| "FIXED_ACTOR_CHANNEL ET_EMAIL_RECEIVED = Some (Actor_CUSTOMER, Channel_EMAIL)"
| "FIXED_ACTOR_CHANNEL ET_ORDERS_LISTED = Some (Actor_AGENT, Channel_INTERNAL)"
| "FIXED_ACTOR_CHANNEL ET_ORDER_LINKED = Some (Actor_AGENT, Channel_INTERNAL)"
| "FIXED_ACTOR_CHANNEL ET_VERIFICATION_REQUESTED = Some (Actor_AGENT, Channel_INTERNAL)"
| "FIXED_ACTOR_CHANNEL ET_REFUND_PROPOSED = Some (Actor_AGENT, Channel_INTERNAL)"
| "FIXED_ACTOR_CHANNEL ET_REFUND_AUTO_APPROVED = Some (Actor_SYSTEM, Channel_INTERNAL)"
| "FIXED_ACTOR_CHANNEL ET_REFUND_APPROVAL_REQUIRED = Some (Actor_SYSTEM, Channel_INTERNAL)"
| "FIXED_ACTOR_CHANNEL ET_REFUND_APPROVED = Some (Actor_OPERATOR, Channel_OPERATOR_API)"
| "FIXED_ACTOR_CHANNEL ET_REFUND_REJECTED = Some (Actor_OPERATOR, Channel_OPERATOR_API)"
| "FIXED_ACTOR_CHANNEL ET_REFUND_EXPIRED = Some (Actor_SYSTEM, Channel_INTERNAL)"
| "FIXED_ACTOR_CHANNEL ET_REFUND_EXECUTED = Some (Actor_SYSTEM, Channel_INTERNAL)"
| "FIXED_ACTOR_CHANNEL ET_REPLY_SENT = Some (Actor_AGENT, Channel_INTERNAL)"
| "FIXED_ACTOR_CHANNEL ET_ACTION_DENIED = Some (Actor_SYSTEM, Channel_INTERNAL)"
| "FIXED_ACTOR_CHANNEL ET_INVALID_OUTPUT = Some (Actor_SYSTEM, Channel_INTERNAL)"
| "FIXED_ACTOR_CHANNEL ET_CASE_CLOSED = Some (Actor_SYSTEM, Channel_INTERNAL)"
| "FIXED_ACTOR_CHANNEL ET_CUSTOMER_VERIFIED = None"
| "FIXED_ACTOR_CHANNEL ET_ESCALATED = None"

definition expected_actor_channel :: "event_type \<Rightarrow> payload \<Rightarrow> error + (actor \<times> channel)" where
  "expected_actor_channel et p =
     (if et = ET_CUSTOMER_VERIFIED then
        bindE (model_validate M_CustomerVerified (model_dump p)) (\<lambda>q.
          case q of
            CustomerVerifiedPayload VM_SEED \<Rightarrow> Inr (Actor_SYSTEM, Channel_INTERNAL)
          | _ \<Rightarrow> Inr (Actor_SYSTEM, Channel_VERIFICATION_API))
      else if et = ET_ESCALATED then
        bindE (model_validate M_Escalated (model_dump p)) (\<lambda>q.
          case q of
            EscalatedPayload _ EO_AGENT _ \<Rightarrow> Inr (Actor_AGENT, Channel_INTERNAL)
          | _ \<Rightarrow> Inr (Actor_SYSTEM, Channel_INTERNAL))
      else (case FIXED_ACTOR_CHANNEL et of
              Some ac \<Rightarrow> Inr ac
            | None \<Rightarrow> Inl (KeyError (event_type_value et))))"

definition validate_event_scope :: "event_type \<Rightarrow> pystr option \<Rightarrow> pystr option \<Rightarrow> error + unit" where
  "validate_event_scope et case_id order_id =
     (if et \<in> CUSTOMER_SCOPED_EVENT_TYPES then
        (if case_id \<noteq> None \<or> order_id \<noteq> None
         then Inl (InvalidEventScopeError (event_type_value et @
                lit '' is customer-scoped and must not carry case_id or order_id''))
         else Inr ())
      else if et \<in> CASE_AND_ORDER_SCOPED_EVENT_TYPES then
        (if case_id = None \<or> order_id = None
         then Inl (InvalidEventScopeError (event_type_value et @
                lit '' requires both case_id and order_id''))
         else Inr ())
      else if et \<in> CASE_SCOPED_EVENT_TYPES then
        (if case_id = None
         then Inl (InvalidEventScopeError (event_type_value et @ lit '' requires case_id''))
         else if order_id \<noteq> None
         then Inl (InvalidEventScopeError (event_type_value et @
                lit '' is case-scoped and must not carry order_id''))
         else Inr ())
      else Inr ())"

section \<open>Canonical events\<close>

record canonical_event =
  ce_event_type :: event_type
  ce_customer_id :: pystr
  ce_case_id :: "pystr option"
  ce_order_id :: "pystr option"
  ce_actor :: actor
  ce_channel :: channel
  ce_payload :: payload

text \<open>An event type argument is a member or its name (\<open>EventType | str\<close>).\<close>

datatype event_type_arg = EvMember event_type | EvName pystr

definition parse_event_type :: "pystr \<Rightarrow> error + event_type" where
  "parse_event_type s =
     (case find (\<lambda>t. event_type_value t = s) event_types of
        Some t \<Rightarrow> Inr t
      | None \<Rightarrow> Inl (UnknownEventTypeError (lit ''Unknown event type: '' @ s)))"

definition build_canonical_event ::
  "event_type_arg \<Rightarrow> pystr \<Rightarrow> pystr option \<Rightarrow> pystr option \<Rightarrow> actor \<Rightarrow> channel \<Rightarrow> pdict
     \<Rightarrow> error + canonical_event" where
  "build_canonical_event eta customer_id case_id order_id actor channel payload =
     bindE (case eta of EvMember t \<Rightarrow> Inr t | EvName s \<Rightarrow> parse_event_type s) (\<lambda>et.
     bindE (validate_payload et payload) (\<lambda>validated.
     bindE (validate_event_scope et case_id order_id) (\<lambda>_.
     bindE (expected_actor_channel et validated) (\<lambda>(expected_actor, expected_channel).
       if actor \<noteq> expected_actor \<or> channel \<noteq> expected_channel
       then Inl (InvalidActorChannelError et expected_actor expected_channel actor channel)
       else Inr \<lparr>ce_event_type = et, ce_customer_id = customer_id, ce_case_id = case_id,
                 ce_order_id = order_id, ce_actor = actor, ce_channel = channel,
                 ce_payload = validated\<rparr>))))"

definition payload_as_dict :: "canonical_event \<Rightarrow> pdict" where
  "payload_as_dict ce = model_dump (ce_payload ce)"

section \<open>Dump and validate\<close>

fun payload_class :: "payload \<Rightarrow> payload_model" where
  "payload_class (CaseOpenedPayload _) = M_CaseOpened"
| "payload_class (EmailReceivedPayload _ _ _) = M_EmailReceived"
| "payload_class (OrdersListedPayload _) = M_OrdersListed"
| "payload_class (OrderLinkedPayload _) = M_OrderLinked"
| "payload_class (VerificationRequestedPayload _ _) = M_VerificationRequested"
| "payload_class (CustomerVerifiedPayload _) = M_CustomerVerified"
| "payload_class (RefundProposedPayload _ _) = M_RefundProposed"
| "payload_class (RefundAutoApprovedPayload _) = M_RefundAutoApproved"
| "payload_class (RefundApprovalRequiredPayload _ _ _) = M_RefundApprovalRequired"
| "payload_class (RefundApprovedPayload _ _) = M_RefundApproved"
| "payload_class (RefundRejectedPayload _ _ _) = M_RefundRejected"
| "payload_class (RefundExpiredPayload _) = M_RefundExpired"
| "payload_class (RefundExecutedPayload _ _ _) = M_RefundExecuted"
| "payload_class (ReplySentPayload _ _) = M_ReplySent"
| "payload_class (EscalatedPayload _ _ _) = M_Escalated"
| "payload_class (ActionDeniedPayload _ _ _ _) = M_ActionDenied"
| "payload_class (InvalidOutputPayload _ _ _ _) = M_InvalidOutput"
| "payload_class (CaseClosedPayload _ _) = M_CaseClosed"

fun payload_finite :: "payload \<Rightarrow> bool" where
  "payload_finite (RefundProposedPayload _ amt) = dec_is_finite amt"
| "payload_finite (RefundApprovalRequiredPayload _ amt _) = dec_is_finite amt"
| "payload_finite (RefundExecutedPayload _ amt _) = dec_is_finite amt"
| "payload_finite _ = True"

lemmas field_defs =
  str_field_def strs_field_def int_field_def time_field_def decimal_field_def opt_str_field_def
  enum_field_def only_fields_def

text \<open>A well-formed payload survives being written to an event row and read back.\<close>

lemma model_validate_dump [simp]:
  "payload_finite p \<Longrightarrow> model_validate (payload_class p) (model_dump p) = Inr p"
proof (cases p)
  case (CustomerVerifiedPayload m)
  then show ?thesis by (cases m) (simp_all add: field_defs)
next
  case (EscalatedPayload why origin tkt)
  then show ?thesis by (cases origin) (simp_all add: field_defs)
next
  case (CaseClosedPayload outcome summary)
  then show ?thesis by (cases outcome; cases summary) (simp_all add: field_defs opt_val_def)
qed (simp_all add: field_defs)

lemma decimal_field_finite: "decimal_field d k = Inr a \<Longrightarrow> dec_is_finite a"
  by (auto simp: decimal_field_def split: option.splits pval.splits if_splits)

lemma model_validate_class:
  "model_validate M d = Inr p \<Longrightarrow> payload_class p = M \<and> payload_finite p"
  by (cases M) (auto simp: only_fields_def bindE_eq_Inr dest: decimal_field_finite split: if_splits)

lemma validate_payload_class:
  "validate_payload et d = Inr p \<Longrightarrow>
     payload_class p = payload_model_for_event_type et \<and> payload_finite p"
  unfolding validate_payload_def by (rule model_validate_class)

lemma validate_payload_dump:
  "payload_finite p \<Longrightarrow> payload_class p = payload_model_for_event_type et \<Longrightarrow>
     validate_payload et (model_dump p) = Inr p"
  unfolding validate_payload_def by (metis model_validate_dump)

text \<open>Reading a row's payload twice, as the projections do, changes nothing.\<close>

lemma validate_payload_idem:
  "validate_payload et d = Inr p \<Longrightarrow> validate_payload et (model_dump p) = Inr p"
  by (auto dest: validate_payload_class intro: validate_payload_dump)

lemma payload_model_for_event_type_inject [simp]:
  "payload_model_for_event_type a = payload_model_for_event_type b \<longleftrightarrow> a = b"
  by (cases a; cases b) simp_all

lemma event_type_value_inject [simp]: "event_type_value a = event_type_value b \<longleftrightarrow> a = b"
  by (cases a; cases b) simp_all

lemma parse_event_type_value [simp]: "parse_event_type (event_type_value t) = Inr t"
  unfolding parse_event_type_def event_types_def by (cases t) simp_all

lemma parse_event_type_Inr: "parse_event_type s = Inr t \<longleftrightarrow> s = event_type_value t"
proof
  assume "parse_event_type s = Inr t"
  then have "find (\<lambda>t. event_type_value t = s) event_types = Some t"
    by (simp add: parse_event_type_def split: option.splits)
  then show "s = event_type_value t" by (auto dest: find_Some_mem)
qed simp

section \<open>The catalogue\<close>

text \<open>
  The event catalogue as a table: the scope of each type, and the accountable actor and channel,
  which depend on the payload for the two types without a fixed pair.
\<close>

datatype event_scope = CaseScope | CaseAndOrderScope | CustomerScope

fun catalogue_scope :: "event_type \<Rightarrow> event_scope" where
  "catalogue_scope ET_CUSTOMER_VERIFIED = CustomerScope"
| "catalogue_scope ET_ORDER_LINKED = CaseAndOrderScope"
| "catalogue_scope ET_REFUND_PROPOSED = CaseAndOrderScope"
| "catalogue_scope ET_REFUND_AUTO_APPROVED = CaseAndOrderScope"
| "catalogue_scope ET_REFUND_APPROVAL_REQUIRED = CaseAndOrderScope"
| "catalogue_scope ET_REFUND_APPROVED = CaseAndOrderScope"
| "catalogue_scope ET_REFUND_REJECTED = CaseAndOrderScope"
| "catalogue_scope ET_REFUND_EXPIRED = CaseAndOrderScope"
| "catalogue_scope ET_REFUND_EXECUTED = CaseAndOrderScope"
| "catalogue_scope _ = CaseScope"

definition catalogue_scope_ok :: "event_type \<Rightarrow> pystr option \<Rightarrow> pystr option \<Rightarrow> bool" where
  "catalogue_scope_ok et c ord =
     (case catalogue_scope et of
        CustomerScope \<Rightarrow> c = None \<and> ord = None
      | CaseAndOrderScope \<Rightarrow> c \<noteq> None \<and> ord \<noteq> None
      | CaseScope \<Rightarrow> c \<noteq> None \<and> ord = None)"

fun catalogue_actor :: "payload \<Rightarrow> actor \<times> channel" where
  "catalogue_actor (EmailReceivedPayload _ _ _) = (Actor_CUSTOMER, Channel_EMAIL)"
| "catalogue_actor (OrdersListedPayload _) = (Actor_AGENT, Channel_INTERNAL)"
| "catalogue_actor (OrderLinkedPayload _) = (Actor_AGENT, Channel_INTERNAL)"
| "catalogue_actor (VerificationRequestedPayload _ _) = (Actor_AGENT, Channel_INTERNAL)"
| "catalogue_actor (RefundProposedPayload _ _) = (Actor_AGENT, Channel_INTERNAL)"
| "catalogue_actor (ReplySentPayload _ _) = (Actor_AGENT, Channel_INTERNAL)"
| "catalogue_actor (EscalatedPayload _ origin _) =
     (if origin = EO_AGENT then Actor_AGENT else Actor_SYSTEM, Channel_INTERNAL)"
| "catalogue_actor (CustomerVerifiedPayload m) =
     (Actor_SYSTEM, if m = VM_SEED then Channel_INTERNAL else Channel_VERIFICATION_API)"
| "catalogue_actor (RefundApprovedPayload _ _) = (Actor_OPERATOR, Channel_OPERATOR_API)"
| "catalogue_actor (RefundRejectedPayload _ _ _) = (Actor_OPERATOR, Channel_OPERATOR_API)"
| "catalogue_actor _ = (Actor_SYSTEM, Channel_INTERNAL)"

lemma validate_event_scope_iff [simp]:
  "validate_event_scope et c ord = Inr () \<longleftrightarrow> catalogue_scope_ok et c ord"
  by (cases et) (simp_all add: validate_event_scope_def catalogue_scope_ok_def
      CASE_SCOPED_EVENT_TYPES_def CASE_AND_ORDER_SCOPED_EVENT_TYPES_def
      CUSTOMER_SCOPED_EVENT_TYPES_def)

lemma expected_actor_channel_catalogue:
  assumes "payload_class p = payload_model_for_event_type et" and "payload_finite p"
  shows "expected_actor_channel et p = Inr (catalogue_actor p)"
proof -
  have dump: "model_validate (payload_class p) (model_dump p) = Inr p"
    using assms(2) by (rule model_validate_dump)
  show ?thesis
  proof (cases p)
    case (CustomerVerifiedPayload m)
    with assms dump show ?thesis
      by (cases et; cases m) (simp_all add: expected_actor_channel_def del: model_validate.simps)
  next
    case (EscalatedPayload why origin tkt)
    with assms dump show ?thesis
      by (cases et; cases origin) (simp_all add: expected_actor_channel_def del: model_validate.simps)
  qed (use assms in \<open>cases et; simp add: expected_actor_channel_def\<close>)+
qed

definition resolve_event_type :: "event_type_arg \<Rightarrow> event_type option" where
  "resolve_event_type eta =
     (case eta of EvMember t \<Rightarrow> Some t | EvName s \<Rightarrow> find (\<lambda>t. event_type_value t = s) event_types)"

text \<open>\<open>build_canonical_event\<close> accepts exactly what the catalogue allows.\<close>

lemma build_canonical_event_iff:
  "build_canonical_event eta cust c ord act ch d = Inr ce \<longleftrightarrow>
     (\<exists>et p. resolve_event_type eta = Some et \<and> validate_payload et d = Inr p \<and>
        catalogue_scope_ok et c ord \<and> (act, ch) = catalogue_actor p \<and>
        ce = \<lparr>ce_event_type = et, ce_customer_id = cust, ce_case_id = c, ce_order_id = ord,
              ce_actor = act, ce_channel = ch, ce_payload = p\<rparr>)"
proof -
  have expected: "expected_actor_channel et p = Inr (catalogue_actor p)"
    if "validate_payload et d = Inr p" for et p
    using validate_payload_class [OF that] by (intro expected_actor_channel_catalogue) simp_all
  have resolve: "(case eta of EvMember t \<Rightarrow> Inr t | EvName s \<Rightarrow> parse_event_type s) = Inr et \<longleftrightarrow>
        resolve_event_type eta = Some et" for et
    by (auto simp: resolve_event_type_def parse_event_type_def
        split: event_type_arg.splits option.splits)
  show ?thesis
    unfolding build_canonical_event_def bindE_eq_Inr resolve
    using expected by (fastforce simp: bindE_eq_Inr split: prod.splits if_splits)
qed

lemma build_member_iff:
  "build_canonical_event (EvMember et) cust c ord act ch d = Inr ce \<longleftrightarrow>
     (\<exists>p. validate_payload et d = Inr p \<and> catalogue_scope_ok et c ord \<and>
        (act, ch) = catalogue_actor p \<and>
        ce = \<lparr>ce_event_type = et, ce_customer_id = cust, ce_case_id = c, ce_order_id = ord,
              ce_actor = act, ce_channel = ch, ce_payload = p\<rparr>)"
  by (simp add: build_canonical_event_iff resolve_event_type_def)

end
