(* ===== verification/Projections.thy ===== *)
theory Projections
  imports Events "HOL-Library.Multiset"
begin

text \<open>
  The pure folds of \<open>projections/\<close>: customer, case and order summaries computed from seed rows
  and the customer's event stream.  A fold reads payloads through \<open>validate_payload\<close>, which
  raises on a malformed row, so the case and order projections return a sum.  All three are
  instances of one interface, \<open>event_fold\<close>: filter by scope, sort by sequence number, fold.
\<close>

section \<open>Events and seeds\<close>

text \<open>
  A stored event (\<open>repositories/events.py\<close>), which is also a row of the \<open>events\<close> table; the
  folds see it through the protocol \<open>FoldableEvent\<close>.  The table's \<open>type\<close> column holds
  \<open>EventType.value\<close>, and \<open>parse_event_type_value\<close> says that reading it back gives the member.
\<close>

record stored_event =
  ev_id :: pystr
  ev_customer_id :: pystr
  ev_case_id :: "pystr option"
  ev_order_id :: "pystr option"
  ev_seq :: int
  ev_event_type :: event_type
  ev_actor :: actor
  ev_channel :: channel
  ev_payload :: pdict
  ev_created_at :: datetime

record customer_seed =
  cseed_customer_id :: pystr
  cseed_email :: pystr

record order_seed =
  oseed_order_id :: pystr
  oseed_customer_id :: pystr
  oseed_total :: decimal

definition event_payload :: "stored_event \<Rightarrow> error + payload" where
  "event_payload e = validate_payload (ev_event_type e) (ev_payload e)"

section \<open>Customer\<close>

record customer_summary =
  cust_customer_id :: pystr
  cust_email :: pystr
  cust_verified :: bool

definition customer_scoped_events :: "pystr \<Rightarrow> stored_event list \<Rightarrow> stored_event list" where
  "customer_scoped_events customer_id events =
     filter (\<lambda>e. ev_customer_id e = customer_id \<and> ev_event_type e = ET_CUSTOMER_VERIFIED) events"

definition project_customer_summary ::
  "customer_seed \<Rightarrow> stored_event list \<Rightarrow> datetime \<Rightarrow> customer_summary" where
  "project_customer_summary seed events now =
     \<lparr>cust_customer_id = cseed_customer_id seed, cust_email = cseed_email seed,
      cust_verified = (customer_scoped_events (cseed_customer_id seed) events \<noteq> [])\<rparr>"

section \<open>Order\<close>

record order_summary =
  os_order_id :: pystr
  os_customer_id :: pystr
  os_total :: decimal
  os_refunded_total :: decimal
  os_has_open_refund :: bool

definition refundable_remainder :: "order_summary \<Rightarrow> error + decimal" where
  "refundable_remainder s = dec_sub (os_total s) (os_refunded_total s)"

definition order_scoped_events :: "pystr \<Rightarrow> pystr \<Rightarrow> stored_event list \<Rightarrow> stored_event list" where
  "order_scoped_events order_id customer_id events =
     filter (\<lambda>e. ev_order_id e = Some order_id \<and> ev_customer_id e = customer_id) events"

text \<open>One turn of the loop in \<open>project_order_summary\<close>: the running total and the open flag.\<close>

definition apply_order_event ::
  "decimal \<times> bool \<Rightarrow> stored_event \<Rightarrow> error + (decimal \<times> bool)" where
  "apply_order_event st e =
     (case st of (refunded_total, has_open_refund) \<Rightarrow>
        if ev_event_type e = ET_REFUND_PROPOSED then
          bindE (event_payload e) (\<lambda>_. Inr (refunded_total, True))
        else if ev_event_type e = ET_REFUND_EXECUTED then
          bindE (event_payload e) (\<lambda>p.
          bindE (model_validate M_RefundExecuted (model_dump p)) (\<lambda>q.
            case q of
              RefundExecutedPayload _ amount _ \<Rightarrow>
                bindE (dec_add refunded_total amount) (\<lambda>t. Inr (t, False))
            | _ \<Rightarrow> Inl ValidationError))
        else if ev_event_type e \<in> {ET_REFUND_REJECTED, ET_REFUND_EXPIRED} then
          Inr (refunded_total, False)
        else Inr (refunded_total, has_open_refund))"

definition project_order_summary ::
  "order_seed \<Rightarrow> stored_event list \<Rightarrow> datetime \<Rightarrow> error + order_summary" where
  "project_order_summary seed events now =
     bindE (foldE apply_order_event (Dec False 0 0, False)
              (sort_key ev_seq
                 (order_scoped_events (oseed_order_id seed) (oseed_customer_id seed) events)))
       (\<lambda>(refunded_total, has_open_refund).
          Inr \<lparr>os_order_id = oseed_order_id seed, os_customer_id = oseed_customer_id seed,
               os_total = oseed_total seed, os_refunded_total = refunded_total,
               os_has_open_refund = has_open_refund\<rparr>)"

section \<open>Case\<close>

definition REFUND_LIFECYCLE_EVENT_TYPES :: "event_type set" where
  "REFUND_LIFECYCLE_EVENT_TYPES =
     {ET_REFUND_PROPOSED, ET_REFUND_AUTO_APPROVED, ET_REFUND_APPROVAL_REQUIRED,
      ET_REFUND_APPROVED, ET_REFUND_REJECTED, ET_REFUND_EXPIRED, ET_REFUND_EXECUTED}"

definition AGENT_ATTEMPT_OUTCOME_TYPES :: "event_type set" where
  "AGENT_ATTEMPT_OUTCOME_TYPES =
     {ET_ORDERS_LISTED, ET_ORDER_LINKED, ET_VERIFICATION_REQUESTED, ET_REPLY_SENT,
      ET_REFUND_PROPOSED, ET_ACTION_DENIED, ET_INVALID_OUTPUT}"

definition SUCCESSFUL_PARSE_OUTCOME_TYPES :: "event_type set" where
  "SUCCESSFUL_PARSE_OUTCOME_TYPES =
     {ET_ORDERS_LISTED, ET_ORDER_LINKED, ET_VERIFICATION_REQUESTED, ET_REPLY_SENT,
      ET_REFUND_PROPOSED}"

definition AGENT_STEP_ESCALATION_ORIGINS :: "escalation_origin set" where
  "AGENT_STEP_ESCALATION_ORIGINS = {EO_AGENT, EO_POLICY}"

record case_summary =
  cs_case_id :: pystr
  cs_customer_id :: pystr
  cs_status :: case_status
  cs_linked_order_id :: "pystr option"
  cs_orders_listed :: bool
  cs_step_count :: nat
  cs_consecutive_denials :: nat
  cs_consecutive_invalid_outputs :: nat
  cs_last_refund_status :: "refund_status option"
  cs_reply_sent_after_last_refund :: bool

record case_fold_state =
  has_case_closed :: bool
  linked_order_id :: "pystr option"
  orders_listed :: bool
  step_count :: nat
  consecutive_denials :: nat
  consecutive_invalid_outputs :: nat
  pending_refund_id :: "pystr option"
  last_refund_status :: "refund_status option"
  last_refund_lifecycle_seq :: "int option"
  reply_sent_after_last_refund :: bool
  verification_token :: "pystr option"
  verification_expires_at :: "datetime option"
  customer_verified :: bool

definition initial_case_fold_state :: case_fold_state where
  "initial_case_fold_state =
     \<lparr>has_case_closed = False, linked_order_id = None, orders_listed = False, step_count = 0,
      consecutive_denials = 0, consecutive_invalid_outputs = 0, pending_refund_id = None,
      last_refund_status = None, last_refund_lifecycle_seq = None,
      reply_sent_after_last_refund = False, verification_token = None,
      verification_expires_at = None, customer_verified = False\<rparr>"

definition in_case_scope :: "pystr \<Rightarrow> pystr \<Rightarrow> stored_event \<Rightarrow> bool" where
  "in_case_scope case_id customer_id e \<longleftrightarrow>
     ev_customer_id e = customer_id \<and>
     (ev_case_id e = Some case_id \<or> ev_event_type e = ET_CUSTOMER_VERIFIED)"

definition case_fold_events :: "pystr \<Rightarrow> pystr \<Rightarrow> stored_event list \<Rightarrow> stored_event list" where
  "case_fold_events case_id customer_id events =
     sort_key ev_seq (filter (in_case_scope case_id customer_id) events)"

definition record_refund_lifecycle ::
  "case_fold_state \<Rightarrow> refund_status \<Rightarrow> int \<Rightarrow> case_fold_state" where
  "record_refund_lifecycle st status seq =
     st\<lparr>last_refund_status := Some status, last_refund_lifecycle_seq := Some seq,
        reply_sent_after_last_refund := False\<rparr>"

definition event_escalation_origin :: "stored_event \<Rightarrow> error + escalation_origin" where
  "event_escalation_origin e =
     bindE (event_payload e) (\<lambda>p.
     bindE (model_validate M_Escalated (model_dump p)) (\<lambda>q.
       case q of EscalatedPayload _ origin _ \<Rightarrow> Inr origin | _ \<Rightarrow> Inl ValidationError))"

definition case_closed_outcome :: "stored_event \<Rightarrow> error + case_outcome" where
  "case_closed_outcome e =
     bindE (event_payload e) (\<lambda>p.
     bindE (model_validate M_CaseClosed (model_dump p)) (\<lambda>q.
       case q of CaseClosedPayload outcome _ \<Rightarrow> Inr outcome | _ \<Rightarrow> Inl ValidationError))"

definition event_counts_as_agent_step :: "stored_event \<Rightarrow> error + bool" where
  "event_counts_as_agent_step e =
     (if ev_event_type e \<in> AGENT_ATTEMPT_OUTCOME_TYPES then Inr True
      else if ev_event_type e = ET_ESCALATED then
        bindE (event_escalation_origin e) (\<lambda>origin. Inr (origin \<in> AGENT_STEP_ESCALATION_ORIGINS))
      else if ev_event_type e = ET_CASE_CLOSED then
        bindE (case_closed_outcome e) (\<lambda>outcome. Inr (outcome = CO_FINISHED))
      else Inr False)"

definition event_is_successful_parse_outcome :: "stored_event \<Rightarrow> error + bool" where
  "event_is_successful_parse_outcome e =
     (if ev_event_type e \<in> SUCCESSFUL_PARSE_OUTCOME_TYPES then Inr True
      else if ev_event_type e = ET_ESCALATED then
        bindE (event_escalation_origin e) (\<lambda>origin. Inr (origin = EO_AGENT))
      else if ev_event_type e = ET_CASE_CLOSED then
        bindE (case_closed_outcome e) (\<lambda>outcome. Inr (outcome = CO_FINISHED))
      else Inr False)"

definition apply_agent_attempt_accounting ::
  "case_fold_state \<Rightarrow> stored_event \<Rightarrow> error + case_fold_state" where
  "apply_agent_attempt_accounting st e =
     bindE (event_counts_as_agent_step e) (\<lambda>counts.
     let st1 = (if counts then st\<lparr>step_count := step_count st + 1\<rparr> else st) in
     bindE (event_is_successful_parse_outcome e) (\<lambda>parsed.
       if parsed then
         Inr (st1\<lparr>consecutive_denials := 0, consecutive_invalid_outputs := 0\<rparr>)
       else if ev_event_type e = ET_ACTION_DENIED then
         Inr (st1\<lparr>consecutive_denials := consecutive_denials st1 + 1,
                  consecutive_invalid_outputs := 0\<rparr>)
       else if ev_event_type e = ET_INVALID_OUTPUT then
         Inr (st1\<lparr>consecutive_invalid_outputs := consecutive_invalid_outputs st1 + 1\<rparr>)
       else Inr st1))"

definition apply_refund_event :: "case_fold_state \<Rightarrow> stored_event \<Rightarrow> error + case_fold_state" where
  "apply_refund_event st e =
     (case ev_event_type e of
        ET_REFUND_PROPOSED \<Rightarrow> bindE (event_payload e) (\<lambda>_.
          Inr (record_refund_lifecycle st RS_PENDING_APPROVAL (ev_seq e)))
      | ET_REFUND_AUTO_APPROVED \<Rightarrow> bindE (event_payload e) (\<lambda>_.
          Inr (record_refund_lifecycle st RS_APPROVED (ev_seq e)))
      | ET_REFUND_APPROVAL_REQUIRED \<Rightarrow> bindE (event_payload e) (\<lambda>p.
          bindE (model_validate M_RefundApprovalRequired (model_dump p)) (\<lambda>q.
            case q of
              RefundApprovalRequiredPayload refund_id _ _ \<Rightarrow>
                Inr (record_refund_lifecycle (st\<lparr>pending_refund_id := Some refund_id\<rparr>)
                       RS_PENDING_APPROVAL (ev_seq e))
            | _ \<Rightarrow> Inl ValidationError))
      | ET_REFUND_APPROVED \<Rightarrow> bindE (event_payload e) (\<lambda>_.
          Inr (record_refund_lifecycle (st\<lparr>pending_refund_id := None\<rparr>) RS_APPROVED (ev_seq e)))
      | ET_REFUND_REJECTED \<Rightarrow> bindE (event_payload e) (\<lambda>_.
          Inr (record_refund_lifecycle (st\<lparr>pending_refund_id := None\<rparr>) RS_REJECTED (ev_seq e)))
      | ET_REFUND_EXPIRED \<Rightarrow> bindE (event_payload e) (\<lambda>_.
          Inr (record_refund_lifecycle (st\<lparr>pending_refund_id := None\<rparr>) RS_EXPIRED (ev_seq e)))
      | ET_REFUND_EXECUTED \<Rightarrow> bindE (event_payload e) (\<lambda>_.
          Inr (record_refund_lifecycle st RS_EXECUTED (ev_seq e)))
      | _ \<Rightarrow> Inr st)"

definition apply_reply_sent :: "case_fold_state \<Rightarrow> stored_event \<Rightarrow> error + case_fold_state" where
  "apply_reply_sent st e =
     bindE (apply_agent_attempt_accounting st e) (\<lambda>st1.
       Inr (case last_refund_lifecycle_seq st1 of
              Some s \<Rightarrow> (if ev_seq e > s then st1\<lparr>reply_sent_after_last_refund := True\<rparr> else st1)
            | None \<Rightarrow> st1))"

definition apply_case_event :: "case_fold_state \<Rightarrow> stored_event \<Rightarrow> error + case_fold_state" where
  "apply_case_event st e =
     (let et = ev_event_type e in
      if et = ET_CUSTOMER_VERIFIED then Inr (st\<lparr>customer_verified := True\<rparr>)
      else if et = ET_CASE_CLOSED then
        bindE (apply_agent_attempt_accounting st e) (\<lambda>st1. Inr (st1\<lparr>has_case_closed := True\<rparr>))
      else if et = ET_ORDERS_LISTED then
        bindE (apply_agent_attempt_accounting st e) (\<lambda>st1. Inr (st1\<lparr>orders_listed := True\<rparr>))
      else if et = ET_ORDER_LINKED then
        bindE (apply_agent_attempt_accounting st e) (\<lambda>st1.
          Inr (st1\<lparr>linked_order_id := ev_order_id e\<rparr>))
      else if et = ET_VERIFICATION_REQUESTED then
        bindE (apply_agent_attempt_accounting st e) (\<lambda>st1.
        bindE (event_payload e) (\<lambda>p.
        bindE (model_validate M_VerificationRequested (model_dump p)) (\<lambda>q.
          case q of
            VerificationRequestedPayload token expires_at \<Rightarrow>
              Inr (st1\<lparr>verification_token := Some token,
                       verification_expires_at := Some expires_at\<rparr>)
          | _ \<Rightarrow> Inl ValidationError)))
      else if et \<in> {ET_ACTION_DENIED, ET_INVALID_OUTPUT, ET_ESCALATED} then
        apply_agent_attempt_accounting st e
      else if et \<in> REFUND_LIFECYCLE_EVENT_TYPES then
        bindE (if et = ET_REFUND_PROPOSED then apply_agent_attempt_accounting st e else Inr st)
          (\<lambda>st1. apply_refund_event st1 e)
      else if et = ET_REPLY_SENT then apply_reply_sent st e
      else Inr st)"

definition resolve_case_status :: "case_fold_state \<Rightarrow> datetime \<Rightarrow> case_status" where
  "resolve_case_status st now =
     (if has_case_closed st then CS_CLOSED
      else if pending_refund_id st \<noteq> None then CS_AWAITING_APPROVAL
      else if verification_token st \<noteq> None \<and> \<not> customer_verified st \<and>
              (case verification_expires_at st of Some t \<Rightarrow> now < t | None \<Rightarrow> False)
        then CS_AWAITING_VERIFICATION
      else CS_OPEN)"

definition project_case_summary ::
  "pystr \<Rightarrow> pystr \<Rightarrow> stored_event list \<Rightarrow> datetime \<Rightarrow> error + case_summary" where
  "project_case_summary case_id customer_id events now =
     bindE (foldE apply_case_event initial_case_fold_state
              (case_fold_events case_id customer_id events)) (\<lambda>st.
       Inr \<lparr>cs_case_id = case_id, cs_customer_id = customer_id,
            cs_status = resolve_case_status st now, cs_linked_order_id = linked_order_id st,
            cs_orders_listed = orders_listed st, cs_step_count = step_count st,
            cs_consecutive_denials = consecutive_denials st,
            cs_consecutive_invalid_outputs = consecutive_invalid_outputs st,
            cs_last_refund_status = last_refund_status st,
            cs_reply_sent_after_last_refund = reply_sent_after_last_refund st\<rparr>)"

section \<open>The interface of a fold\<close>

text \<open>
  What the three projections share: they filter the stream by scope, sort by sequence number,
  fold, and read the summary off the final state.
\<close>

locale event_fold =
  fixes project :: "stored_event list \<Rightarrow> error + 's"
    and in_scope :: "stored_event \<Rightarrow> bool"
    and step :: "'a \<Rightarrow> stored_event \<Rightarrow> error + 'a"
    and init :: 'a
    and finish :: "'a \<Rightarrow> error + 's"
  assumes project_fold:
    "project evs = bindE (foldE step init (sort_key ev_seq (filter in_scope evs))) finish"
begin

lemma same_scope: "filter in_scope evs = filter in_scope evs' \<Longrightarrow> project evs = project evs'"
  by (simp add: project_fold)

lemma ignores_foreign: "project (filter (\<lambda>e. in_scope e \<or> P e) evs) = project evs"
proof (rule same_scope)
  have "(\<lambda>e. (in_scope e \<or> P e) \<and> in_scope e) = in_scope" by auto
  then show "filter in_scope (filter (\<lambda>e. in_scope e \<or> P e) evs) = filter in_scope evs"
    by simp
qed

lemma permutation:
  assumes "mset (filter in_scope evs) = mset (filter in_scope evs')"
    and "distinct (map ev_seq (filter in_scope evs))"
  shows "project evs = project evs'"
proof -
  have "inj_on ev_seq (set (filter in_scope evs))"
    using assms(2) by (simp add: distinct_map)
  with assms(1)
  have "sort_key ev_seq (filter in_scope evs) = sort_key ev_seq (filter in_scope evs')"
    by (rule sort_key_eq_sort_key)
  then show ?thesis by (simp add: project_fold)
qed

lemma append_latest:
  assumes "in_scope e" and "\<And>x. x \<in> set evs \<Longrightarrow> in_scope x \<Longrightarrow> ev_seq x \<le> ev_seq e"
  shows "project (evs @ [e]) =
    bindE (bindE (foldE step init (sort_key ev_seq (filter in_scope evs))) (\<lambda>a. step a e)) finish"
proof -
  have "sort_key ev_seq (filter in_scope evs @ [e]) = sort_key ev_seq (filter in_scope evs) @ [e]"
    using assms(2) by (intro sort_key_snoc_max) simp
  with assms(1) show ?thesis by (simp add: project_fold foldE_snoc)
qed

text \<open>A property of the fold state that may mention the events read so far.\<close>

lemma project_induct:
  assumes "project evs = Inr s" and "Q [] init"
    and "\<And>xs a e a'. in_scope e \<Longrightarrow> Q xs a \<Longrightarrow> step a e = Inr a' \<Longrightarrow> Q (xs @ [e]) a'"
  obtains a where "Q (sort_key ev_seq (filter in_scope evs)) a" and "finish a = Inr s"
proof -
  have run: "Q xs a" if "foldE step init xs = Inr a" and "\<forall>e\<in>set xs. in_scope e" for xs a
    using that
  proof (induction xs arbitrary: a rule: rev_induct)
    case Nil
    then show ?case using assms(2) by simp
  next
    case (snoc e xs)
    then obtain b where "foldE step init xs = Inr b" and "step b e = Inr a"
      by (auto simp: foldE_snoc bindE_eq_Inr)
    with snoc show ?case using assms(3) by simp
  qed
  from assms(1) obtain a
    where "foldE step init (sort_key ev_seq (filter in_scope evs)) = Inr a" and "finish a = Inr s"
    by (auto simp: project_fold bindE_eq_Inr)
  moreover have "\<forall>e\<in>set (sort_key ev_seq (filter in_scope evs)). in_scope e" by simp
  ultimately show thesis using run by (intro that)
qed

end

interpretation case_fold:
  event_fold "\<lambda>evs. project_case_summary c u evs now" "in_case_scope c u" apply_case_event
    initial_case_fold_state
    "\<lambda>st. Inr \<lparr>cs_case_id = c, cs_customer_id = u, cs_status = resolve_case_status st now,
       cs_linked_order_id = linked_order_id st, cs_orders_listed = orders_listed st,
       cs_step_count = step_count st, cs_consecutive_denials = consecutive_denials st,
       cs_consecutive_invalid_outputs = consecutive_invalid_outputs st,
       cs_last_refund_status = last_refund_status st,
       cs_reply_sent_after_last_refund = reply_sent_after_last_refund st\<rparr>"
  for c u now
  by unfold_locales (simp add: project_case_summary_def case_fold_events_def)

interpretation order_fold:
  event_fold "\<lambda>evs. project_order_summary seed evs now"
    "\<lambda>e. ev_order_id e = Some (oseed_order_id seed) \<and> ev_customer_id e = oseed_customer_id seed"
    apply_order_event "(Dec False 0 0, False)"
    "\<lambda>(refunded_total, has_open_refund).
       Inr \<lparr>os_order_id = oseed_order_id seed, os_customer_id = oseed_customer_id seed,
            os_total = oseed_total seed, os_refunded_total = refunded_total,
            os_has_open_refund = has_open_refund\<rparr>"
  for seed now
  by unfold_locales (simp add: project_order_summary_def order_scoped_events_def)

interpretation customer_fold:
  event_fold "\<lambda>evs. Inr (project_customer_summary seed evs now)"
    "\<lambda>e. ev_customer_id e = cseed_customer_id seed \<and> ev_event_type e = ET_CUSTOMER_VERIFIED"
    "\<lambda>_ _. Inr True" False
    "\<lambda>verified. Inr \<lparr>cust_customer_id = cseed_customer_id seed, cust_email = cseed_email seed,
       cust_verified = verified\<rparr>"
  for seed now
proof unfold_locales
  have fold_true: "foldE (\<lambda>_ _. Inr True) b xs = Inr (b \<or> xs \<noteq> [])" for b and xs :: "stored_event list"
    by (induction xs arbitrary: b) simp_all
  have "sort_key ev_seq xs \<noteq> [] \<longleftrightarrow> xs \<noteq> []" for xs :: "stored_event list"
    by (metis length_0_conv length_sort)
  then show "Inr (project_customer_summary seed evs now) =
      bindE (foldE (\<lambda>_ _. Inr True) False (sort_key ev_seq (filter
        (\<lambda>e. ev_customer_id e = cseed_customer_id seed \<and> ev_event_type e = ET_CUSTOMER_VERIFIED)
        evs)))
      (\<lambda>verified. Inr \<lparr>cust_customer_id = cseed_customer_id seed, cust_email = cseed_email seed,
         cust_verified = verified\<rparr>)" for evs
    by (simp add: fold_true project_customer_summary_def customer_scoped_events_def)
qed

section \<open>What the case fold computes\<close>

lemma attempt_accounting_frame:
  assumes "apply_agent_attempt_accounting st e = Inr st'"
  shows "has_case_closed st' = has_case_closed st"
    and "linked_order_id st' = linked_order_id st"
    and "orders_listed st' = orders_listed st"
    and "pending_refund_id st' = pending_refund_id st"
    and "last_refund_status st' = last_refund_status st"
    and "last_refund_lifecycle_seq st' = last_refund_lifecycle_seq st"
    and "verification_token st' = verification_token st"
    and "verification_expires_at st' = verification_expires_at st"
    and "customer_verified st' = customer_verified st"
    and "step_count st' =
      step_count st + (if event_counts_as_agent_step e = Inr True then 1 else 0)"
proof -
  from assms obtain counts parsed where "event_counts_as_agent_step e = Inr counts"
    and "event_is_successful_parse_outcome e = Inr parsed"
    by (auto simp: apply_agent_attempt_accounting_def Let_def bindE_eq_Inr)
  note unfold = assms [unfolded apply_agent_attempt_accounting_def Let_def this bindE_simps, symmetric]
  show "has_case_closed st' = has_case_closed st"
    and "linked_order_id st' = linked_order_id st"
    and "orders_listed st' = orders_listed st"
    and "pending_refund_id st' = pending_refund_id st"
    and "last_refund_status st' = last_refund_status st"
    and "last_refund_lifecycle_seq st' = last_refund_lifecycle_seq st"
    and "verification_token st' = verification_token st"
    and "verification_expires_at st' = verification_expires_at st"
    and "customer_verified st' = customer_verified st"
    and "step_count st' =
      step_count st + (if event_counts_as_agent_step e = Inr True then 1 else 0)"
    using unfold \<open>event_counts_as_agent_step e = Inr counts\<close>
    by (cases counts; simp split: if_splits)+
qed


text \<open>
  Reading a payload and validating its dump against the class of the event type gives the payload
  back, so each handler sees the constructor its event type calls for.
\<close>

lemma event_payload_class:
  "event_payload e = Inr p \<Longrightarrow>
     payload_class p = payload_model_for_event_type (ev_event_type e) \<and> payload_finite p"
  unfolding event_payload_def by (rule validate_payload_class)

lemma reread_payload:
  assumes "payload_model_for_event_type (ev_event_type e) = M"
  shows "bindE (event_payload e) (\<lambda>p. bindE (model_validate M (model_dump p)) k) =
    bindE (event_payload e) k"
proof (cases "event_payload e")
  case (Inr p)
  then have "payload_class p = M" and "payload_finite p"
    using event_payload_class [OF Inr] assms by simp_all
  then have "model_validate M (model_dump p) = Inr p" by (metis model_validate_dump)
  with Inr show ?thesis by simp
qed simp

lemma refund_event_cases:
  assumes "apply_refund_event st e = Inr st'"
  shows "st' = st \<or>
    (\<exists>pending status. st' =
       record_refund_lifecycle (st\<lparr>pending_refund_id := pending\<rparr>) status (ev_seq e))"
proof -
  have same: "st\<lparr>pending_refund_id := pending_refund_id st\<rparr> = st" by simp
  show ?thesis
  proof (cases "ev_event_type e = ET_REFUND_APPROVAL_REQUIRED")
    case True
    with assms obtain p where p: "(case p of RefundApprovalRequiredPayload refund_id _ _ \<Rightarrow>
          Inr (record_refund_lifecycle (st\<lparr>pending_refund_id := Some refund_id\<rparr>)
                 RS_PENDING_APPROVAL (ev_seq e))
        | _ \<Rightarrow> Inl ValidationError) = Inr st'"
      unfolding apply_refund_event_def
      by (simp add: reread_payload bindE_eq_Inr del: model_validate.simps) blast
    show ?thesis by (cases p) (use p in auto)
  next
    case False
    have "\<exists>pending. record_refund_lifecycle st status (ev_seq e) =
        record_refund_lifecycle (st\<lparr>pending_refund_id := pending\<rparr>) status (ev_seq e)" for status
      using same by metis
    with False show ?thesis
      using assms unfolding apply_refund_event_def
      by (cases "ev_event_type e") (auto simp: bindE_eq_Inr)
  qed
qed

lemma refund_event_frame:
  assumes "apply_refund_event st e = Inr st'"
  shows "has_case_closed st' = has_case_closed st"
    and "linked_order_id st' = linked_order_id st"
    and "step_count st' = step_count st"
    and "customer_verified st' = customer_verified st"
    and "verification_token st' = verification_token st"
    and "verification_expires_at st' = verification_expires_at st"
    and "consecutive_denials st' = consecutive_denials st"
  using refund_event_cases [OF assms] by (auto simp: record_refund_lifecycle_def)

lemma verification_requested_event:
  assumes "apply_case_event st e = Inr st'" and "ev_event_type e = ET_VERIFICATION_REQUESTED"
  obtains st1 token expires_at
  where "apply_agent_attempt_accounting st e = Inr st1"
    and "event_payload e = Inr (VerificationRequestedPayload token expires_at)"
    and "st' = st1\<lparr>verification_token := Some token, verification_expires_at := Some expires_at\<rparr>"
proof -
  from assms obtain st1 p where st1: "apply_agent_attempt_accounting st e = Inr st1"
    and p: "event_payload e = Inr p"
    and st': "(case p of VerificationRequestedPayload token expires_at \<Rightarrow>
        Inr (st1\<lparr>verification_token := Some token, verification_expires_at := Some expires_at\<rparr>)
      | _ \<Rightarrow> Inl ValidationError) = Inr st'"
    unfolding apply_case_event_def Let_def
    by (simp add: reread_payload bindE_eq_Inr del: model_validate.simps) blast
  show thesis
    by (cases p) (use st1 p st' that in auto)
qed

lemmas apply_case_event_simps =
  apply_case_event_def apply_reply_sent_def bindE_eq_Inr Let_def REFUND_LIFECYCLE_EVENT_TYPES_def

lemma apply_case_event_closed:
  assumes "apply_case_event st e = Inr st'"
  shows "has_case_closed st' \<longleftrightarrow> has_case_closed st \<or> ev_event_type e = ET_CASE_CLOSED"
proof (cases "ev_event_type e = ET_VERIFICATION_REQUESTED")
  case True
  with assms show ?thesis
    by (elim verification_requested_event) (simp_all add: attempt_accounting_frame)
next
  case False
  with assms show ?thesis
    by (cases "ev_event_type e")
      (auto simp: apply_case_event_simps attempt_accounting_frame refund_event_frame
        split: option.splits if_splits)
qed

lemma apply_case_event_steps:
  assumes "apply_case_event st e = Inr st'"
  shows "step_count st' = step_count st + (if event_counts_as_agent_step e = Inr True then 1 else 0)"
proof (cases "ev_event_type e = ET_VERIFICATION_REQUESTED")
  case True
  with assms show ?thesis
    by (elim verification_requested_event) (simp_all add: attempt_accounting_frame)
next
  case False
  with assms show ?thesis
    by (cases "ev_event_type e")
      (auto simp: apply_case_event_simps attempt_accounting_frame refund_event_frame
        event_counts_as_agent_step_def AGENT_ATTEMPT_OUTCOME_TYPES_def
        split: option.splits if_splits)
qed

lemma apply_case_event_linked:
  assumes "apply_case_event st e = Inr st'"
  shows "linked_order_id st' =
    (if ev_event_type e = ET_ORDER_LINKED then ev_order_id e else linked_order_id st)"
proof (cases "ev_event_type e = ET_VERIFICATION_REQUESTED")
  case True
  with assms show ?thesis
    by (elim verification_requested_event) (simp_all add: attempt_accounting_frame)
next
  case False
  with assms show ?thesis
    by (cases "ev_event_type e")
      (auto simp: apply_case_event_simps attempt_accounting_frame refund_event_frame
        split: option.splits if_splits)
qed

lemma apply_case_event_verified:
  assumes "apply_case_event st e = Inr st'"
  shows "customer_verified st' \<longleftrightarrow>
    customer_verified st \<or> ev_event_type e = ET_CUSTOMER_VERIFIED"
proof (cases "ev_event_type e = ET_VERIFICATION_REQUESTED")
  case True
  with assms show ?thesis
    by (elim verification_requested_event) (simp_all add: attempt_accounting_frame)
next
  case False
  with assms show ?thesis
    by (cases "ev_event_type e")
      (auto simp: apply_case_event_simps attempt_accounting_frame refund_event_frame
        split: option.splits if_splits)
qed

lemma apply_case_event_token:
  assumes "apply_case_event st e = Inr st'" and "ev_event_type e \<noteq> ET_VERIFICATION_REQUESTED"
  shows "verification_token st' = verification_token st"
    and "verification_expires_at st' = verification_expires_at st"
proof -
  have "verification_token st' = verification_token st \<and>
      verification_expires_at st' = verification_expires_at st"
    using assms
    by (cases "ev_event_type e")
      (auto simp: apply_case_event_simps attempt_accounting_frame refund_event_frame
        split: option.splits if_splits)
  then show "verification_token st' = verification_token st"
    and "verification_expires_at st' = verification_expires_at st" by simp_all
qed

definition moves_pending :: "stored_event \<Rightarrow> bool" where
  "moves_pending e \<longleftrightarrow> ev_event_type e \<in>
     {ET_REFUND_APPROVAL_REQUIRED, ET_REFUND_APPROVED, ET_REFUND_REJECTED, ET_REFUND_EXPIRED}"

lemma apply_case_event_pending:
  assumes "apply_case_event st e = Inr st'"
  shows "(pending_refund_id st' \<noteq> None) \<longleftrightarrow>
    (if moves_pending e then ev_event_type e = ET_REFUND_APPROVAL_REQUIRED
     else pending_refund_id st \<noteq> None)"
proof -
  consider "ev_event_type e = ET_VERIFICATION_REQUESTED"
    | "ev_event_type e = ET_REFUND_APPROVAL_REQUIRED"
    | "ev_event_type e \<noteq> ET_VERIFICATION_REQUESTED"
      and "ev_event_type e \<noteq> ET_REFUND_APPROVAL_REQUIRED" by blast
  then show ?thesis
  proof cases
    case 1
    with assms show ?thesis
      by (elim verification_requested_event) (simp_all add: attempt_accounting_frame moves_pending_def)
  next
    case 2
    with assms obtain p where p: "(case p of RefundApprovalRequiredPayload refund_id _ _ \<Rightarrow>
          Inr (record_refund_lifecycle (st\<lparr>pending_refund_id := Some refund_id\<rparr>)
                 RS_PENDING_APPROVAL (ev_seq e))
        | _ \<Rightarrow> Inl ValidationError) = Inr st'"
      unfolding apply_case_event_def apply_refund_event_def Let_def REFUND_LIFECYCLE_EVENT_TYPES_def
      by (simp add: reread_payload bindE_eq_Inr del: model_validate.simps) blast
    show ?thesis
      by (cases p) (use p 2 in \<open>auto simp: moves_pending_def record_refund_lifecycle_def\<close>)
  next
    case 3
    with assms show ?thesis
      by (cases "ev_event_type e")
        (auto simp: apply_case_event_simps attempt_accounting_frame moves_pending_def
          apply_refund_event_def record_refund_lifecycle_def split: option.splits if_splits)
  qed
qed

section \<open>Status as a function of the history\<close>

text \<open>
  The specification of the case status reads the ordered history directly: the most recent event
  of a kind is the first one found from the end.
\<close>

definition latest :: "(stored_event \<Rightarrow> bool) \<Rightarrow> stored_event list \<Rightarrow> stored_event option" where
  "latest P xs = find P (rev xs)"

lemma latest_Nil [simp]: "latest P [] = None"
  by (simp add: latest_def)

lemma latest_snoc [simp]: "latest P (xs @ [e]) = (if P e then Some e else latest P xs)"
  by (simp add: latest_def)

definition verification_window_open :: "stored_event list \<Rightarrow> datetime \<Rightarrow> bool" where
  "verification_window_open xs now =
     (case latest (\<lambda>e. ev_event_type e = ET_VERIFICATION_REQUESTED) xs of
        None \<Rightarrow> False
      | Some e \<Rightarrow> (case event_payload e of
                    Inr (VerificationRequestedPayload _ expires_at) \<Rightarrow> now < expires_at
                  | _ \<Rightarrow> False))"

definition case_status_of_history :: "stored_event list \<Rightarrow> datetime \<Rightarrow> case_status" where
  "case_status_of_history xs now =
     (if \<exists>e\<in>set xs. ev_event_type e = ET_CASE_CLOSED then CS_CLOSED
      else if (case latest moves_pending xs of
                 None \<Rightarrow> False | Some e \<Rightarrow> ev_event_type e = ET_REFUND_APPROVAL_REQUIRED)
        then CS_AWAITING_APPROVAL
      else if verification_window_open xs now \<and>
              \<not> (\<exists>e\<in>set xs. ev_event_type e = ET_CUSTOMER_VERIFIED) then CS_AWAITING_VERIFICATION
      else CS_OPEN)"

definition fold_state_agrees :: "stored_event list \<Rightarrow> case_fold_state \<Rightarrow> bool" where
  "fold_state_agrees xs st \<longleftrightarrow>
     (has_case_closed st \<longleftrightarrow> (\<exists>e\<in>set xs. ev_event_type e = ET_CASE_CLOSED)) \<and>
     (customer_verified st \<longleftrightarrow> (\<exists>e\<in>set xs. ev_event_type e = ET_CUSTOMER_VERIFIED)) \<and>
     (pending_refund_id st \<noteq> None \<longleftrightarrow>
        (case latest moves_pending xs of
           None \<Rightarrow> False | Some e \<Rightarrow> ev_event_type e = ET_REFUND_APPROVAL_REQUIRED)) \<and>
     (\<forall>now. verification_window_open xs now \<longleftrightarrow>
        verification_token st \<noteq> None \<and>
        (case verification_expires_at st of Some t \<Rightarrow> now < t | None \<Rightarrow> False)) \<and>
     linked_order_id st =
       (case latest (\<lambda>e. ev_event_type e = ET_ORDER_LINKED) xs of
          None \<Rightarrow> None | Some e \<Rightarrow> ev_order_id e) \<and>
     step_count st = length (filter (\<lambda>e. event_counts_as_agent_step e = Inr True) xs)"

lemma fold_state_agrees_init: "fold_state_agrees [] initial_case_fold_state"
  by (simp add: fold_state_agrees_def initial_case_fold_state_def verification_window_open_def)

lemma fold_state_agrees_step:
  assumes "fold_state_agrees xs st" and step: "apply_case_event st e = Inr st'"
  shows "fold_state_agrees (xs @ [e]) st'"
proof -
  have window: "verification_window_open (xs @ [e]) now \<longleftrightarrow>
      verification_token st' \<noteq> None \<and>
      (case verification_expires_at st' of Some t \<Rightarrow> now < t | None \<Rightarrow> False)" for now
  proof (cases "ev_event_type e = ET_VERIFICATION_REQUESTED")
    case True
    with step show ?thesis
      by (elim verification_requested_event) (simp_all add: verification_window_open_def)
  next
    case False
    then have "verification_window_open (xs @ [e]) now = verification_window_open xs now"
      by (simp add: verification_window_open_def)
    with assms(1) show ?thesis
      by (simp add: fold_state_agrees_def apply_case_event_token [OF step False])
  qed
  note agrees = assms(1) [unfolded fold_state_agrees_def]
  have closed: "has_case_closed st' \<longleftrightarrow> (\<exists>e\<in>set (xs @ [e]). ev_event_type e = ET_CASE_CLOSED)"
    using agrees by (simp add: apply_case_event_closed [OF step] disj_commute)
  moreover have "customer_verified st' \<longleftrightarrow>
      (\<exists>e\<in>set (xs @ [e]). ev_event_type e = ET_CUSTOMER_VERIFIED)"
    using agrees by (simp add: apply_case_event_verified [OF step] disj_commute)
  moreover have "step_count st' =
      length (filter (\<lambda>e. event_counts_as_agent_step e = Inr True) (xs @ [e]))"
    using agrees by (simp add: apply_case_event_steps [OF step])
  moreover have "linked_order_id st' =
      (case latest (\<lambda>e. ev_event_type e = ET_ORDER_LINKED) (xs @ [e]) of
         None \<Rightarrow> None | Some e \<Rightarrow> ev_order_id e)"
    using agrees by (simp add: apply_case_event_linked [OF step])
  moreover have "pending_refund_id st' \<noteq> None \<longleftrightarrow>
      (case latest moves_pending (xs @ [e]) of
         None \<Rightarrow> False | Some e \<Rightarrow> ev_event_type e = ET_REFUND_APPROVAL_REQUIRED)"
    using agrees apply_case_event_pending [OF step] by (simp del: not_None_eq)
  ultimately show ?thesis
    using window unfolding fold_state_agrees_def by (intro conjI allI)
qed

lemma resolve_case_status_history:
  "fold_state_agrees xs st \<Longrightarrow> resolve_case_status st now = case_status_of_history xs now"
  unfolding fold_state_agrees_def resolve_case_status_def case_status_of_history_def
  by (simp split: option.splits) (auto split: option.splits)

lemma project_case_summary_agrees:
  assumes "project_case_summary c u evs now = Inr s"
  obtains st where "fold_state_agrees (case_fold_events c u evs) st"
    and "cs_status s = resolve_case_status st now" and "cs_linked_order_id s = linked_order_id st"
    and "cs_step_count s = step_count st" and "cs_case_id s = c" and "cs_customer_id s = u"
    and "cs_consecutive_denials s = consecutive_denials st"
    and "cs_consecutive_invalid_outputs s = consecutive_invalid_outputs st"
    and "cs_orders_listed s = orders_listed st"
  by (rule case_fold.project_induct [OF assms, of fold_state_agrees])
    (auto simp: fold_state_agrees_init case_fold_events_def intro: fold_state_agrees_step)

lemma latest_mem: "latest P xs = Some e \<Longrightarrow> e \<in> set xs \<and> P e"
  by (auto simp: latest_def dest: find_Some_mem)

lemma project_case_summary_linked:
  assumes "project_case_summary c u evs now = Inr s" and "cs_linked_order_id s = Some ord"
  obtains e where "e \<in> set evs" and "ev_customer_id e = u" and "ev_order_id e = Some ord"
proof -
  obtain st where "fold_state_agrees (case_fold_events c u evs) st"
    and "cs_linked_order_id s = linked_order_id st"
    by (rule project_case_summary_agrees [OF assms(1)])
  with assms(2) obtain e where "latest (\<lambda>e. ev_event_type e = ET_ORDER_LINKED) (case_fold_events c u evs) = Some e"
    and "ev_order_id e = Some ord"
    by (auto simp: fold_state_agrees_def split: option.splits)
  with that [of e] show thesis
    by (auto simp: case_fold_events_def in_case_scope_def dest!: latest_mem)
qed

section \<open>What the order fold computes\<close>

text \<open>
  \<open>is_cents n d\<close>: \<open>d\<close> is \<open>n\<close> cents, either as written by the gate or as the fold's initial
  \<open>Decimal(0)\<close>.
\<close>

definition is_cents :: "nat \<Rightarrow> decimal \<Rightarrow> bool" where
  "is_cents n d \<longleftrightarrow> d = cents n \<or> n = 0 \<and> d = Dec False 0 0"

definition executed_money :: "stored_event \<Rightarrow> bool" where
  "executed_money e \<longleftrightarrow> ev_event_type e = ET_REFUND_EXECUTED \<longrightarrow>
     (case event_payload e of Inr (RefundExecutedPayload _ amount _) \<Rightarrow> is_money amount | _ \<Rightarrow> False)"

definition executed_cents :: "stored_event \<Rightarrow> nat" where
  "executed_cents e =
     (if ev_event_type e = ET_REFUND_EXECUTED then
        (case event_payload e of Inr (RefundExecutedPayload _ (Dec _ n _) _) \<Rightarrow> n | _ \<Rightarrow> 0)
      else 0)"

definition moves_open_flag :: "stored_event \<Rightarrow> bool" where
  "moves_open_flag e \<longleftrightarrow> ev_event_type e \<in>
     {ET_REFUND_PROPOSED, ET_REFUND_EXECUTED, ET_REFUND_REJECTED, ET_REFUND_EXPIRED}"

definition open_refund_in_history :: "stored_event list \<Rightarrow> bool" where
  "open_refund_in_history xs =
     (case latest moves_open_flag xs of
        None \<Rightarrow> False | Some e \<Rightarrow> ev_event_type e = ET_REFUND_PROPOSED)"

lemma is_cents_add:
  assumes "is_cents m d" and "m + n < 10 ^ dec_prec"
  shows "dec_add d (cents n) = Inr (cents (m + n))"
  using assms by (auto simp: is_cents_def dec_add_cents dec_add_zero_cents)

lemma is_cents_val: "is_cents n d \<Longrightarrow> dec_val d = of_nat n / 100"
  by (auto simp: is_cents_def dec_val_cents)

lemma executed_moneyE:
  assumes "executed_money e" and "ev_event_type e = ET_REFUND_EXECUTED"
  obtains r ref where "event_payload e = Inr (RefundExecutedPayload r (cents (executed_cents e)) ref)"
  using assms
  by (auto simp: executed_money_def executed_cents_def split: sum.splits payload.splits
      elim!: is_moneyE) (auto simp: cents_def)

lemma apply_order_event_reread:
  assumes "ev_event_type e = ET_REFUND_EXECUTED"
  shows "apply_order_event (t, b) e = bindE (event_payload e) (\<lambda>q.
    case q of
      RefundExecutedPayload _ amount _ \<Rightarrow> bindE (dec_add t amount) (\<lambda>t. Inr (t, False))
    | _ \<Rightarrow> Inl ValidationError)"
  using assms unfolding apply_order_event_def
  by (simp add: reread_payload del: model_validate.simps)

lemma apply_order_event_executed:
  assumes "ev_event_type e = ET_REFUND_EXECUTED" and "executed_money e"
    and "is_cents m t" and "m + executed_cents e < 10 ^ dec_prec"
  shows "apply_order_event (t, b) e = Inr (cents (m + executed_cents e), False)"
  using assms
  by (elim executed_moneyE) (simp_all add: apply_order_event_reread is_cents_add)

lemma apply_order_event_open:
  assumes "apply_order_event (t, b) e = Inr (t', b')"
  shows "b' \<longleftrightarrow> (if moves_open_flag e then ev_event_type e = ET_REFUND_PROPOSED else b)"
proof (cases "ev_event_type e = ET_REFUND_EXECUTED")
  case True
  with assms obtain q where "(case q of
      RefundExecutedPayload _ amount _ \<Rightarrow> bindE (dec_add t amount) (\<lambda>t. Inr (t, False))
    | _ \<Rightarrow> Inl ValidationError) = Inr (t', b')"
    by (auto simp: apply_order_event_reread bindE_eq_Inr)
  with True show ?thesis by (cases q) (auto simp: moves_open_flag_def bindE_eq_Inr)
next
  case False
  with assms show ?thesis
    by (auto simp: apply_order_event_def moves_open_flag_def bindE_eq_Inr split: if_splits)
qed

lemma apply_order_event_other:
  assumes "apply_order_event (t, b) e = Inr (t', b')" and "ev_event_type e \<noteq> ET_REFUND_EXECUTED"
  shows "t' = t \<and> executed_cents e = 0"
  using assms
  by (auto simp: apply_order_event_def executed_cents_def bindE_eq_Inr split: if_splits)

lemma apply_order_event_total:
  assumes "apply_order_event (t, b) e = Inr (t', b')"
    and "executed_money e" and "is_cents m t" and "m + executed_cents e < 10 ^ dec_prec"
  shows "is_cents (m + executed_cents e) t'"
proof (cases "ev_event_type e = ET_REFUND_EXECUTED")
  case True
  from apply_order_event_executed [OF this assms(2-4), of b] assms(1) show ?thesis
    by (simp add: is_cents_def)
next
  case False
  with apply_order_event_other [OF assms(1)] assms(3) show ?thesis by simp
qed

lemma order_fold_total:
  assumes "project_order_summary seed evs now = Inr s"
    and scope: "xs = order_scoped_events (oseed_order_id seed) (oseed_customer_id seed) evs"
    and money: "list_all executed_money xs"
    and bound: "sum_list (map executed_cents xs) < 10 ^ dec_prec"
  shows "is_cents (sum_list (map executed_cents xs)) (os_refunded_total s) \<and>
    os_has_open_refund s = open_refund_in_history (sort_key ev_seq xs) \<and>
    os_total s = oseed_total seed"
proof -
  define Q where "Q ys st \<longleftrightarrow>
      (list_all executed_money ys \<longrightarrow> sum_list (map executed_cents ys) < 10 ^ dec_prec \<longrightarrow>
         is_cents (sum_list (map executed_cents ys)) (fst st)) \<and>
      snd st = open_refund_in_history ys" for ys and st :: "decimal \<times> bool"
  have step: "Q (ys @ [e]) st'" if "Q ys st" and "apply_order_event st e = Inr st'" for ys st e st'
  proof -
    obtain t b t' b' where st: "st = (t, b)" "st' = (t', b')" by (cases st; cases st')
    have "b' \<longleftrightarrow> open_refund_in_history (ys @ [e])"
      using that apply_order_event_open [of t b e t' b'] st
      by (simp add: Q_def open_refund_in_history_def)
    moreover have "is_cents (sum_list (map executed_cents ys) + executed_cents e) t'"
      if "list_all executed_money (ys @ [e])"
        and "sum_list (map executed_cents ys) + executed_cents e < 10 ^ dec_prec"
      using that \<open>Q ys st\<close> \<open>apply_order_event st e = Inr st'\<close> st
      by (intro apply_order_event_total [of t b e t' b']) (simp_all add: Q_def)
    ultimately show ?thesis by (simp add: Q_def st)
  qed
  have "Q [] (Dec False 0 0, False)"
    by (simp add: Q_def is_cents_def open_refund_in_history_def)
  with step obtain a where "Q (sort_key ev_seq xs) a"
    and fin: "(case a of (refunded_total, has_open_refund) \<Rightarrow>
       Inr \<lparr>os_order_id = oseed_order_id seed, os_customer_id = oseed_customer_id seed,
            os_total = oseed_total seed, os_refunded_total = refunded_total,
            os_has_open_refund = has_open_refund\<rparr>) = (Inr s :: error + order_summary)"
    unfolding scope order_scoped_events_def
    by (blast intro: order_fold.project_induct [OF assms(1), of Q])
  moreover have "s = \<lparr>os_order_id = oseed_order_id seed,
      os_customer_id = oseed_customer_id seed, os_total = oseed_total seed,
      os_refunded_total = fst a, os_has_open_refund = snd a\<rparr>"
    using fin by (cases a) simp
  moreover have "sum_list (map executed_cents (sort_key ev_seq xs)) = sum_list (map executed_cents xs)"
    by (metis mset_map mset_sort sum_mset_sum_list)
  moreover have "list_all executed_money (sort_key ev_seq xs)"
    using money by (simp add: list_all_iff)
  ultimately show ?thesis using bound by (simp add: Q_def)
qed

section \<open>Properties\<close>

definition sample_event :: "int \<Rightarrow> event_type \<Rightarrow> payload \<Rightarrow> pystr option \<Rightarrow> stored_event" where
  "sample_event n et p ord =
     \<lparr>ev_id = nat_str (nat n), ev_customer_id = lit ''cust_sophie'',
      ev_case_id = (if et = ET_CUSTOMER_VERIFIED then None else Some (lit ''case_1'')),
      ev_order_id = ord, ev_seq = n, ev_event_type = et, ev_actor = fst (catalogue_actor p),
      ev_channel = snd (catalogue_actor p), ev_payload = model_dump p, ev_created_at = 0\<rparr>"

definition sample_history :: "stored_event list" where
  "sample_history =
     [sample_event 4 ET_REFUND_EXECUTED
        (RefundExecutedPayload (lit ''rfnd_1'') (cents 2400) (lit ''pay_rfnd_1'')) (Some (lit ''ORD-1002'')),
      sample_event 1 ET_ORDER_LINKED (OrderLinkedPayload (lit ''ORD-1002'')) (Some (lit ''ORD-1002'')),
      sample_event 2 ET_REFUND_PROPOSED
        (RefundProposedPayload (lit ''rfnd_1'') (cents 2400)) (Some (lit ''ORD-1002'')),
      sample_event 5 ET_VERIFICATION_REQUESTED
        (VerificationRequestedPayload (lit ''vtok_1'') 1000) None]"

text \<open>C15: the case projection is the status machine of the documentation.  Whenever the fold
  returns, its status is the one read off the ordered history: closed once a \<open>case_closed\<close> event
  exists, awaiting approval while the most recent approval event is a request, awaiting
  verification while the most recent request's window is open and nobody has verified, open
  otherwise; the linked order is that of the most recent link, and the step count is the exact
  number of attempt events.\<close>

theorem case_summary_of_history:
  assumes "project_case_summary c u evs now = Inr s"
  shows "cs_status s = case_status_of_history (case_fold_events c u evs) now \<and>
    cs_linked_order_id s =
      (case latest (\<lambda>e. ev_event_type e = ET_ORDER_LINKED) (case_fold_events c u evs) of
         None \<Rightarrow> None | Some e \<Rightarrow> ev_order_id e) \<and>
    cs_step_count s =
      length (filter (\<lambda>e. event_counts_as_agent_step e = Inr True) (case_fold_events c u evs))"
proof -
  obtain st where "fold_state_agrees (case_fold_events c u evs) st"
    and "cs_status s = resolve_case_status st now" and "cs_linked_order_id s = linked_order_id st"
    and "cs_step_count s = step_count st"
    by (rule project_case_summary_agrees [OF assms])
  then show ?thesis by (simp add: resolve_case_status_history fold_state_agrees_def)
qed

theorem case_summary_of_history_witness:
  "\<exists>s. project_case_summary (lit ''case_1'') (lit ''cust_sophie'') sample_history 999 = Inr s \<and>
     cs_status s = CS_AWAITING_VERIFICATION \<and> cs_step_count s = 3 \<and>
     case_status_of_history (case_fold_events (lit ''case_1'') (lit ''cust_sophie'') sample_history) 999
       = CS_AWAITING_VERIFICATION"
proof -
  have "\<not> isl (project_case_summary (lit ''case_1'') (lit ''cust_sophie'') sample_history 999)"
    by code_simp
  then obtain s where s: "project_case_summary (lit ''case_1'') (lit ''cust_sophie'') sample_history 999 = Inr s"
    by (auto simp: isl_def) (metis sumE)
  have "cs_status (projr (project_case_summary (lit ''case_1'') (lit ''cust_sophie'') sample_history 999))
      = CS_AWAITING_VERIFICATION \<and>
      cs_step_count (projr (project_case_summary (lit ''case_1'') (lit ''cust_sophie'') sample_history 999)) = 3"
    by code_simp
  with s case_summary_of_history [OF s] show ?thesis by auto
qed

text \<open>The events a case summary may depend on: those of the case and the verifications of its
  customer, and in both cases only events of that customer.\<close>

abbreviation relevant :: "pystr \<Rightarrow> pystr \<Rightarrow> stored_event \<Rightarrow> bool" where
  "relevant c u e \<equiv> ev_customer_id e = u \<and> (ev_case_id e = Some c \<or> ev_event_type e = ET_CUSTOMER_VERIFIED)"

lemma relevant_in_scope: "filter (relevant c u) evs = filter (in_case_scope c u) evs"
  by (rule filter_cong) (auto simp: in_case_scope_def)

text \<open>C31: isolation and determinism of the case projection.  Two streams that hold the same
  events of the customer for the case and the same verifications of the customer, whatever else
  they hold (events of other cases, and events of other customers even under the same case
  identifier) and in whatever order, give the same summary; sequence numbers alone decide the
  order.\<close>

theorem case_summary_isolation:
  assumes "mset (filter (relevant c u) evs) = mset (filter (relevant c u) evs')"
    and "distinct (map ev_seq (filter (relevant c u) evs))"
  shows "project_case_summary c u evs now = project_case_summary c u evs' now"
  using assms unfolding relevant_in_scope by (rule case_fold.permutation)

text \<open>The closing of another case, and the closing of a case with the same identifier and a
  verification, both of another customer.\<close>

definition foreign_events :: "stored_event list" where
  "foreign_events =
     [sample_event 9 ET_CASE_CLOSED (CaseClosedPayload CO_FINISHED None) None\<lparr>ev_case_id := Some (lit ''case_2'')\<rparr>,
      sample_event 9 ET_CASE_CLOSED (CaseClosedPayload CO_FINISHED None) None\<lparr>ev_customer_id := lit ''cust_marcus''\<rparr>,
      sample_event 9 ET_CUSTOMER_VERIFIED (CustomerVerifiedPayload VM_TOKEN) None\<lparr>ev_customer_id := lit ''cust_marcus''\<rparr>]"

theorem case_summary_isolation_witness:
  "project_case_summary (lit ''case_1'') (lit ''cust_sophie'') sample_history 0 =
   project_case_summary (lit ''case_1'') (lit ''cust_sophie'') (foreign_events @ rev sample_history) 0"
proof (rule case_summary_isolation)
  let ?P = "relevant (lit ''case_1'') (lit ''cust_sophie'')"
  have "filter ?P foreign_events = []" by (simp add: foreign_events_def sample_event_def)
  then show "mset (filter ?P sample_history) = mset (filter ?P (foreign_events @ rev sample_history))"
    by (simp only: filter_append append_Nil rev_filter [symmetric] mset_rev)
  show "distinct (map ev_seq (filter ?P sample_history))"
    by (simp add: sample_history_def sample_event_def)
qed

text \<open>C30: the order projection is an account.  When the executed amounts are money and do not
  overflow 28 digits, the folded \<open>refunded_total\<close> is exactly the sum of the executed refunds of
  that order, and the open flag says whether the most recent lifecycle event is a proposal.\<close>

theorem order_summary_account:
  assumes "project_order_summary seed evs now = Inr s"
    and "list_all executed_money
      (order_scoped_events (oseed_order_id seed) (oseed_customer_id seed) evs)"
    and "sum_list (map executed_cents
      (order_scoped_events (oseed_order_id seed) (oseed_customer_id seed) evs)) < 10 ^ dec_prec"
  shows "dec_val (os_refunded_total s) = of_nat (sum_list (map executed_cents
      (order_scoped_events (oseed_order_id seed) (oseed_customer_id seed) evs))) / 100 \<and>
    os_has_open_refund s = open_refund_in_history (sort_key ev_seq
      (order_scoped_events (oseed_order_id seed) (oseed_customer_id seed) evs))"
  using order_fold_total [OF assms(1) refl assms(2,3)] by (metis is_cents_val)

definition sample_order_seed :: order_seed where
  "sample_order_seed = \<lparr>oseed_order_id = lit ''ORD-1002'', oseed_customer_id = lit ''cust_sophie'',
     oseed_total = cents 2400\<rparr>"

theorem order_summary_account_witness:
  "\<exists>s. project_order_summary sample_order_seed sample_history 0 = Inr s \<and>
     dec_val (os_refunded_total s) = 24 \<and> \<not> os_has_open_refund s"
proof -
  let ?run = "project_order_summary sample_order_seed sample_history 0"
  have zero: "dec_add (Dec False 0 0) (cents 2400) = Inr (cents 2400)"
    by (rule dec_add_zero_cents) (simp add: dec_prec_def)
  note sample = order_scoped_events_def sample_history_def sample_event_def sample_order_seed_def
    event_payload_def validate_payload_def field_defs
  let ?scope = "order_scoped_events (oseed_order_id sample_order_seed)
    (oseed_customer_id sample_order_seed) sample_history"
  obtain s where s: "?run = Inr s"
    by (simp add: project_order_summary_def apply_order_event_def sample zero)
  have money: "list_all executed_money ?scope"
    by (simp add: executed_money_def sample)
  have total: "sum_list (map executed_cents ?scope) = 2400"
    by (simp add: executed_cents_def sample cents_def)
  have "\<not> open_refund_in_history (sort_key ev_seq ?scope)"
    by (simp add: open_refund_in_history_def latest_def moves_open_flag_def sample)
  moreover have "2400 < (10::nat) ^ dec_prec" by (simp add: dec_prec_def)
  ultimately show ?thesis using order_summary_account [OF s money] total s by simp
qed

end
