(* ===== verification/Json.thy ===== *)
theory Json
  imports Bytes
begin

text \<open>
  The JSON module of the standard library, as far as the program uses it: \<open>json.dumps\<close> with
  \<open>ensure_ascii\<close> and \<open>indent\<close>, and \<open>json.loads\<close> with the messages of \<open>JSONDecodeError\<close>.
  A Python value is a \<open>json\<close>; a dictionary is the list of its items in insertion order; a float
  is kept as the literal it was read from (no modelled caller writes floats).  The number of
  nested containers the decoder may open before \<open>RecursionError\<close> depends on the interpreter and
  is an argument.
\<close>

datatype json =
    JNull
  | JBool bool
  | JInt int
  | JFloat pystr
  | JStr pystr
  | JList "json list"
  | JObj "(pystr \<times> json) list"

section \<open>Writing\<close>

definition hex4 :: "nat \<Rightarrow> pystr" where
  "hex4 n = map hex_digit [n div 4096 mod 16, n div 256 mod 16, n div 16 mod 16, n mod 16]"

definition escape_u :: "nat \<Rightarrow> pystr" where
  "escape_u n = [92, 117] @ hex4 n"

definition escape_char :: "bool \<Rightarrow> nat \<Rightarrow> pystr" where
  "escape_char ensure_ascii c =
     (if c = 34 then [92, 34]
      else if c = 92 then [92, 92]
      else if c = 10 then [92, 110]
      else if c = 13 then [92, 114]
      else if c = 9 then [92, 116]
      else if c = 12 then [92, 102]
      else if c = 8 then [92, 98]
      else if c < 32 then escape_u c
      else if ensure_ascii \<and> 127 \<le> c then
        (if c < 65536 then escape_u c
         else escape_u (55296 + (c - 65536) div 1024) @ escape_u (56320 + (c - 65536) mod 1024))
      else [c])"

definition quote_str :: "bool \<Rightarrow> pystr \<Rightarrow> pystr" where
  "quote_str ensure_ascii s = [34] @ concat (map (escape_char ensure_ascii) s) @ [34]"

fun joined :: "pystr \<Rightarrow> pystr list \<Rightarrow> pystr" where
  "joined sep [] = []"
| "joined sep [x] = x"
| "joined sep (x # y # zs) = x @ sep @ joined sep (y # zs)"

definition newline_indent :: "nat option \<Rightarrow> nat \<Rightarrow> pystr" where
  "newline_indent indent level = (case indent of None \<Rightarrow> [] | Some n \<Rightarrow> 10 # replicate (n * level) 32)"

definition item_separator :: "nat option \<Rightarrow> nat \<Rightarrow> pystr" where
  "item_separator indent level = (case indent of None \<Rightarrow> [44, 32] | Some n \<Rightarrow> 44 # newline_indent indent level)"

definition bracketed :: "nat option \<Rightarrow> nat \<Rightarrow> nat \<Rightarrow> nat \<Rightarrow> pystr list \<Rightarrow> pystr" where
  "bracketed indent level opening closing items =
     (if items = [] then [opening, closing]
      else [opening] @ newline_indent indent (Suc level) @
        joined (item_separator indent (Suc level)) items @
        newline_indent indent level @ [closing])"

fun dumps_at :: "bool \<Rightarrow> nat option \<Rightarrow> nat \<Rightarrow> json \<Rightarrow> pystr" where
  "dumps_at ascii indent level JNull = lit ''null''"
| "dumps_at ascii indent level (JBool b) = (if b then lit ''true'' else lit ''false'')"
| "dumps_at ascii indent level (JInt i) = int_str i"
| "dumps_at ascii indent level (JFloat t) = t"
| "dumps_at ascii indent level (JStr s) = quote_str ascii s"
| "dumps_at ascii indent level (JList xs) =
     bracketed indent level 91 93 (map (\<lambda>x. dumps_at ascii indent (Suc level) x) xs)"
| "dumps_at ascii indent level (JObj kvs) =
     bracketed indent level 123 125
       (map (\<lambda>(k, v). quote_str ascii k @ [58, 32] @ dumps_at ascii indent (Suc level) v) kvs)"

definition dumps :: "bool \<Rightarrow> nat option \<Rightarrow> json \<Rightarrow> pystr" where
  "dumps ensure_ascii indent v = dumps_at ensure_ascii indent 0 v"

section \<open>Reading\<close>

definition decode_error :: "string \<Rightarrow> error" where
  "decode_error msg = JSONDecodeError (lit msg)"

definition is_json_space :: "nat \<Rightarrow> bool" where
  "is_json_space c \<longleftrightarrow> c = 32 \<or> c = 9 \<or> c = 10 \<or> c = 13"

abbreviation skip_space :: "pystr \<Rightarrow> pystr" where
  "skip_space \<equiv> dropWhile is_json_space"

definition hex_value :: "nat \<Rightarrow> nat option" where
  "hex_value c =
     (if 48 \<le> c \<and> c \<le> 57 then Some (c - 48)
      else if 97 \<le> c \<and> c \<le> 102 then Some (c - 87)
      else if 65 \<le> c \<and> c \<le> 70 then Some (c - 55)
      else None)"

text \<open>Four hexadecimal digits, which must not be the last characters of the document.\<close>

fun scan_hex4 :: "pystr \<Rightarrow> (nat \<times> pystr) option" where
  "scan_hex4 (a # b # c # d # r) =
     (case (hex_value a, hex_value b, hex_value c, hex_value d) of
        (Some w, Some x, Some y, Some z) \<Rightarrow> Some (w * 4096 + x * 256 + y * 16 + z, r)
      | _ \<Rightarrow> None)"
| "scan_hex4 _ = None"

definition invalid_u :: error where
  "invalid_u = JSONDecodeError (lit ''Invalid '' @ [92] @ lit ''uXXXX escape'')"

text \<open>What follows \<open>\u\<close>: one code unit, or a surrogate pair.\<close>

definition scan_u_escape :: "pystr \<Rightarrow> error + (nat \<times> pystr)" where
  "scan_u_escape r =
     (if length r \<le> 4 then Inl invalid_u
      else case scan_hex4 r of
        None \<Rightarrow> Inl invalid_u
      | Some (c, r1) \<Rightarrow>
          (if 55296 \<le> c \<and> c < 56320 \<and> 6 < length r1 \<and> take 2 r1 = [92, 117] then
             (case scan_hex4 (drop 2 r1) of
                None \<Rightarrow> Inl invalid_u
              | Some (c2, r2) \<Rightarrow>
                  if 56320 \<le> c2 \<and> c2 < 57344
                  then Inr (65536 + (c - 55296) * 1024 + (c2 - 56320), r2)
                  else Inr (c, r1))
           else Inr (c, r1)))"

definition simple_escape :: "nat \<Rightarrow> nat option" where
  "simple_escape c =
     (if c = 34 \<or> c = 92 \<or> c = 47 then Some c
      else if c = 98 then Some 8 else if c = 102 then Some 12 else if c = 110 then Some 10
      else if c = 114 then Some 13 else if c = 116 then Some 9 else None)"

text \<open>\<open>scanstring\<close>, from after the opening quote.\<close>

lemma scan_hex4_shorter: "scan_hex4 s = Some (c, r) \<Longrightarrow> length r < length s"
  by (cases s rule: scan_hex4.cases) (auto split: option.splits)

lemma scan_u_escape_shorter: "scan_u_escape s = Inr (c, r) \<Longrightarrow> length r < length s"
  by (auto simp: scan_u_escape_def dest!: scan_hex4_shorter split: if_splits option.splits)

function scan_string :: "pystr \<Rightarrow> error + (pystr \<times> pystr)" where
  "scan_string s =
     (case s of
        [] \<Rightarrow> Inl (decode_error ''Unterminated string starting at'')
      | c # r \<Rightarrow>
          if c = 34 then Inr ([], r)
          else if c = 92 then
            (case r of
               [] \<Rightarrow> Inl (decode_error ''Unterminated string starting at'')
             | e # r1 \<Rightarrow>
                 if e = 117 then
                   (case scan_u_escape r1 of
                      Inl err \<Rightarrow> Inl err
                    | Inr (x, r2) \<Rightarrow> bindE (scan_string r2) (\<lambda>(t, r3). Inr (x # t, r3)))
                 else
                   (case simple_escape e of
                      None \<Rightarrow> Inl (JSONDecodeError (lit ''Invalid '' @ [92] @ lit ''escape''))
                    | Some x \<Rightarrow> bindE (scan_string r1) (\<lambda>(t, r3). Inr (x # t, r3))))
          else if c < 32 then Inl (decode_error ''Invalid control character at'')
          else bindE (scan_string r) (\<lambda>(t, r3). Inr (c # t, r3)))"
  by pat_completeness auto
termination
  by (relation "measure length") (auto dest: scan_u_escape_shorter)

declare scan_string.simps [simp del]

definition is_digit :: "nat \<Rightarrow> bool" where
  "is_digit c \<longleftrightarrow> 48 \<le> c \<and> c \<le> 57"

text \<open>The limit of \<open>int()\<close> on decimal digits.\<close>

definition INT_MAX_STR_DIGITS :: nat where "INT_MAX_STR_DIGITS = 4300"

definition digits_int :: "pystr \<Rightarrow> int" where
  "digits_int ds = foldl (\<lambda>v c. v * 10 + int (c - 48)) 0 ds"

definition int_of_literal :: "bool \<Rightarrow> pystr \<Rightarrow> error + json" where
  "int_of_literal negative ds =
     (if length ds > INT_MAX_STR_DIGITS
      then Inl (ValueError (lit ''Exceeds the limit (4300 digits) for integer string conversion: value has '' @
             nat_str (length ds) @ lit '' digits; use sys.set_int_max_str_digits() to increase the limit''))
      else Inr (JInt (if negative then - digits_int ds else digits_int ds)))"

text \<open>The fraction and exponent after the integer digits, when they are well formed.\<close>

definition scan_fraction :: "pystr \<Rightarrow> pystr \<times> pystr" where
  "scan_fraction s =
     (case s of
        p # d # r \<Rightarrow>
          if p = 46 \<and> is_digit d then (p # takeWhile is_digit (d # r), dropWhile is_digit (d # r)) else ([], s)
      | _ \<Rightarrow> ([], s))"

definition scan_exponent :: "pystr \<Rightarrow> pystr \<times> pystr" where
  "scan_exponent s =
     (case s of
        [] \<Rightarrow> ([], s)
      | e # r \<Rightarrow>
          if e = 101 \<or> e = 69 then
            (let sg = (case r of c # _ \<Rightarrow> if c = 43 \<or> c = 45 then [c] else [] | [] \<Rightarrow> []);
                 r' = drop (length sg) r; ds = takeWhile is_digit r'
             in if ds = [] then ([], s) else (e # sg @ ds, dropWhile is_digit r'))
          else ([], s))"

definition expecting_value :: error where
  "expecting_value = decode_error ''Expecting value''"

definition scan_number :: "pystr \<Rightarrow> error + (json \<times> pystr)" where
  "scan_number s =
     (let negative = (case s of c # _ \<Rightarrow> c = 45 | [] \<Rightarrow> False);
          r = (if negative then tl s else s)
      in case r of
           [] \<Rightarrow> Inl expecting_value
         | c # r' \<Rightarrow>
             if \<not> is_digit c then Inl expecting_value
             else let ds = (if c = 48 then [c] else takeWhile is_digit r);
                      r1 = drop (length ds) r; (frac, r2) = scan_fraction r1; (expo, r3) = scan_exponent r2
               in if frac = [] \<and> expo = [] then bindE (int_of_literal negative ds) (\<lambda>v. Inr (v, r3))
                  else Inr (JFloat ((if negative then [45] else []) @ ds @ frac @ expo), r3))"


type_synonym scanner = "pystr \<Rightarrow> error + (json \<times> pystr)"

text \<open>
  The loops over the members of a container, from the first member on, given the scanner of a
  member.  A member consumes input, so the guard on the lengths, which makes the loops
  evidently terminating, always holds (\<open>scan_once_shorter\<close>).
\<close>

function scan_items :: "scanner \<Rightarrow> pystr \<Rightarrow> error + (json list \<times> pystr)" where
  "scan_items member s =
     bindE (member s) (\<lambda>(v, r0).
       let r = skip_space r0 in
       case r of
         [] \<Rightarrow> Inl (decode_error (''Expecting '' @ [CHR 0x27] @ '','' @ [CHR 0x27] @ '' delimiter''))
       | c # r1 \<Rightarrow>
           if c = 93 then Inr ([v], r1)
           else if c \<noteq> 44 then
             Inl (decode_error (''Expecting '' @ [CHR 0x27] @ '','' @ [CHR 0x27] @ '' delimiter''))
           else let r2 = skip_space r1 in
             if (case r2 of d # _ \<Rightarrow> d = 93 | [] \<Rightarrow> False)
             then Inl (decode_error ''Illegal trailing comma before end of array'')
             else if length r2 < length s
             then bindE (scan_items member r2) (\<lambda>(vs, r3). Inr (v # vs, r3))
             else Inl expecting_value)"
  by pat_completeness auto
termination by (relation "measure (length \<circ> snd)") auto

declare scan_items.simps [simp del]

definition dict_set :: "pystr \<Rightarrow> json \<Rightarrow> (pystr \<times> json) list \<Rightarrow> (pystr \<times> json) list" where
  "dict_set k v kvs =
     (if k \<in> fst ` set kvs then map (\<lambda>(k', v'). if k' = k then (k', v) else (k', v')) kvs else kvs @ [(k, v)])"

definition skip_colon :: "pystr \<Rightarrow> error + pystr" where
  "skip_colon s =
     (case skip_space s of
        c # r \<Rightarrow> if c = 58 then Inr (skip_space r)
          else Inl (decode_error (''Expecting '' @ [CHR 0x27] @ '':'' @ [CHR 0x27] @ '' delimiter''))
      | [] \<Rightarrow> Inl (decode_error (''Expecting '' @ [CHR 0x27] @ '':'' @ [CHR 0x27] @ '' delimiter'')))"

function scan_members :: "scanner \<Rightarrow> (pystr \<times> json) list \<Rightarrow> pystr \<Rightarrow> error + ((pystr \<times> json) list \<times> pystr)" where
  "scan_members member kvs s =
     (case s of
        [] \<Rightarrow> Inl (decode_error ''Expecting property name enclosed in double quotes'')
      | q # s1 \<Rightarrow>
          if q \<noteq> 34 then Inl (decode_error ''Expecting property name enclosed in double quotes'')
          else bindE (scan_string s1) (\<lambda>(k, s2). bindE (skip_colon s2) (\<lambda>s3. bindE (member s3) (\<lambda>(v, r0).
            let r = skip_space r0 in
            case r of
              [] \<Rightarrow> Inl (decode_error (''Expecting '' @ [CHR 0x27] @ '','' @ [CHR 0x27] @ '' delimiter''))
            | c # r1 \<Rightarrow>
                if c = 125 then Inr (dict_set k v kvs, r1)
                else if c \<noteq> 44 then
                  Inl (decode_error (''Expecting '' @ [CHR 0x27] @ '','' @ [CHR 0x27] @ '' delimiter''))
                else let r2 = skip_space r1 in
                  if (case r2 of d # _ \<Rightarrow> d = 125 | [] \<Rightarrow> False)
                  then Inl (decode_error ''Illegal trailing comma before end of object'')
                  else if length r2 < length s then scan_members member (dict_set k v kvs) r2
                  else Inl expecting_value))))"
  by pat_completeness auto
termination by (relation "measure (length \<circ> snd \<circ> snd)") auto

declare scan_members.simps [simp del]

definition starts_with :: "string \<Rightarrow> pystr \<Rightarrow> bool" where
  "starts_with w s \<longleftrightarrow> take (length w) s = lit w"

text \<open>
  \<open>scan_once\<close>: \<open>nested\<close> is the scanner of the members of a container, or nothing when no
  further container may be opened.
\<close>

definition scan_value :: "scanner option \<Rightarrow> scanner" where
  "scan_value nested s =
     (case s of
        [] \<Rightarrow> Inl expecting_value
      | c # r \<Rightarrow>
          if c = 34 then bindE (scan_string r) (\<lambda>(t, r'). Inr (JStr t, r'))
          else if c = 123 then
            (case nested of
               None \<Rightarrow> Inl RecursionError
             | Some member \<Rightarrow>
                 (case skip_space r of
                    d # r' \<Rightarrow> if d = 125 then Inr (JObj [], r')
                      else bindE (scan_members member [] (d # r')) (\<lambda>(kvs, r''). Inr (JObj kvs, r''))
                  | [] \<Rightarrow> Inl (decode_error ''Expecting property name enclosed in double quotes'')))
          else if c = 91 then
            (case nested of
               None \<Rightarrow> Inl RecursionError
             | Some member \<Rightarrow>
                 (case skip_space r of
                    d # r' \<Rightarrow> if d = 93 then Inr (JList [], r')
                      else bindE (scan_items member (d # r')) (\<lambda>(vs, r''). Inr (JList vs, r''))
                  | [] \<Rightarrow> Inl expecting_value))
          else if starts_with ''null'' s then Inr (JNull, drop 4 s)
          else if starts_with ''true'' s then Inr (JBool True, drop 4 s)
          else if starts_with ''false'' s then Inr (JBool False, drop 5 s)
          else if starts_with ''NaN'' s then Inr (JFloat (lit ''NaN''), drop 3 s)
          else if starts_with ''Infinity'' s then Inr (JFloat (lit ''Infinity''), drop 8 s)
          else if starts_with ''-Infinity'' s then Inr (JFloat (lit ''-Infinity''), drop 9 s)
          else scan_number s)"

primrec scan_once :: "nat \<Rightarrow> scanner" where
  "scan_once 0 = scan_value None"
| "scan_once (Suc depth) = scan_value (Some (scan_once depth))"

definition loads :: "nat \<Rightarrow> pystr \<Rightarrow> error + json" where
  "loads max_depth s =
     (if take 1 s = [65279] then Inl (decode_error ''Unexpected UTF-8 BOM (decode using utf-8-sig)'')
      else bindE (scan_once max_depth (skip_space s)) (\<lambda>(v, r).
        if skip_space r \<noteq> [] then Inl (decode_error ''Extra data'') else Inr v))"

section \<open>Scanners consume input\<close>

lemma length_skip_space: "length (skip_space s) \<le> length s"
  by (rule length_dropWhile_le)

lemma scan_string_shorter: "scan_string s = Inr (t, r) \<Longrightarrow> length r < length s"
proof (induction s arbitrary: t r rule: measure_induct_rule [where f = length])
  case (less s)
  have rest: "length y < length s \<longrightarrow> length r < length s" if "scan_string y = Inr (u, r)" for y u
    using less.IH [OF _ that] by auto
  show ?case
  proof (cases s)
    case Nil
    with less.prems show ?thesis by (simp add: scan_string.simps)
  next
    case (Cons c s1)
    show ?thesis
    proof (cases "c = 92 \<and> (\<exists>s2. s1 = 117 # s2)")
      case True
      then obtain s2 x s3 u where s: "s = 92 # 117 # s2" and x: "scan_u_escape s2 = Inr (x, s3)"
        and "scan_string s3 = Inr (u, r)"
        using less.prems Cons by (subst (asm) scan_string.simps) (auto simp: bindE_eq_Inr split: sum.splits)
      with rest [of s3 u] scan_u_escape_shorter [OF x] show ?thesis by simp
    next
      case False
      with less.prems Cons show ?thesis
        by (subst (asm) scan_string.simps)
          (auto simp: bindE_eq_Inr split: list.splits if_splits option.splits dest: rest)
    qed
  qed
qed

lemma scan_fraction_le: "length (snd (scan_fraction x)) \<le> length x"
  by (auto simp: scan_fraction_def length_dropWhile_le le_SucI split: list.split)

lemma scan_exponent_le: "length (snd (scan_exponent x)) \<le> length x"
  by (auto simp: scan_exponent_def Let_def length_dropWhile_le le_SucI split: list.split)

lemma scan_number_shorter:
  assumes run: "scan_number s = Inr (v, r)"
  shows "length r < length s"
proof -
  define n where "n \<longleftrightarrow> (case s of c # _ \<Rightarrow> c = 45 | [] \<Rightarrow> False)"
  define r0 where "r0 = (if n then tl s else s)"
  have parts: "(case r0 of [] \<Rightarrow> Inl expecting_value
         | c # r' \<Rightarrow>
             if \<not> is_digit c then Inl expecting_value
             else let ds = (if c = 48 then [c] else takeWhile is_digit r0);
                      r1 = drop (length ds) r0; (frac, r2) = scan_fraction r1; (expo, r3) = scan_exponent r2
               in if frac = [] \<and> expo = [] then bindE (int_of_literal n ds) (\<lambda>v. Inr (v, r3))
                  else Inr (JFloat ((if n then [45] else []) @ ds @ frac @ expo), r3)) = Inr (v, r)"
    using run by (simp only: scan_number_def n_def r0_def Let_def)
  then obtain c r' where r0: "r0 = c # r'" "is_digit c" by (auto split: list.splits if_splits)
  define ds where "ds = (if c = 48 then [c] else takeWhile is_digit r0)"
  have "r = snd (scan_exponent (snd (scan_fraction (drop (length ds) r0))))"
    using parts r0 unfolding ds_def
    by (auto simp: Let_def bindE_eq_Inr split: prod.splits if_splits)
  moreover have "length ds > 0" using r0 by (simp add: ds_def)
  moreover have "length r0 \<le> length s" by (auto simp: r0_def)
  ultimately show ?thesis
    using scan_fraction_le [of "drop (length ds) r0"] r0
      scan_exponent_le [of "snd (scan_fraction (drop (length ds) r0))"]
    by (simp del: length_greater_0_conv)
qed

lemma skip_space_split: "skip_space s = c # r \<Longrightarrow> length r < length s"
  using length_skip_space [of s] by simp

lemma skip_colon_shorter: "skip_colon s = Inr r \<Longrightarrow> length r < length s"
proof -
  assume "skip_colon s = Inr r"
  then obtain c r' where "skip_space s = c # r'" and "r = skip_space r'"
    by (auto simp: skip_colon_def split: list.splits if_splits)
  with skip_space_split [of s c r'] length_skip_space [of r'] show "length r < length s" by simp
qed

definition shrinking :: "scanner \<Rightarrow> bool" where
  "shrinking p \<longleftrightarrow> (\<forall>s v r. p s = Inr (v, r) \<longrightarrow> length r < length s)"

lemma shrinkingD: "shrinking p \<Longrightarrow> p s = Inr (v, r) \<Longrightarrow> length r < length s"
  by (simp add: shrinking_def)

lemma scan_items_shorter:
  assumes "shrinking p" and "scan_items p s = Inr (vs, r)"
  shows "length r < length s"
  using assms(2)
proof (induction s arbitrary: vs r rule: measure_induct_rule [where f = length])
  case (less s)
  from less.prems obtain v r0 where v: "p s = Inr (v, r0)" by (subst (asm) scan_items.simps) (auto simp: bindE_eq_Inr)
  have "length r0 < length s" by (rule shrinkingD [OF assms(1) v])
  moreover have "length (skip_space r0) \<le> length r0" by (rule length_skip_space)
  moreover have rest: "length y < length s \<longrightarrow> length r < length s" if "scan_items p y = Inr (u, r)" for y u
    using less.IH [OF _ that] by auto
  ultimately show ?case
    using less.prems v
    by (subst (asm) scan_items.simps)
      (auto simp: bindE_eq_Inr Let_def split: list.splits if_splits dest: rest)
qed


lemma scan_members_shorter:
  assumes "shrinking p" and "scan_members p kvs s = Inr (out, r)"
  shows "length r < length s"
  using assms(2)
proof (induction s arbitrary: kvs out r rule: measure_induct_rule [where f = length])
  case (less s)
  obtain q s1 where s: "s = q # s1" using less.prems by (cases s) (simp_all add: scan_members.simps)
  with less.prems obtain k s2 s3 v r0 where k: "scan_string s1 = Inr (k, s2)"
    and colon: "skip_colon s2 = Inr s3" and v: "p s3 = Inr (v, r0)"
    by (subst (asm) scan_members.simps) (auto simp: bindE_eq_Inr split: if_splits)
  have "length r0 < length s3" by (rule shrinkingD [OF assms(1) v])
  moreover have "length s3 < length s2" by (rule skip_colon_shorter [OF colon])
  moreover have "length s2 < length s1" by (rule scan_string_shorter [OF k])
  moreover have "length (skip_space r0) \<le> length r0" by (rule length_skip_space)
  moreover have rest: "length y < length s \<longrightarrow> length r < length s" if "scan_members p kvs' y = Inr (u, r)" for kvs' y u
    using less.IH [OF _ that] by auto
  ultimately show ?case
    using less.prems s k colon v
    by (subst (asm) scan_members.simps)
      (auto simp: Let_def split: list.splits if_splits dest: rest)
qed

lemma shrinking_scan_value:
  assumes "\<And>p. nested = Some p \<Longrightarrow> shrinking p"
  shows "shrinking (scan_value nested)"
  unfolding shrinking_def
proof (intro allI impI)
  fix s v r
  assume run: "scan_value nested s = Inr (v, r)"
  obtain c s1 where s: "s = c # s1" using run by (cases s) (simp_all add: scan_value_def)
  consider "c = 34" | "c = 123" | "c = 91" | "c \<notin> {34, 123, 91}" by blast
  then show "length r < length s"
  proof cases
    case 1
    then show ?thesis using run s by (auto simp: scan_value_def bindE_eq_Inr dest: scan_string_shorter)
  next
    case 2
    then obtain p d s2 where p: "nested = Some p" and s2: "skip_space s1 = d # s2"
      using run s by (auto simp: scan_value_def split: option.splits list.splits)
    have "length r < length s" if "scan_members p [] (d # s2) = Inr (u, r)" for u
      using scan_members_shorter [OF assms [OF p] that] length_skip_space [of s1] s2 s by simp
    with skip_space_split [OF s2] show ?thesis
      using run 2 s p s2 by (auto simp: scan_value_def bindE_eq_Inr split: if_splits)
  next
    case 3
    then obtain p d s2 where p: "nested = Some p" and s2: "skip_space s1 = d # s2"
      using run s by (auto simp: scan_value_def split: option.splits list.splits)
    have "length r < length s" if "scan_items p (d # s2) = Inr (u, r)" for u
      using scan_items_shorter [OF assms [OF p] that] length_skip_space [of s1] s2 s by simp
    with skip_space_split [OF s2] show ?thesis
      using run 3 s p s2 by (auto simp: scan_value_def bindE_eq_Inr split: if_splits)
  next
    case 4
    then show ?thesis
      using run s
      by (auto simp: scan_value_def starts_with_def dest: scan_number_shorter split: if_splits)
  qed
qed

lemma scan_once_shorter: "shrinking (scan_once depth)"
  by (induction depth) (auto intro: shrinking_scan_value)

end
