(* ===== verification/Actions.thy ===== *)
theory Actions
  imports Events
begin

text \<open>
  The agent's proposals (\<open>actions/models.py\<close>): a closed union of seven classes.  No action
  carries a customer, a recipient or, for a refund, an order: those fields do not exist.
  \<open>action_valid\<close> are the length limits the model classes declare.
\<close>

datatype action =
    GetOrders
  | LinkOrder (link_order_id: pystr)
  | ProposeRefund (refund_amount: decimal)
  | SendReply (reply_subject: pystr) (reply_body: pystr)
  | RequestVerification
  | Escalate (escalate_reason: pystr)
  | Finish (finish_summary: pystr)

text \<open>The literal of the discriminating field \<open>action\<close>.\<close>

fun action_discriminator :: "action \<Rightarrow> pystr" where
  "action_discriminator GetOrders = lit ''get_orders''"
| "action_discriminator (LinkOrder _) = lit ''link_order''"
| "action_discriminator (ProposeRefund _) = lit ''propose_refund''"
| "action_discriminator (SendReply _ _) = lit ''send_reply''"
| "action_discriminator RequestVerification = lit ''request_verification''"
| "action_discriminator (Escalate _) = lit ''escalate''"
| "action_discriminator (Finish _) = lit ''finish''"

definition length_between :: "nat \<Rightarrow> nat \<Rightarrow> pystr \<Rightarrow> bool" where
  "length_between lo hi s \<longleftrightarrow> lo \<le> length s \<and> length s \<le> hi"

fun action_valid :: "action \<Rightarrow> bool" where
  "action_valid (LinkOrder oid) = length_between 1 ACTION_ORDER_ID_MAX_LENGTH oid"
| "action_valid (SendReply s b) =
     (length_between 1 ACTION_TEXT_FIELD_MAX_LENGTH s \<and>
      length_between 1 ACTION_TEXT_FIELD_MAX_LENGTH b)"
| "action_valid (Escalate why) = length_between 1 ACTION_TEXT_FIELD_MAX_LENGTH why"
| "action_valid (Finish summary) = length_between 1 ACTION_TEXT_FIELD_MAX_LENGTH summary"
| "action_valid _ = True"

text \<open>\<open>type(action).__name__\<close>.\<close>

fun action_class_name :: "action \<Rightarrow> pystr" where
  "action_class_name GetOrders = lit ''GetOrders''"
| "action_class_name (LinkOrder _) = lit ''LinkOrder''"
| "action_class_name (ProposeRefund _) = lit ''ProposeRefund''"
| "action_class_name (SendReply _ _) = lit ''SendReply''"
| "action_class_name RequestVerification = lit ''RequestVerification''"
| "action_class_name (Escalate _) = lit ''Escalate''"
| "action_class_name (Finish _) = lit ''Finish''"

fun is_propose_refund :: "action \<Rightarrow> bool" where
  "is_propose_refund (ProposeRefund _) = True"
| "is_propose_refund _ = False"

end
