(* ===== verification/Json_Errors.thy ===== *)
theory Json_Errors
  imports Json "HOL-Library.Sublist"
begin

text \<open>
  Why \<open>json.loads\<close> can fail.  A scanner leaves a suffix of what it read, so an error inside a
  member is an error of the document; by induction over the scanners of \<open>Json\<close> the exceptions are
  \<open>JSONDecodeError\<close>, \<open>ValueError\<close> for a run of digits beyond the limit of \<open>int()\<close>, and
  \<open>RecursionError\<close> for a document with more opening brackets than containers may be nested.
\<close>

section \<open>Scanners leave a suffix\<close>

lemma bindE_eq_Inl: "bindE r f = Inl e \<longleftrightarrow> r = Inl e \<or> (\<exists>x. r = Inr x \<and> f x = Inl e)"
  by (cases r) simp_all

lemma suffix_tail: "suffix r s \<Longrightarrow> suffix r (c # s)"
  by (simp add: suffix_ConsI)

lemmas suffix_step = suffix_order.trans suffix_tail suffix_dropWhile suffix_drop

lemma scan_hex4_suffix: "scan_hex4 s = Some (c, r) \<Longrightarrow> suffix r s"
  by (cases s rule: scan_hex4.cases) (auto simp: suffix_tail split: option.splits)

lemma scan_u_escape_suffix:
  assumes run: "scan_u_escape s = Inr (c, r)"
  shows "suffix r s"
proof -
  obtain d r1 where r1: "scan_hex4 s = Some (d, r1)"
    using run by (auto simp: scan_u_escape_def split: if_splits option.splits)
  have "suffix r r1"
    using run r1
    by (auto simp: scan_u_escape_def split: if_splits option.splits dest!: scan_hex4_suffix
        intro: suffix_order.trans [OF _ suffix_drop])
  with scan_hex4_suffix [OF r1] show ?thesis by (rule suffix_order.trans [rotated])
qed

lemma scan_string_suffix: "scan_string s = Inr (t, r) \<Longrightarrow> suffix r s"
proof (induction s arbitrary: t r rule: measure_induct_rule [where f = length])
  case (less s)
  have rest: "length y < length s \<longrightarrow> suffix r y" if "scan_string y = Inr (u, r)" for y u
    using less.IH [OF _ that] by auto
  show ?case
  proof (cases s)
    case Nil
    with less.prems show ?thesis by (simp add: scan_string.simps)
  next
    case (Cons c s1)
    show ?thesis
    proof (cases "c = 92 \<and> (\<exists>s2. s1 = 117 # s2)")
      case True
      then obtain s2 x s3 u where s: "s = 92 # 117 # s2" and x: "scan_u_escape s2 = Inr (x, s3)"
        and "scan_string s3 = Inr (u, r)"
        using less.prems Cons by (subst (asm) scan_string.simps) (auto simp: bindE_eq_Inr split: sum.splits)
      with rest [of s3 u] scan_u_escape_shorter [OF x] have "suffix r s3" by simp
      with scan_u_escape_suffix [OF x] show ?thesis unfolding s by (blast intro: suffix_tail suffix_order.trans)
    next
      case False
      with less.prems Cons show ?thesis
        by (subst (asm) scan_string.simps)
          (auto simp: bindE_eq_Inr suffix_tail split: list.splits if_splits option.splits dest: rest)
    qed
  qed
qed

lemma scan_fraction_suffix: "suffix (snd (scan_fraction x)) x"
  by (auto simp: scan_fraction_def suffix_tail suffix_dropWhile split: list.split)

lemma scan_exponent_suffix: "suffix (snd (scan_exponent x)) x"
  by (auto simp: scan_exponent_def Let_def suffix_tail suffix_drop suffix_dropWhile split: list.split
      intro!: suffix_order.trans [OF suffix_dropWhile])

lemma skip_colon_suffix: "skip_colon s = Inr r \<Longrightarrow> suffix r s"
proof -
  assume "skip_colon s = Inr r"
  then obtain c r' where "skip_space s = c # r'" and "r = skip_space r'"
    by (auto simp: skip_colon_def split: list.splits if_splits)
  then show "suffix r s"
    by (metis suffix_dropWhile suffix_order.trans suffix_tail)
qed

section \<open>The errors of numbers\<close>

definition number_start :: "pystr \<Rightarrow> pystr" where
  "number_start s = (case s of c # r \<Rightarrow> if c = 45 then r else s | [] \<Rightarrow> s)"

definition long_run :: "pystr \<Rightarrow> bool" where
  "long_run s \<longleftrightarrow> (\<exists>ds. sublist ds s \<and> list_all is_digit ds \<and> INT_MAX_STR_DIGITS < length ds)"

lemma sublist_suffix_trans: "sublist ds r \<Longrightarrow> suffix r s \<Longrightarrow> sublist ds s"
  by (metis append.assoc sublist_def suffix_def)

lemma long_run_suffix: "suffix r s \<Longrightarrow> long_run r \<Longrightarrow> long_run s"
  by (auto simp: long_run_def intro: sublist_suffix_trans)

lemma scan_number_cases:
  obtains (malformed) "scan_number s = Inl expecting_value"
  | (number) ds r v where "number_start s = ds @ r" and "ds \<noteq> []" and "list_all is_digit ds"
      and "scan_number s = Inr (v, snd (scan_exponent (snd (scan_fraction r))))"
  | (long) msg where "long_run s" and "scan_number s = Inl (ValueError msg)"
proof -
  define n where "n \<longleftrightarrow> (case s of c # _ \<Rightarrow> c = 45 | [] \<Rightarrow> False)"
  define r0 where "r0 = (if n then tl s else s)"
  have start: "number_start s = r0"
    by (simp add: number_start_def r0_def n_def split: list.split)
  have parts: "scan_number s = (case r0 of [] \<Rightarrow> Inl expecting_value
         | c # r' \<Rightarrow>
             if \<not> is_digit c then Inl expecting_value
             else let ds = (if c = 48 then [c] else takeWhile is_digit r0);
                      r1 = drop (length ds) r0; (frac, r2) = scan_fraction r1; (expo, r3) = scan_exponent r2
               in if frac = [] \<and> expo = [] then bindE (int_of_literal n ds) (\<lambda>v. Inr (v, r3))
                  else Inr (JFloat ((if n then [45] else []) @ ds @ frac @ expo), r3))"
    by (simp only: scan_number_def n_def r0_def Let_def)
  show thesis
  proof (cases "\<exists>c r'. r0 = c # r' \<and> is_digit c")
    case False
    then have "scan_number s = Inl expecting_value" unfolding parts by (auto split: list.split)
    then show thesis by (rule malformed)
  next
    case True
    then obtain c r' where r0: "r0 = c # r'" "is_digit c" by blast
    define ds where "ds = (if c = 48 then [c] else takeWhile is_digit r0)"
    have "ds = take (length ds) r0" using r0 by (simp add: ds_def takeWhile_eq_take [symmetric])
    then have ds: "r0 = ds @ drop (length ds) r0" "ds \<noteq> []" "list_all is_digit ds"
      using r0 append_take_drop_id [of "length ds" r0]
      by (auto simp: ds_def list_all_iff dest: set_takeWhileD)
    show thesis
    proof (cases "int_of_literal n ds")
      case (Inl e)
      then have big: "INT_MAX_STR_DIGITS < length ds" and e: "\<exists>msg. e = ValueError msg"
        by (auto simp: int_of_literal_def split: if_splits)
      have "sublist ds r0" using ds(1) by (metis prefixI prefix_imp_sublist)
      moreover have "suffix r0 s" by (auto simp: r0_def)
      ultimately have "long_run s" using ds(3) big by (auto simp: long_run_def intro: sublist_suffix_trans)
      moreover have "scan_number s = Inl e \<or>
          (\<exists>v. scan_number s = Inr (v, snd (scan_exponent (snd (scan_fraction (drop (length ds) r0))))))"
        unfolding parts using r0 Inl by (auto simp: ds_def [symmetric] Let_def split: prod.splits)
      ultimately show thesis using e number [OF _ ds(2,3)] ds(1) start long by metis
    next
      case (Inr v)
      then have "\<exists>v. scan_number s = Inr (v, snd (scan_exponent (snd (scan_fraction (drop (length ds) r0)))))"
        unfolding parts using r0 by (auto simp: ds_def [symmetric] Let_def split: prod.splits)
      then show thesis using number [OF _ ds(2,3)] ds(1) start by metis
    qed
  qed
qed

lemma scan_number_suffix: "scan_number s = Inr (v, r) \<Longrightarrow> suffix r s"
proof (cases s rule: scan_number_cases)
  case (number ds r' w)
  assume "scan_number s = Inr (v, r)"
  then have "r = snd (scan_exponent (snd (scan_fraction r')))" using number(4) by simp
  moreover have "suffix r' (number_start s)" unfolding number(1) by (rule suffixI) simp
  moreover have "suffix (number_start s) s" by (auto simp: number_start_def suffix_tail split: list.split)
  ultimately show ?thesis
    using scan_exponent_suffix [of "snd (scan_fraction r')"] scan_fraction_suffix [of r']
    by (meson suffix_order.trans)
qed simp_all

section \<open>The errors of a document\<close>

definition openings :: "pystr \<Rightarrow> nat" where
  "openings s = length (filter (\<lambda>c. c = 91 \<or> c = 123) s)"

definition explained :: "nat \<Rightarrow> pystr \<Rightarrow> error \<Rightarrow> bool" where
  "explained n s e \<longleftrightarrow> (\<exists>msg. e = JSONDecodeError msg) \<or> (\<exists>msg. e = ValueError msg) \<and> long_run s \<or>
     e = RecursionError \<and> n < openings s"

lemma explained_decode_error [simp]: "explained n s (decode_error msg)" "explained n s (JSONDecodeError m)"
    "explained n s expecting_value" "explained n s invalid_u"
  by (simp_all add: explained_def decode_error_def expecting_value_def invalid_u_def)

lemma openings_suffix: "suffix r s \<Longrightarrow> openings r \<le> openings s"
  by (auto simp: suffix_def openings_def)

lemma explained_suffix: "explained n r e \<Longrightarrow> suffix r s \<Longrightarrow> explained n s e"
  using openings_suffix [of r s] long_run_suffix [of r s] by (auto simp: explained_def)

lemma explained_nested:
  "explained n r e \<Longrightarrow> suffix r s \<Longrightarrow> c = 91 \<or> c = 123 \<Longrightarrow> explained (Suc n) (c # s) e"
  using openings_suffix [of r s] long_run_suffix [of r "c # s"]
  by (auto simp: explained_def openings_def suffix_tail)

lemma scan_u_escape_error: "scan_u_escape s = Inl e \<Longrightarrow> e = invalid_u"
  by (auto simp: scan_u_escape_def split: if_splits option.splits)

lemma scan_string_error: "scan_string s = Inl e \<Longrightarrow> \<exists>msg. e = JSONDecodeError msg"
proof (induction s rule: measure_induct_rule [where f = length])
  case (less s)
  have rest: "length y < length s \<longrightarrow> (\<exists>msg. e = JSONDecodeError msg)" if "scan_string y = Inl e" for y
    using less.IH [OF _ that] by blast
  have code: "scan_string y = Inl e \<longrightarrow> (\<exists>msg. e = JSONDecodeError msg)"
    if "scan_u_escape x = Inr (c, y)" "length x < length s" for x y c
    using scan_u_escape_shorter [OF that(1)] that(2) rest [of y] by simp
  show ?case
    using less.prems
    by (subst (asm) scan_string.simps)
      (auto simp: decode_error_def invalid_u_def bindE_eq_Inl
        split: list.splits if_splits option.splits sum.splits
        dest: scan_u_escape_error rest code)
qed

lemma skip_colon_error: "skip_colon s = Inl e \<Longrightarrow> \<exists>msg. e = JSONDecodeError msg"
  by (auto simp: skip_colon_def decode_error_def split: list.splits if_splits)

definition accountable :: "nat \<Rightarrow> scanner \<Rightarrow> bool" where
  "accountable n p \<longleftrightarrow> (\<forall>s. case p s of Inr (v, r) \<Rightarrow> suffix r s | Inl e \<Rightarrow> explained n s e)"

lemma accountable_suffix: "accountable n p \<Longrightarrow> p s = Inr (v, r) \<Longrightarrow> suffix r s"
  by (auto simp: accountable_def split: sum.splits prod.splits)

lemma accountable_error: "accountable n p \<Longrightarrow> p s = Inl e \<Longrightarrow> explained n s e"
  by (auto simp: accountable_def split: sum.splits)

text \<open>What is left of a member's rest after the space, a delimiter and more space.\<close>

lemma after_delimiter: "suffix r s \<Longrightarrow> skip_space r = c # r1 \<Longrightarrow> suffix r1 s \<and> suffix (skip_space r1) s"
  by (metis suffix_ConsD suffix_dropWhile suffix_order.trans)

lemma scan_items_accountable:
  assumes p: "accountable n p"
  shows "case scan_items p s of Inr (vs, r) \<Rightarrow> suffix r s | Inl e \<Rightarrow> explained n s e"
proof (induction s rule: measure_induct_rule [where f = length])
  case (less s)
  show ?case
  proof (cases "p s")
    case (Inl e)
    with accountable_error [OF p] show ?thesis by (simp add: scan_items.simps)
  next
    case (Inr w)
    obtain v r0 where v: "p s = Inr (v, r0)" using Inr by (cases w) simp
    note here = accountable_suffix [OF p v]
    show ?thesis
    proof (cases "skip_space r0")
      case Nil
      with v show ?thesis by (simp add: scan_items.simps del: dropWhile_eq_Nil_conv)
    next
      case (Cons c r1)
      note rest = after_delimiter [OF here Cons]
      show ?thesis
        using v Cons rest less.IH [of "skip_space r1"]
        by (subst scan_items.simps)
          (auto simp: Let_def bindE_def split: sum.splits intro: suffix_order.trans explained_suffix)
    qed
  qed
qed

lemma scan_members_accountable:
  assumes p: "accountable n p"
  shows "case scan_members p kvs s of Inr (out, r) \<Rightarrow> suffix r s | Inl e \<Rightarrow> explained n s e"
proof (induction s arbitrary: kvs rule: measure_induct_rule [where f = length])
  case (less s)
  show ?case
  proof (cases "\<exists>s1 k s2 s3 v r0 c r1. s = 34 # s1 \<and> scan_string s1 = Inr (k, s2) \<and> skip_colon s2 = Inr s3 \<and>
      p s3 = Inr (v, r0) \<and> skip_space r0 = c # r1")
    case False
    have "explained n s e" if "s = 34 # s1" "scan_string s1 = Inr (k, s2)" "skip_colon s2 = Inr s3" "p s3 = Inl e"
      for s1 k s2 s3 e
      using accountable_error [OF p that(4)] scan_string_suffix [OF that(2)] skip_colon_suffix [OF that(3)] that(1)
      by (blast intro: explained_suffix suffix_order.trans suffix_tail)
    with False show ?thesis
      by (subst scan_members.simps)
        (auto simp: bindE_def explained_def decode_error_def Let_def split: list.split sum.split
          dest!: scan_string_error skip_colon_error)
  next
    case True
    then obtain s1 k s2 s3 v r0 c r1 where s: "s = 34 # s1" and k: "scan_string s1 = Inr (k, s2)"
      and colon: "skip_colon s2 = Inr s3" and v: "p s3 = Inr (v, r0)" and r0: "skip_space r0 = c # r1" by blast
    have "suffix r0 s"
      using accountable_suffix [OF p v] scan_string_suffix [OF k] skip_colon_suffix [OF colon] s
      by (blast intro: suffix_order.trans suffix_tail)
    note rest = after_delimiter [OF this r0]
    show ?thesis
      using s k colon v r0 rest less.IH [of "skip_space r1" "dict_set k v kvs"]
      by (subst scan_members.simps)
        (auto simp: Let_def split: sum.splits intro: suffix_order.trans explained_suffix)
  qed
qed

lemma scan_number_accountable: "case scan_number s of Inr (v, r) \<Rightarrow> suffix r s | Inl e \<Rightarrow> explained n s e"
proof (cases s rule: scan_number_cases)
  case (number ds r v)
  with scan_number_suffix [OF number(4)] show ?thesis by simp
next
  case (long msg)
  then show ?thesis by (auto simp: explained_def)
qed simp

text \<open>A value that is no container: the nesting is not touched.\<close>

lemma scan_flat_accountable:
  assumes "s = [] \<or> hd s \<notin> {123, 91}"
  shows "case scan_value nested s of Inr (v, r) \<Rightarrow> suffix r s | Inl e \<Rightarrow> explained n s e"
proof (cases s)
  case (Cons c s1)
  show ?thesis
  proof (cases "c = 34")
    case True
    with Cons show ?thesis
      by (cases "scan_string s1")
        (auto simp: scan_value_def explained_def suffix_tail dest: scan_string_error scan_string_suffix)
  next
    case False
    with Cons assms scan_number_accountable [where s = s and n = n] show ?thesis
      by (simp add: scan_value_def suffix_drop suffix_tail)
  qed
qed (simp add: scan_value_def)

lemma scan_container_accountable:
  assumes nested: "\<And>p. nested = Some p \<Longrightarrow> \<exists>m. n = Suc m \<and> accountable m p" and "nested = None \<Longrightarrow> n = 0"
    and c: "c = 123 \<or> c = 91"
  shows "case scan_value nested (c # s) of Inr (v, r) \<Rightarrow> suffix r (c # s) | Inl e \<Rightarrow> explained n (c # s) e"
proof (cases nested)
  case None
  with assms show ?thesis by (auto simp: scan_value_def explained_def openings_def)
next
  case (Some p)
  then obtain m where n: "n = Suc m" and p: "accountable m p" using nested by blast
  show ?thesis
  proof (cases "skip_space s")
    case Nil
    with c Some show ?thesis by (auto simp: scan_value_def simp del: dropWhile_eq_Nil_conv)
  next
    case (Cons d r)
    have inner: "suffix (d # r) s" unfolding Cons [symmetric] by (rule suffix_dropWhile)
    then have r: "suffix r (c # s)" by (blast intro: suffix_tail suffix_ConsD)
    have within: "suffix t (c # s)" if "suffix t (d # r)" for t
      using that inner by (blast intro: suffix_tail suffix_order.trans)
    have failed: "explained n (c # s) e" if "explained m (d # r) e" for e
      unfolding n using that inner c by (rule_tac explained_nested) auto
    show ?thesis
    proof (cases "c = 123")
      case True
      with Some Cons r within failed scan_members_accountable [OF p, where kvs = "[]" and s = "d # r"]
      show ?thesis by (simp add: scan_value_def bindE_def split: sum.splits prod.splits)
    next
      case False
      with c Some Cons r within failed scan_items_accountable [OF p, where s = "d # r"]
      show ?thesis by (simp add: scan_value_def bindE_def split: sum.splits prod.splits)
    qed
  qed
qed

lemma scan_value_accountable:
  assumes nested: "\<And>p. nested = Some p \<Longrightarrow> \<exists>m. n = Suc m \<and> accountable m p" and none: "nested = None \<Longrightarrow> n = 0"
  shows "accountable n (scan_value nested)"
  unfolding accountable_def
proof
  fix s
  show "case scan_value nested s of Inr (v, r) \<Rightarrow> suffix r s | Inl e \<Rightarrow> explained n s e"
  proof (cases "s = [] \<or> hd s \<notin> {123, 91}")
    case True
    then show ?thesis by (rule scan_flat_accountable)
  next
    case False
    then obtain c r where "s = c # r" "c = 123 \<or> c = 91" by (cases s) auto
    with scan_container_accountable [where nested = nested and n = n and c = c and s = r] nested none
    show ?thesis by blast
  qed
qed

lemma scan_once_accountable: "accountable n (scan_once n)"
  by (induction n) (auto intro!: scan_value_accountable)

lemma loads_error:
  assumes "loads n s = Inl e"
  shows "(\<exists>msg. e = JSONDecodeError msg) \<or>
    (\<exists>msg. e = ValueError msg) \<and> (\<exists>ds. sublist ds s \<and> list_all is_digit ds \<and> INT_MAX_STR_DIGITS < length ds) \<or>
    e = RecursionError \<and> n < length (filter (\<lambda>c. c = 91 \<or> c = 123) s)"
proof -
  have "explained n s e"
  proof (cases "scan_once n (skip_space s)")
    case (Inl e')
    have "explained n (skip_space s) e'" by (rule accountable_error [OF scan_once_accountable Inl])
    then have "explained n s e'" using suffix_dropWhile by (rule explained_suffix)
    with assms Inl show ?thesis by (auto simp: loads_def split: if_splits)
  next
    case (Inr w)
    with assms show ?thesis by (auto simp: loads_def split: if_splits prod.splits)
  qed
  then show ?thesis by (simp add: explained_def long_run_def openings_def)
qed

end
