(* ===== verification/Json_Roundtrip.thy ===== *)
theory Json_Roundtrip
  imports Json
begin

text \<open>
  Reading back what was written: for a document without floats, with distinct keys, text free of
  surrogates and integers within the digit limit, \<open>json.loads(json.dumps(v))\<close> is \<open>v\<close>, with and
  without \<open>ensure_ascii\<close>.
\<close>

section \<open>Strings\<close>

definition scalar :: "nat \<Rightarrow> bool" where
  "scalar c \<longleftrightarrow> c < 1114112 \<and> \<not> (55296 \<le> c \<and> c < 57344)"

lemma hex_value_digit: "d < 16 \<Longrightarrow> hex_value (hex_digit d) = Some d"
  by (auto simp: hex_value_def hex_digit_def)

lemma hex4_digits: "n < 65536 \<Longrightarrow>
  n div 4096 mod 16 * 4096 + n div 256 mod 16 * 256 + n div 16 mod 16 * 16 + n mod 16 = (n::nat)"
proof -
  assume n: "n < 65536"
  have "n div 256 = n div 16 div 16" and "n div 4096 = n div 256 div 16"
    by (simp_all add: div_mult2_eq [symmetric])
  moreover have "n div 16 * 16 + n mod 16 = n" "n div 16 div 16 * 16 + n div 16 mod 16 = n div 16"
    "n div 256 div 16 * 16 + n div 256 mod 16 = n div 256" by simp_all
  moreover have "n div 4096 mod 16 = n div 4096" using n by simp
  ultimately show ?thesis by linarith
qed

lemma scan_hex4_hex4: "n < 65536 \<Longrightarrow> scan_hex4 (hex4 n @ r) = Some (n, r)"
  using hex4_digits [of n] by (simp add: hex4_def hex_value_digit)

lemma length_hex4 [simp]: "length (hex4 n) = 4"
  by (simp add: hex4_def)

lemma scan_u_plain:
  assumes "n < 65536" and "\<not> (55296 \<le> n \<and> n < 56320)" and "t \<noteq> []"
  shows "scan_u_escape (hex4 n @ t) = Inr (n, t)"
  using assms by (auto simp: scan_u_escape_def scan_hex4_hex4)

lemma scan_u_pair:
  assumes "65536 \<le> c" and "c < 1114112" and "t \<noteq> []"
  shows "scan_u_escape (hex4 (55296 + (c - 65536) div 1024) @ escape_u (56320 + (c - 65536) mod 1024) @ t) = Inr (c, t)"
proof -
  define h where "h = 55296 + (c - 65536) div 1024"
  define l where "l = 56320 + (c - 65536) mod 1024"
  have h: "55296 \<le> h" "h < 56320" using assms by (simp_all add: h_def)
  have l: "56320 \<le> l" "l < 57344" by (simp_all add: l_def)
  have "(c - 65536) div 1024 * 1024 + (c - 65536) mod 1024 = c - 65536" by simp
  then have c: "65536 + (h - 55296) * 1024 + (l - 56320) = c" using assms(1) by (simp add: h_def l_def)
  have high: "scan_hex4 (hex4 h @ escape_u l @ t) = Some (h, escape_u l @ t)"
    using h by (intro scan_hex4_hex4) simp
  have low: "scan_hex4 (hex4 l @ t) = Some (l, t)" using l by (intro scan_hex4_hex4) simp
  show ?thesis
    unfolding h_def [symmetric] l_def [symmetric]
    using high low h l c assms(3) by (simp add: scan_u_escape_def escape_u_def)
qed

lemma scan_string_escape:
  assumes "scalar c" and "t \<noteq> []"
  shows "scan_string (escape_char a c @ t) = bindE (scan_string t) (\<lambda>(u, r). Inr (c # u, r))"
proof -
  have special: "scan_string (92 # e # t) = bindE (scan_string t) (\<lambda>(u, r). Inr (c # u, r))"
    if "simple_escape e = Some c" "e \<noteq> 117" for e
    using that by (subst scan_string.simps) simp
  have unit: "scan_string (escape_u c @ t) = bindE (scan_string t) (\<lambda>(u, r). Inr (c # u, r))"
    if "c < 65536"
  proof -
    have "\<not> (55296 \<le> c \<and> c < 56320)" using assms(1) by (auto simp: scalar_def)
    with scan_u_plain [OF that _ assms(2)] show ?thesis
      by (subst scan_string.simps) (simp add: escape_u_def)
  qed
  have pair: "scan_string (escape_u (55296 + (c - 65536) div 1024) @ escape_u (56320 + (c - 65536) mod 1024) @ t) =
      bindE (scan_string t) (\<lambda>(u, r). Inr (c # u, r))" if "65536 \<le> c"
    using scan_u_pair [OF that _ assms(2)] assms(1)
    by (subst scan_string.simps) (simp add: escape_u_def [of "55296 + _"] scalar_def)
  have raw: "scan_string (c # t) = bindE (scan_string t) (\<lambda>(u, r). Inr (c # u, r))"
    if "c \<noteq> 34" "c \<noteq> 92" "32 \<le> c"
    using that by (subst scan_string.simps) simp
  show ?thesis
    using special unit pair raw by (simp add: escape_char_def simple_escape_def)
qed

lemma scan_quoted:
  assumes "list_all scalar s"
  shows "scan_string (concat (map (escape_char a) s) @ 34 # r) = Inr (s, r)"
  using assms
proof (induction s)
  case Nil
  show ?case by (subst scan_string.simps) simp
next
  case (Cons c s)
  then show ?case
    using scan_string_escape [of c "concat (map (escape_char a) s) @ 34 # r" a] by simp
qed

section \<open>Numbers\<close>

text \<open>What may follow a value inside a document.\<close>

definition delimited :: "pystr \<Rightarrow> bool" where
  "delimited r \<longleftrightarrow> (case r of [] \<Rightarrow> True | c # _ \<Rightarrow> c = 44 \<or> c = 93 \<or> c = 125)"

lemma delimited_simps [simp]:
  "delimited []" "delimited (44 # r)" "delimited (93 # r)" "delimited (125 # r)"
  by (simp_all add: delimited_def)

lemma nat_digits_less: "d \<in> set (nat_digits n) \<Longrightarrow> d < 10"
proof (induction n rule: nat_digits.induct)
  case (1 n)
  then show ?case by (subst (asm) (2) nat_digits.simps) (auto split: if_splits)
qed

lemma nat_digits_hd: "n > 0 \<Longrightarrow> hd (nat_digits n) > 0"
proof (induction n rule: nat_digits.induct)
  case (1 n)
  show ?case
  proof (cases "n < 10")
    case True
    with 1 show ?thesis by (subst nat_digits.simps) simp
  next
    case False
    with 1 show ?thesis by (subst nat_digits.simps) (simp add: hd_append)
  qed
qed

lemma digits_int_nat_str: "digits_int (nat_str n) = int n"
proof -
  have "foldl (\<lambda>v c. v * 10 + int (c - 48)) (int m) (map (\<lambda>d. 48 + d) ds) =
      int (foldl (\<lambda>a d. 10 * a + d) m ds)" for m ds
  proof (induction ds arbitrary: m)
    case (Cons d ds)
    show ?case using Cons [of "10 * m + d"] by (simp add: mult.commute)
  qed simp
  from this [of 0 "nat_digits n"] show ?thesis by (simp add: digits_int_def nat_str_def)
qed

lemma scan_nat_str:
  assumes "delimited r" and "length (nat_str n) \<le> INT_MAX_STR_DIGITS"
  shows "scan_number (nat_str n @ r) = Inr (JInt (int n), r)"
    and "n > 0 \<Longrightarrow> scan_number (45 # nat_str n @ r) = Inr (JInt (- int n), r)"
proof -
  obtain d ds where ds: "nat_str n = d # ds" by (cases "nat_str n") (simp_all add: nat_str_def)
  have digits: "\<forall>c\<in>set (nat_str n). is_digit c"
    by (auto simp: nat_str_def is_digit_def dest: nat_digits_less)
  have stop: "takeWhile is_digit r = []" "scan_fraction r = ([], r)" "scan_exponent r = ([], r)"
    using assms(1)
    by (auto simp: delimited_def is_digit_def scan_fraction_def scan_exponent_def split: list.splits)
  have take: "(if d = 48 then [d] else takeWhile is_digit (nat_str n @ r)) = nat_str n"
  proof (cases "n = 0")
    case True
    then show ?thesis using ds by (simp add: nat_str_def nat_digits.simps)
  next
    case False
    then have "d \<noteq> 48" using nat_digits_hd [of n] ds by (auto simp: nat_str_def)
    with digits stop show ?thesis by (simp add: takeWhile_append)
  qed
  have first: "is_digit d" "d \<noteq> 45" using digits ds by (auto simp: is_digit_def)
  have drop: "drop (length (nat_str n)) (nat_str n @ r) = r" by simp
  have core: "(case nat_str n @ r of [] \<Rightarrow> Inl expecting_value
         | c # r' \<Rightarrow>
             if \<not> is_digit c then Inl expecting_value
             else let ds = (if c = 48 then [c] else takeWhile is_digit (nat_str n @ r));
                      r1 = drop (length ds) (nat_str n @ r); (frac, r2) = scan_fraction r1; (expo, r3) = scan_exponent r2
               in if frac = [] \<and> expo = [] then bindE (int_of_literal b ds) (\<lambda>v. Inr (v, r3))
                  else Inr (JFloat ((if b then [45] else []) @ ds @ frac @ expo), r3)) =
      Inr (JInt (if b then - int n else int n), r)" for b
    using first assms(2) take drop stop
    by (simp add: ds Let_def int_of_literal_def digits_int_nat_str [of n, unfolded ds])
  show "scan_number (nat_str n @ r) = Inr (JInt (int n), r)"
  proof -
    have "(case nat_str n @ r of [] \<Rightarrow> False | c # _ \<Rightarrow> c = 45) = False" using first by (simp add: ds)
    with core [of False] show ?thesis by (simp only: scan_number_def Let_def if_False)
  qed
  show "scan_number (45 # nat_str n @ r) = Inr (JInt (- int n), r)"
    using core [of True] by (simp only: scan_number_def Let_def if_True list.case list.sel simp_thms)
qed


section \<open>Documents\<close>

fun json_depth :: "json \<Rightarrow> nat" where
  "json_depth (JList xs) = Suc (foldr max (map json_depth xs) 0)"
| "json_depth (JObj kvs) = Suc (foldr max (map (\<lambda>(k, v). json_depth v) kvs) 0)"
| "json_depth _ = 0"

fun json_ok :: "json \<Rightarrow> bool" where
  "json_ok (JInt i) \<longleftrightarrow> length (nat_str (nat \<bar>i\<bar>)) \<le> INT_MAX_STR_DIGITS"
| "json_ok (JFloat _) \<longleftrightarrow> False"
| "json_ok (JStr s) \<longleftrightarrow> list_all scalar s"
| "json_ok (JList xs) \<longleftrightarrow> list_all json_ok xs"
| "json_ok (JObj kvs) \<longleftrightarrow> distinct (map fst kvs) \<and> list_all (\<lambda>(k, v). list_all scalar k \<and> json_ok v) kvs"
| "json_ok _ \<longleftrightarrow> True"

lemma foldr_max_le: "foldr max ns 0 \<le> d \<longleftrightarrow> (\<forall>n\<in>set ns. n \<le> (d::nat))"
  by (induction ns) auto

lemma nat_str_first: "\<exists>d ds. nat_str n = d # ds \<and> is_digit d"
  using nat_digits_less [of "hd (nat_digits n)" n]
  by (cases "nat_digits n") (simp_all add: nat_str_def is_digit_def)

lemma dumps_first:
  assumes "json_ok v"
  shows "\<exists>c w. dumps_at a None l v = c # w \<and> \<not> is_json_space c \<and> c \<noteq> 93 \<and> c \<noteq> 125 \<and> c < 128"
proof (cases v)
  case (JInt i)
  then show ?thesis
    using nat_str_first [of "nat i"]
    by (cases "i < 0") (auto simp: int_str_def is_json_space_def is_digit_def lit_def)
qed (use assms in \<open>auto simp: lit_def is_json_space_def quote_str_def bracketed_def\<close>)

lemma json_space_simps [simp]:
  "is_json_space 32" "\<not> is_json_space 44" "\<not> is_json_space 93" "\<not> is_json_space 125"
  "\<not> is_json_space 58" "\<not> is_json_space 34"
  by (simp_all add: is_json_space_def)

definition reads :: "scanner \<Rightarrow> pystr \<Rightarrow> json \<Rightarrow> bool" where
  "reads p t v \<longleftrightarrow> (\<forall>r. delimited r \<longrightarrow> p (t @ r) = Inr (v, r)) \<and>
     (\<exists>c w. t = c # w \<and> \<not> is_json_space c \<and> c \<noteq> 93 \<and> c \<noteq> 125)"

lemma readsD:
  assumes "reads p t v"
  shows "delimited r \<Longrightarrow> p (t @ r) = Inr (v, r)" and "skip_space (t @ r) = t @ r"
    and "t @ r \<noteq> []" and "hd (t @ r) \<noteq> 93" and "hd (t @ r) \<noteq> 125" and "t \<noteq> []"
  using assms by (auto simp: reads_def)

lemma scan_items_joined:
  assumes "list_all2 (reads p) ts vs" and "ts \<noteq> []"
  shows "scan_items p (joined [44, 32] ts @ 93 # r) = Inr (vs, r)"
  using assms
proof (induction ts vs rule: list_all2_induct)
  case Nil
  then show ?case by simp
next
  case (Cons t ts v vs)
  note t = readsD [OF Cons.hyps(1)]
  show ?case
  proof (cases ts)
    case Nil
    with Cons.hyps(2) have "vs = []" by simp
    with Nil show ?thesis by (subst scan_items.simps) (simp add: t(1))
  next
    case (Cons t' ts')
    then obtain v' vs' where vs: "vs = v' # vs'" and t': "reads p t' v'"
      using Cons.hyps(2) by (auto simp: list_all2_Cons1)
    define rest where "rest = joined [44, 32] (t' # ts') @ 93 # r"
    have rest: "scan_items p rest = Inr (vs, r)"
      using Cons.IH Cons by (simp add: rest_def)
    obtain x where x: "rest = t' @ x" by (cases ts') (simp_all add: rest_def)
    have "skip_space rest = rest" "rest \<noteq> []" "hd rest \<noteq> 93" using readsD [OF t'] by (simp_all add: x)
    then have more: "scan_items p (t @ 44 # 32 # rest) = Inr (v # vs, r)"
      using rest t(1) [of "44 # 32 # rest"] t(6)
      by (subst scan_items.simps) (cases rest; simp add: Let_def)
    show ?thesis using more by (simp add: Cons rest_def)
  qed
qed


text \<open>A member of an object as it is written, and its reading.\<close>

definition member_text :: "bool \<Rightarrow> pystr \<Rightarrow> pystr \<Rightarrow> pystr" where
  "member_text a k t = quote_str a k @ [58, 32] @ t"

lemma scan_members_joined:
  assumes "list_all2 (\<lambda>(k, t) (k', v). k' = k \<and> list_all scalar k \<and> reads p t v) kts kvs" and "kts \<noteq> []"
    and "distinct (map fst seen @ map fst kvs)"
  shows "scan_members p seen (joined [44, 32] (map (\<lambda>(k, t). member_text a k t) kts) @ 125 # r) =
    Inr (seen @ kvs, r)"
  using assms
proof (induction kts kvs arbitrary: seen rule: list_all2_induct)
  case Nil
  then show ?case by simp
next
  case (Cons kt kts kv kvs)
  obtain k t v where k: "kt = (k, t)" "kv = (k, v)" "list_all scalar k" and "reads p t v"
    using Cons.hyps(1) by (cases kt; cases kv) auto
  note t = readsD [OF \<open>reads p t v\<close>]
  have set: "dict_set k v seen = seen @ [(k, v)]" using Cons.prems(2) k by (auto simp: dict_set_def)
  have key: "scan_string (concat (map (escape_char a) k) @ 34 # 58 # 32 # x) = Inr (k, 58 # 32 # x)" for x
    by (rule scan_quoted [OF k(3)])
  have colon: "skip_colon (58 # 32 # t @ x) = Inr (t @ x)" for x
    using t(2) [of x] by (simp add: skip_colon_def)
  show ?case
  proof (cases kts)
    case Nil
    with Cons.hyps(2) have "kvs = []" by simp
    with Nil k show ?thesis
      by (subst scan_members.simps)
        (simp add: member_text_def quote_str_def key colon t(1) set Let_def)
  next
    case (Cons kt' kts')
    define rest where "rest = joined [44, 32] (map (\<lambda>(k, t). member_text a k t) kts) @ 125 # r"
    have rest: "scan_members p (seen @ [(k, v)]) rest = Inr (seen @ (k, v) # kvs, r)"
      using Cons.IH [of "seen @ [(k, v)]"] Cons.prems(2) k Cons by (simp add: rest_def)
    obtain x where x: "rest = 34 # x"
      using Cons by (cases kt'; cases kts') (simp_all add: rest_def member_text_def quote_str_def)
    have "scan_members p seen (member_text a k t @ 44 # 32 # rest) = Inr (seen @ (k, v) # kvs, r)"
      using rest t(1) [of "44 # 32 # rest"] t(6) x
      by (subst scan_members.simps)
        (simp add: member_text_def quote_str_def key colon set Let_def)
    then show ?thesis using Cons k by (simp add: rest_def)
  qed
qed


lemma list_all2_same_iff: "list_all2 P (map f xs) xs \<longleftrightarrow> (\<forall>x\<in>set xs. P (f x) x)"
  by (induction xs) auto

lemma scan_once_dumps:
  assumes "json_ok v" and "json_depth v \<le> depth"
  shows "reads (scan_once depth) (dumps_at a None l v) v"
proof -
  have scan: "scan_once depth (dumps_at a None l v @ r) = Inr (v, r)" if "delimited r" for r
    using assms that
  proof (induction v arbitrary: depth l r)
    case (JNull depth l r)
    then show ?case by (cases depth) (simp_all add: scan_value_def starts_with_def lit_def)
  next
    case (JBool b depth l r)
    then show ?case by (cases depth; cases b) (simp_all add: scan_value_def starts_with_def lit_def)
  next
    case (JInt i depth l r)
    define n where "n = nat \<bar>i\<bar>"
    obtain d ds where ds: "nat_str n = d # ds" "is_digit d" using nat_str_first by blast
    have len: "length (nat_str n) \<le> INT_MAX_STR_DIGITS" using JInt.prems(1) by (simp add: n_def)
    have "scan_value p (int_str i @ r) = scan_number (int_str i @ r)" for p
      using ds by (auto simp: scan_value_def starts_with_def int_str_def lit_def n_def is_digit_def)
    moreover have "scan_number (int_str i @ r) = Inr (JInt i, r)"
      using scan_nat_str [OF JInt.prems(3) len] by (auto simp: int_str_def n_def lit_def)
    ultimately show ?case by (cases depth) simp_all
  next
    case (JFloat t depth l r)
    then show ?case by simp
  next
    case (JStr s depth l r)
    then show ?case
      by (cases depth) (simp_all add: scan_value_def quote_str_def scan_quoted)
  next
    case (JList xs depth l r)
    obtain d where depth: "depth = Suc d" using JList.prems(2) by (cases depth) auto
    show ?case
    proof (cases "xs = []")
      case True
      then show ?thesis by (simp add: depth scan_value_def bracketed_def)
    next
      case False
      let ?ts = "map (dumps_at a None (Suc l)) xs"
      have "reads (scan_once d) (dumps_at a None (Suc l) x) x" if "x \<in> set xs" for x
        using JList.IH [OF that, of d] JList.prems that depth dumps_first [of x a "Suc l"]
        by (auto simp: reads_def list_all_iff foldr_max_le)
      then have all: "list_all2 (reads (scan_once d)) ?ts xs" by (simp add: list_all2_same_iff)
      have items: "scan_items (scan_once d) (joined [44, 32] ?ts @ 93 # r) = Inr (xs, r)"
        by (rule scan_items_joined [OF all]) (use False in simp)
      obtain x w where "joined [44, 32] ?ts @ 93 # r = x # w" "\<not> is_json_space x" "x \<noteq> 93"
      proof -
        obtain y ys where xs: "xs = y # ys" using False by (cases xs) auto
        then obtain c w where "dumps_at a None (Suc l) y = c # w" "\<not> is_json_space c" "c \<noteq> 93"
          using dumps_first [of y a "Suc l"] JList.prems(1) by auto
        with xs that show thesis by (cases ys) simp_all
      qed
      with items False show ?thesis
        by (simp add: depth scan_value_def bracketed_def newline_indent_def item_separator_def)
    qed
  next
    case (JObj kvs depth l r)
    obtain d where depth: "depth = Suc d" using JObj.prems(2) by (cases depth) auto
    show ?case
    proof (cases "kvs = []")
      case True
      then show ?thesis by (simp add: depth scan_value_def bracketed_def)
    next
      case False
      let ?kts = "map (\<lambda>(k, v). (k, dumps_at a None (Suc l) v)) kvs"
      have "reads (scan_once d) (dumps_at a None (Suc l) v) v \<and> list_all scalar k" if kv: "(k, v) \<in> set kvs" for k v
      proof -
        have ok: "json_ok v" "list_all scalar k" using JObj.prems(1) kv by (auto simp: list_all_iff)
        have "json_depth v \<le> d" using JObj.prems(2) kv by (auto simp: depth foldr_max_le)
        then have "scan_once d (dumps_at a None (Suc l) v @ r) = Inr (v, r)" if "delimited r" for r
          using JObj.IH [OF kv, of v d r "Suc l"] ok that by simp
        with ok dumps_first [of v a "Suc l"] show ?thesis by (auto simp: reads_def)
      qed
      then have all: "list_all2 (\<lambda>(k, t) (k', v). k' = k \<and> list_all scalar k \<and> reads (scan_once d) t v) ?kts kvs"
        unfolding list_all2_same_iff by auto
      have members: "scan_members (scan_once d) [] (joined [44, 32] (map (\<lambda>(k, t). member_text a k t) ?kts) @ 125 # r) =
          Inr (kvs, r)"
        using scan_members_joined [OF all, of "[]" a r] False JObj.prems(1) by simp
      have texts: "map (\<lambda>(k, t). member_text a k t) ?kts =
          map (\<lambda>(k, v). quote_str a k @ [58, 32] @ dumps_at a None (Suc l) v) kvs"
        by (simp add: member_text_def case_prod_unfold)
      obtain w where "joined [44, 32] (map (\<lambda>(k, t). member_text a k t) ?kts) @ 125 # r = 34 # w"
        using False by (cases kvs; cases "tl kvs") (auto simp: member_text_def quote_str_def)
      with members False show ?thesis
        unfolding texts
        by (simp add: depth scan_value_def bracketed_def newline_indent_def item_separator_def)
    qed
  qed
  with dumps_first [OF assms(1), of a l] show ?thesis unfolding reads_def by blast
qed

lemma loads_dumps:
  assumes "json_ok v" and "json_depth v \<le> depth"
  shows "loads depth (dumps ensure_ascii None v) = Inr v"
proof -
  note scan = scan_once_dumps [OF assms, of ensure_ascii 0]
  obtain c w where "dumps ensure_ascii None v = c # w" "\<not> is_json_space c" "c < 128"
    using dumps_first [OF assms(1), of ensure_ascii 0] by (auto simp: dumps_def)
  then show ?thesis
    using readsD(1) [OF scan, of "[]"] by (simp add: loads_def dumps_def)
qed

end
