(* ===== verification/Parsing.thy ===== *)
theory Parsing
  imports Actions Json_Errors Json_Roundtrip
begin

text \<open>
  From model text to a typed action (\<open>agent/parsing.py\<close> with the schemas of
  \<open>actions/models.py\<close>).  \<open>validate_action\<close> is what the declared classes accept: the union is
  discriminated by \<open>action\<close>, other fields are forbidden, texts have their length limits and no
  lone surrogates.  Two things belong to Pydantic and are arguments: \<open>to_decimal\<close> is its
  conversion of a JSON value to a \<open>Decimal\<close>, \<open>describe\<close> the location and message of the first
  error it reports.
\<close>

type_synonym dictionary = "(pystr \<times> json) list"

section \<open>The action schemas\<close>

definition field :: "dictionary \<Rightarrow> string \<Rightarrow> json option" where
  "field d k = map_of d (lit k)"

definition text_field :: "dictionary \<Rightarrow> string \<Rightarrow> nat \<Rightarrow> pystr option" where
  "text_field d k hi =
     (case field d k of
        Some (JStr s) \<Rightarrow>
          (if length_between 1 hi s \<and> list_all (\<lambda>c. \<not> (55296 \<le> c \<and> c < 57344)) s then Some s else None)
      | _ \<Rightarrow> None)"

definition has_only :: "string list \<Rightarrow> dictionary \<Rightarrow> bool" where
  "has_only ks d \<longleftrightarrow> list_all (\<lambda>(k, _). k \<in> set (map lit (''action'' # ks))) d"

definition action_of_document :: "(json \<Rightarrow> decimal option) \<Rightarrow> dictionary \<Rightarrow> action option" where
  "action_of_document to_decimal d =
     (case field d ''action'' of
        Some (JStr tag) \<Rightarrow>
          (if tag = lit ''get_orders'' then (if has_only [] d then Some GetOrders else None)
           else if tag = lit ''link_order'' then
             (if has_only [''order_id''] d
              then map_option LinkOrder (text_field d ''order_id'' ACTION_ORDER_ID_MAX_LENGTH) else None)
           else if tag = lit ''propose_refund'' then
             (if has_only [''amount''] d
              then map_option ProposeRefund (Option.bind (field d ''amount'') to_decimal) else None)
           else if tag = lit ''send_reply'' then
             (if has_only [''subject'', ''body''] d
              then (case (text_field d ''subject'' ACTION_TEXT_FIELD_MAX_LENGTH,
                          text_field d ''body'' ACTION_TEXT_FIELD_MAX_LENGTH) of
                      (Some s, Some b) \<Rightarrow> Some (SendReply s b)
                    | _ \<Rightarrow> None)
              else None)
           else if tag = lit ''request_verification'' then
             (if has_only [] d then Some RequestVerification else None)
           else if tag = lit ''escalate'' then
             (if has_only [''reason''] d
              then map_option Escalate (text_field d ''reason'' ACTION_TEXT_FIELD_MAX_LENGTH) else None)
           else if tag = lit ''finish'' then
             (if has_only [''summary''] d
              then map_option Finish (text_field d ''summary'' ACTION_TEXT_FIELD_MAX_LENGTH) else None)
           else None)
      | _ \<Rightarrow> None)"

text \<open>\<open>TypeAdapter(Action).validate_python\<close>: an action, or the first error of \<open>ValidationError\<close>.\<close>

type_synonym error_detail = "pystr list \<times> pystr"

definition validate_action ::
  "(json \<Rightarrow> decimal option) \<Rightarrow> (dictionary \<Rightarrow> error_detail) \<Rightarrow> dictionary \<Rightarrow> error_detail + action" where
  "validate_action to_decimal describe d =
     (case action_of_document to_decimal d of Some a \<Rightarrow> Inr a | None \<Rightarrow> Inl (describe d))"

section \<open>Parsing\<close>

datatype parse_outcome = ParseSuccess action | ParseFailure pystr

text \<open>The characters \<open>str.strip\<close> removes.\<close>

definition is_space :: "nat \<Rightarrow> bool" where
  "is_space c \<longleftrightarrow> 9 \<le> c \<and> c \<le> 13 \<or> 28 \<le> c \<and> c \<le> 32 \<or> 8192 \<le> c \<and> c \<le> 8202 \<or>
     c \<in> {133, 160, 5760, 8232, 8233, 8239, 8287, 12288}"

definition strip :: "pystr \<Rightarrow> pystr" where
  "strip s = rev (dropWhile is_space (rev (dropWhile is_space s)))"

definition format_error_location :: "pystr list \<Rightarrow> pystr" where
  "format_error_location location = (if location = [] then [] else joined (lit ''.'') location)"

definition format_validation_error :: "error_detail \<Rightarrow> pystr" where
  "format_validation_error first_error =
     (case first_error of (loc, message) \<Rightarrow>
        let location = format_error_location loc in
        if location \<noteq> [] then location @ lit '': '' @ message else message)"

definition MAX_REFUND_DECIMAL_PLACES :: int where "MAX_REFUND_DECIMAL_PLACES = 2"

definition propose_refund_decimal_error :: "decimal \<Rightarrow> pystr option" where
  "propose_refund_decimal_error amount =
     (if \<not> dec_is_finite amount then Some (lit ''propose_refund amount must be finite'')
      else case dec_exponent amount of
        Some e \<Rightarrow>
          (if e < - MAX_REFUND_DECIMAL_PLACES
           then Some (lit ''propose_refund amount must have at most two decimal places'') else None)
      | None \<Rightarrow> None)"

definition parse ::
  "(json \<Rightarrow> decimal option) \<Rightarrow> (dictionary \<Rightarrow> error_detail) \<Rightarrow> nat \<Rightarrow> pystr \<Rightarrow> error + parse_outcome" where
  "parse to_decimal describe max_depth raw_model_output =
     (let stripped_output = strip raw_model_output in
      if stripped_output = [] then Inr (ParseFailure (lit ''empty model output''))
      else case loads max_depth stripped_output of
        Inl (JSONDecodeError msg) \<Rightarrow> Inr (ParseFailure (lit ''malformed JSON: '' @ msg))
      | Inl e \<Rightarrow> Inl e
      | Inr (JObj decoded_payload) \<Rightarrow>
          (case validate_action to_decimal describe decoded_payload of
             Inl detail \<Rightarrow> Inr (ParseFailure (format_validation_error detail))
           | Inr (ProposeRefund amount) \<Rightarrow>
               (case propose_refund_decimal_error amount of
                  Some decimal_error \<Rightarrow> Inr (ParseFailure decimal_error)
                | None \<Rightarrow> Inr (ParseSuccess (ProposeRefund amount)))
           | Inr parsed_action \<Rightarrow> Inr (ParseSuccess parsed_action))
      | Inr _ \<Rightarrow> Inr (ParseFailure (lit ''model output must be a JSON object'')))"

section \<open>What parsing guarantees\<close>

lemma text_field_length: "text_field d k hi = Some s \<Longrightarrow> length_between (Suc 0) hi s"
  by (auto simp: text_field_def split: option.splits json.splits if_splits)

lemma action_of_document_valid: "action_of_document to_decimal d = Some a \<Longrightarrow> action_valid a"
  by (auto simp: action_of_document_def text_field_length
      split: option.splits json.splits if_splits)

lemma validate_action_valid: "validate_action to_decimal describe d = Inr a \<Longrightarrow> action_valid a"
  by (auto simp: validate_action_def action_of_document_valid split: option.splits)

text \<open>The tag of the document names the class of the action.\<close>

lemma action_of_document_tag:
  "action_of_document to_decimal d = Some a \<Longrightarrow> field d ''action'' = Some (JStr (action_discriminator a))"
  by (auto simp: action_of_document_def split: option.splits json.splits if_splits)

lemma parse_success:
  assumes "parse to_decimal describe n raw = Inr (ParseSuccess a)"
  obtains d where "loads n (strip raw) = Inr (JObj d)" and "action_of_document to_decimal d = Some a"
    and "\<And>amount. a = ProposeRefund amount \<Longrightarrow> propose_refund_decimal_error amount = None"
proof -
  obtain v where v: "loads n (strip raw) = Inr v"
    using assms by (cases "loads n (strip raw)") (auto simp: parse_def Let_def split: if_splits error.splits)
  obtain d where d: "v = JObj d"
    using assms v by (cases v) (auto simp: parse_def Let_def split: if_splits)
  obtain b where b: "validate_action to_decimal describe d = Inr b"
    using assms v d by (cases "validate_action to_decimal describe d") (auto simp: parse_def Let_def split: if_splits)
  then have "b = a" "\<And>amount. a = ProposeRefund amount \<Longrightarrow> propose_refund_decimal_error amount = None"
    using assms v d by (cases b; auto simp: parse_def Let_def split: if_splits option.splits)+
  with v d b that show thesis by (auto simp: validate_action_def split: option.splits)
qed

lemma strip_sublist: "sublist (strip s) s"
proof -
  have "suffix (dropWhile is_space s) s" by (rule suffix_dropWhile)
  moreover have "prefix (strip s) (dropWhile is_space s)"
    unfolding strip_def by (metis rev_rev_ident suffix_dropWhile suffix_to_prefix)
  ultimately show ?thesis by (auto simp: sublist_altdef')
qed

lemma filter_sublist: "sublist r s \<Longrightarrow> length (filter P r) \<le> length (filter P s)"
  by (auto simp: sublist_def)

lemma parse_exception:
  assumes "parse to_decimal describe n raw = Inl e"
  shows "(\<exists>msg. e = ValueError msg) \<and> (\<exists>ds. sublist ds raw \<and> list_all is_digit ds \<and> INT_MAX_STR_DIGITS < length ds) \<or>
    e = RecursionError \<and> n < length (filter (\<lambda>c. c = 91 \<or> c = 123) raw)"
proof -
  have "loads n (strip raw) = Inl e \<and> (\<forall>msg. e \<noteq> JSONDecodeError msg)"
    using assms by (auto simp: parse_def Let_def split: if_splits sum.splits error.splits json.splits action.splits option.splits)
  then have "(\<exists>msg. e = ValueError msg) \<and>
      (\<exists>ds. sublist ds (strip raw) \<and> list_all is_digit ds \<and> INT_MAX_STR_DIGITS < length ds) \<or>
    e = RecursionError \<and> n < length (filter (\<lambda>c. c = 91 \<or> c = 123) (strip raw))"
    using loads_error [of n "strip raw" e] by blast
  moreover have "sublist ds raw" if "sublist ds (strip raw)" for ds
    using that strip_sublist by (rule sublist_order.order.trans)
  moreover have "n < length (filter (\<lambda>c. c = 91 \<or> c = 123) raw)"
    if "n < length (filter (\<lambda>c. c = 91 \<or> c = 123) (strip raw))"
    using that filter_sublist [OF strip_sublist] by (rule less_le_trans)
  ultimately show ?thesis by blast
qed

lemma acceptable_amount:
  "propose_refund_decimal_error x = None \<longleftrightarrow> (\<exists>neg c e. x = Dec neg c e \<and> e \<ge> -2)"
  by (cases x) (auto simp: propose_refund_decimal_error_def MAX_REFUND_DECIMAL_PLACES_def)

lemma parse_complete:
  assumes "loads n (strip raw) = Inr (JObj d)" and "action_of_document to_decimal d = Some a"
    and "case a of ProposeRefund amount \<Rightarrow> (\<exists>neg c e. amount = Dec neg c e \<and> e \<ge> -2) | _ \<Rightarrow> True"
  shows "parse to_decimal describe n raw = Inr (ParseSuccess a)"
proof -
  have "strip raw \<noteq> []"
    using assms(1) by (cases n) (auto simp: loads_def scan_value_def expecting_value_def)
  moreover have "validate_action to_decimal describe d = Inr a" using assms(2) by (simp add: validate_action_def)
  moreover have "propose_refund_decimal_error x = None" if "a = ProposeRefund x" for x
    using assms(3) that by (simp add: acceptable_amount)
  ultimately show ?thesis
    using assms(1) by (cases a) (simp_all add: parse_def Let_def)
qed

text \<open>C23: what reaches the gate is well formed.  An accepted action satisfies its class's limits,
  carries the tag its document names, and a proposed amount is a finite decimal with at most two
  places, whatever Pydantic's number conversion does.  A failure is answered only when the text is
  not the document of such an action.  The parser raises in two cases only: \<open>ValueError\<close>, for a text
  with a run of more digits than \<open>int()\<close> reads, and \<open>RecursionError\<close>, for a text with more opening
  brackets than the interpreter nests.\<close>

theorem parse_accepts_valid_actions_only:
  "(case parse to_decimal describe n raw of
      Inr (ParseSuccess a) \<Rightarrow> action_valid a \<and>
        (\<exists>d. loads n (strip raw) = Inr (JObj d) \<and> field d ''action'' = Some (JStr (action_discriminator a))) \<and>
        (case a of ProposeRefund amount \<Rightarrow> (\<exists>neg c e. amount = Dec neg c e \<and> e \<ge> -2) | _ \<Rightarrow> True)
    | Inr (ParseFailure _) \<Rightarrow>
        \<not> (\<exists>d a. loads n (strip raw) = Inr (JObj d) \<and> action_of_document to_decimal d = Some a \<and>
          (case a of ProposeRefund amount \<Rightarrow> (\<exists>neg c e. amount = Dec neg c e \<and> e \<ge> -2) | _ \<Rightarrow> True))
    | Inl e \<Rightarrow>
        (\<exists>msg. e = ValueError msg) \<and>
          (\<exists>ds. sublist ds raw \<and> list_all is_digit ds \<and> length ds > INT_MAX_STR_DIGITS) \<or>
        e = RecursionError \<and> n < length (filter (\<lambda>c. c = 91 \<or> c = 123) raw))"
proof (cases "parse to_decimal describe n raw")
  case (Inl e)
  from parse_exception [OF Inl] show ?thesis unfolding Inl by simp
next
  case (Inr outcome)
  show ?thesis
  proof (cases outcome)
    case (ParseSuccess a)
    with Inr obtain d where d: "loads n (strip raw) = Inr (JObj d)" "action_of_document to_decimal d = Some a"
      and amount: "\<And>amount. a = ProposeRefund amount \<Longrightarrow> propose_refund_decimal_error amount = None"
      by (blast elim: parse_success)
    from amount have "case a of ProposeRefund amount \<Rightarrow> (\<exists>neg c e. amount = Dec neg c e \<and> e \<ge> -2) | _ \<Rightarrow> True"
      by (cases a) (simp_all add: acceptable_amount)
    with Inr ParseSuccess d action_of_document_valid [OF d(2)] action_of_document_tag [OF d(2)] show ?thesis by simp
  next
    case (ParseFailure reason)
    with Inr parse_complete [of n raw _ to_decimal _ describe] show ?thesis by force
  qed
qed

section \<open>Where parsing is not total\<close>

lemma long_literal_number:
  assumes "list_all is_digit ds" and "ds = d # more_ds" and "d \<noteq> 48" and "INT_MAX_STR_DIGITS < length ds"
  shows "\<exists>msg. scan_value nested (ds @ 125 # r) = Inl (ValueError msg)"
proof -
  have d: "is_digit d" using assms(1,2) by simp
  then have plain: "d \<notin> {34, 123, 91, 45, 110, 116, 102, 78, 73}" by (auto simp: is_digit_def)
  have taken: "takeWhile is_digit (ds @ 125 # r) = ds"
    using assms(1) by (simp add: takeWhile_append list_all_iff is_digit_def)
  have stop: "scan_fraction (125 # r) = ([], 125 # r)" "scan_exponent (125 # r) = ([], 125 # r)"
    by (simp_all add: scan_fraction_def scan_exponent_def split: list.split)
  have "scan_number (ds @ 125 # r) = Inl (ValueError
      (lit ''Exceeds the limit (4300 digits) for integer string conversion: value has '' @ nat_str (length ds) @
       lit '' digits; use sys.set_int_max_str_digits() to increase the limit''))"
    using assms(3,4) d plain taken
    by (simp add: assms(2) stop scan_number_def Let_def int_of_literal_def)
  moreover have "scan_value nested (ds @ 125 # r) = scan_number (ds @ 125 # r)"
    using plain by (simp add: assms(2) scan_value_def starts_with_def lit_def)
  ultimately show ?thesis by simp
qed

text \<open>The text of a \<open>propose_refund\<close> object whose amount is the literal.\<close>

definition refund_text :: "pystr \<Rightarrow> pystr" where
  "refund_text literal =
     dumps True None (JObj [(lit ''action'', JStr (lit ''propose_refund'')), (lit ''amount'', JFloat literal)])"

lemma refund_text_parts: "refund_text ds =
    123 # 34 # concat (map (escape_char True) (lit ''action'')) @ 34 # 58 # 32 # 34 #
    concat (map (escape_char True) (lit ''propose_refund'')) @ 34 # 44 # 32 # 34 #
    concat (map (escape_char True) (lit ''amount'')) @ 34 # 58 # 32 # ds @ [125]"
  by (simp add: refund_text_def dumps_def bracketed_def quote_str_def item_separator_def newline_indent_def)

lemma scan_refund_text:
  assumes digit: "ds = d # more_ds" "is_digit d"
    and string: "\<And>r. member (34 # concat (map (escape_char True) (lit ''propose_refund'')) @ 34 # r) =
        Inr (JStr (lit ''propose_refund''), r)"
    and number: "member (ds @ [125]) = Inl e"
  shows "scan_value (Some member) (refund_text ds) = Inl e"
proof -
  have words: "list_all scalar (lit ''action'')" "list_all scalar (lit ''amount'')"
    by (simp_all add: lit_def scalar_def)
  have space: "\<not> is_json_space d" using digit(2) by (auto simp: is_digit_def is_json_space_def)
  have amount: "scan_members member kvs
      (34 # concat (map (escape_char True) (lit ''amount'')) @ 34 # 58 # 32 # ds @ [125]) = Inl e" for kvs
    using number space
    by (subst scan_members.simps)
      (simp add: scan_quoted [OF words(2)] skip_colon_def is_json_space_def digit(1))
  show ?thesis
    unfolding refund_text_parts
    by (simp add: scan_value_def is_json_space_def, subst scan_members.simps)
      (simp add: scan_quoted [OF words(1)] string skip_colon_def is_json_space_def amount)
qed

text \<open>C40: the parser is not total on strings.  Its documentation says that it always returns an
  outcome, but on the text of a JSON object that proposes a refund whose amount is an integer
  literal of more than 4300 digits it raises \<open>ValueError\<close>, which the model boundary then treats as
  a failed call.\<close>

theorem parse_raises_on_long_integers:
  assumes "list_all is_digit ds" and "hd ds \<noteq> 48" and "INT_MAX_STR_DIGITS < length ds" and "0 < n"
  shows "\<exists>msg. parse to_decimal describe n (refund_text ds) = Inl (ValueError msg)"
proof -
  obtain d more_ds where ds: "ds = d # more_ds" using assms(3) by (cases ds) simp_all
  obtain m where n: "n = Suc m" using assms(4) by (cases n) simp_all
  have "list_all scalar (lit ''propose_refund'')" by (simp_all add: lit_def scalar_def)
  then have string: "scan_once m (34 # concat (map (escape_char True) (lit ''propose_refund'')) @ 34 # r) =
      Inr (JStr (lit ''propose_refund''), r)" for r
    by (cases m) (simp_all add: scan_value_def scan_quoted)
  obtain msg where "scan_once m (ds @ [125]) = Inl (ValueError msg)"
    using long_literal_number [OF assms(1) ds _ assms(3), of _ "[]"] assms(2) ds by (cases m) auto
  then have "scan_once n (refund_text ds) = Inl (ValueError msg)"
    unfolding n scan_once.simps by (intro scan_refund_text [OF ds _ string]) (use assms(1) ds in simp_all)
  moreover have "skip_space (refund_text ds) = refund_text ds" "take 1 (refund_text ds) \<noteq> [65279]"
    "strip (refund_text ds) = refund_text ds" "refund_text ds \<noteq> []"
    by (simp_all add: refund_text_parts is_json_space_def strip_def is_space_def)
  ultimately have "loads n (strip (refund_text ds)) = Inl (ValueError msg)" by (simp add: loads_def)
  with \<open>strip (refund_text ds) = refund_text ds\<close> \<open>refund_text ds \<noteq> []\<close> show ?thesis
    by (simp add: parse_def Let_def)
qed

theorem parse_raises_on_long_integers_witness:
  "\<exists>msg. parse (\<lambda>_. None) (\<lambda>_. ([], [])) 10 (refund_text (replicate 4301 49)) = Inl (ValueError msg)"
  by (rule parse_raises_on_long_integers) (simp_all add: INT_MAX_STR_DIGITS_def is_digit_def list_all_iff)

end
