(* ===== verification/Policy.thy ===== *)
theory Policy
  imports Actions Projections
begin

text \<open>
  The policy layer (\<open>policy/\<close>): verdicts, the rule context, the named obligations and their
  checks, the driver that runs the applicable checks in canonical order, and the single-use
  authorisation it hands to the effects.  A check may raise (a miswired obligation, or a decimal
  comparison with a NaN), so it returns a sum; the theorems say when it does not.
\<close>

section \<open>Verdicts and context\<close>

datatype blocking =
    Deny (deny_rule: pystr) (deny_agent_reason: pystr) (deny_customer_reason: pystr)
  | RequireApproval (approval_rule: pystr) (approval_reason: pystr)
  | ForceEscalate (escalate_rule: pystr) (force_escalate_reason: pystr)

datatype check_result = CONTINUE | Stop blocking

datatype verdict = Allow | Blocked blocking

record rule_context =
  rc_now :: datetime
  rc_customer :: customer_summary
  rc_case :: case_summary
  rc_linked_order :: "order_summary option"
  rc_customer_order_ids :: "pystr set"
  rc_refund_approval_threshold :: decimal
  rc_denial_loop_threshold :: nat

section \<open>Obligations\<close>

datatype obligation_id =
    O_CASE_ACTIONABLE | O_DENIAL_LOOP | O_VERIFIED | O_NOT_ALREADY_VERIFIED | O_ORDER_OWNED
  | O_LINKED_ORDER | O_AMOUNT_SANE | O_NO_OPEN_REFUND | O_WITHIN_REMAINDER | O_THRESHOLD

fun obligation_value :: "obligation_id \<Rightarrow> pystr" where
  "obligation_value O_CASE_ACTIONABLE = lit ''case_actionable''"
| "obligation_value O_DENIAL_LOOP = lit ''denial_loop''"
| "obligation_value O_VERIFIED = lit ''verified''"
| "obligation_value O_NOT_ALREADY_VERIFIED = lit ''not_already_verified''"
| "obligation_value O_ORDER_OWNED = lit ''order_owned''"
| "obligation_value O_LINKED_ORDER = lit ''linked_order''"
| "obligation_value O_AMOUNT_SANE = lit ''amount_sane''"
| "obligation_value O_NO_OPEN_REFUND = lit ''no_open_refund''"
| "obligation_value O_WITHIN_REMAINDER = lit ''within_remainder''"
| "obligation_value O_THRESHOLD = lit ''threshold''"

definition UNIVERSAL_OBLIGATIONS :: "obligation_id list" where
  "UNIVERSAL_OBLIGATIONS = [O_CASE_ACTIONABLE, O_DENIAL_LOOP]"

definition CANONICAL_ORDER :: "obligation_id list" where
  "CANONICAL_ORDER =
     [O_CASE_ACTIONABLE, O_DENIAL_LOOP, O_VERIFIED, O_NOT_ALREADY_VERIFIED, O_ORDER_OWNED,
      O_LINKED_ORDER, O_AMOUNT_SANE, O_NO_OPEN_REFUND, O_WITHIN_REMAINDER, O_THRESHOLD]"

text \<open>\<open>ACTION_OBLIGATIONS.get(type(action))\<close>, without the rationale, which nothing reads.\<close>

fun ACTION_OBLIGATIONS :: "action \<Rightarrow> obligation_id set option" where
  "ACTION_OBLIGATIONS GetOrders = Some {O_VERIFIED}"
| "ACTION_OBLIGATIONS (LinkOrder _) = Some {O_VERIFIED, O_ORDER_OWNED}"
| "ACTION_OBLIGATIONS (ProposeRefund _) =
     Some {O_VERIFIED, O_LINKED_ORDER, O_AMOUNT_SANE, O_NO_OPEN_REFUND, O_WITHIN_REMAINDER,
           O_THRESHOLD}"
| "ACTION_OBLIGATIONS RequestVerification = Some {O_NOT_ALREADY_VERIFIED}"
| "ACTION_OBLIGATIONS (SendReply _ _) = Some {}"
| "ACTION_OBLIGATIONS (Escalate _) = Some {}"
| "ACTION_OBLIGATIONS (Finish _) = Some {}"

definition applicable_obligations :: "action \<Rightarrow> obligation_id set" where
  "applicable_obligations a =
     (case ACTION_OBLIGATIONS a of
        None \<Rightarrow> {} | Some required \<Rightarrow> set UNIVERSAL_OBLIGATIONS \<union> required)"

section \<open>Checks\<close>

definition miswired_obligation :: "obligation_id \<Rightarrow> action \<Rightarrow> error" where
  "miswired_obligation oid a =
     TypeError (obligation_value oid @ lit '' is miswired for action type '' @ action_class_name a)"

definition deny_if_case_not_actionable :: "rule_context \<Rightarrow> check_result" where
  "deny_if_case_not_actionable ctx =
     (if cs_status (rc_case ctx) \<noteq> CS_OPEN then
        Stop (Deny (lit ''R_CASE_NOT_ACTIONABLE'')
          (lit ''This case is not open for agent actions. Wait for operator approval, customer verification, or case closure to resolve.'')
          (lit ''We cannot process this request while your case is waiting on another step.''))
      else CONTINUE)"

definition escalate_if_denial_loop :: "rule_context \<Rightarrow> check_result" where
  "escalate_if_denial_loop ctx =
     (if cs_consecutive_denials (rc_case ctx) \<ge> rc_denial_loop_threshold ctx then
        Stop (ForceEscalate (lit ''R_DENIAL_LOOP'')
          (lit ''The agent received too many consecutive denials and must escalate to a human operator.''))
      else CONTINUE)"

definition deny_if_unverified :: "rule_context \<Rightarrow> check_result" where
  "deny_if_unverified ctx =
     (if cust_verified (rc_customer ctx) then CONTINUE
      else Stop (Deny (lit ''R_VERIFIED'')
        (lit ''The customer is not verified. Use request_verification to unlock order data and refunds. send_reply, escalate, and finish remain available.'')
        (lit ''Please verify your identity before we can access order details or process refunds.'')))"

definition deny_if_already_verified :: "rule_context \<Rightarrow> check_result" where
  "deny_if_already_verified ctx =
     (if \<not> cust_verified (rc_customer ctx) then CONTINUE
      else Stop (Deny (lit ''R_ALREADY_VERIFIED'')
        (lit ''The customer is already verified.'')
        (lit ''Your identity has already been verified.'')))"

definition deny_if_order_not_owned :: "rule_context \<Rightarrow> pystr \<Rightarrow> check_result" where
  "deny_if_order_not_owned ctx order_id =
     (if order_id \<in> rc_customer_order_ids ctx then CONTINUE
      else Stop (Deny (lit ''R_ORDER_OWNERSHIP'')
        (lit ''Order '' @ order_id @ lit '' does not belong to this customer.'')
        (lit ''We could not find that order on your account.'')))"

definition deny_if_no_linked_order :: "rule_context \<Rightarrow> check_result" where
  "deny_if_no_linked_order ctx =
     (if cs_linked_order_id (rc_case ctx) \<noteq> None then CONTINUE
      else Stop (Deny (lit ''R_NO_LINKED_ORDER'')
        (lit ''Link an order to this case before proposing a refund.'')
        (lit ''We need to identify the order before processing a refund.'')))"

definition MAX_MONEY_DECIMAL_SCALE_EXPONENT :: int where
  "MAX_MONEY_DECIMAL_SCALE_EXPONENT = -2"

definition deny_if_amount_unsound :: "decimal \<Rightarrow> error + check_result" where
  "deny_if_amount_unsound amount =
     (if \<not> dec_is_finite amount then
        Inr (Stop (Deny (lit ''R_AMOUNT_SANE'') (lit ''Refund amount must be a finite number.'')
          (lit ''The refund amount is not valid.'')))
      else bindE (dec_le amount (Dec False 0 0)) (\<lambda>non_positive.
        if non_positive then
          Inr (Stop (Deny (lit ''R_AMOUNT_SANE'') (lit ''Refund amount must be greater than zero.'')
            (lit ''The refund amount must be greater than zero.'')))
        else (case dec_exponent amount of
            Some scale_exponent \<Rightarrow>
              (if scale_exponent < MAX_MONEY_DECIMAL_SCALE_EXPONENT then
                 Inr (Stop (Deny (lit ''R_AMOUNT_SANE'')
                   (lit ''Refund amount may have at most two decimal places.'')
                   (lit ''The refund amount is not valid.'')))
               else Inr CONTINUE)
          | None \<Rightarrow> Inr CONTINUE)))"

definition deny_if_open_refund :: "rule_context \<Rightarrow> check_result" where
  "deny_if_open_refund ctx =
     (case rc_linked_order ctx of
        None \<Rightarrow> CONTINUE
      | Some linked_order \<Rightarrow>
          (if \<not> os_has_open_refund linked_order then CONTINUE
           else Stop (Deny (lit ''R_OPEN_REFUND'')
             (lit ''This order already has an open refund request.'')
             (lit ''There is already a refund in progress for this order.''))))"

definition deny_if_exceeds_remainder :: "rule_context \<Rightarrow> decimal \<Rightarrow> error + check_result" where
  "deny_if_exceeds_remainder ctx amount =
     (case rc_linked_order ctx of
        None \<Rightarrow> Inr CONTINUE
      | Some linked_order \<Rightarrow>
          bindE (refundable_remainder linked_order) (\<lambda>remainder.
          bindE (dec_le amount remainder) (\<lambda>fits.
            if fits then Inr CONTINUE
            else Inr (Stop (Deny (lit ''R_REMAINDER'')
              (lit ''Refund amount '' @ dec_str amount @ lit '' exceeds the refundable remainder '' @
               dec_str remainder @ lit ''.'')
              (lit ''The requested refund is larger than the remaining refundable amount for this order.''))))))"

definition approval_if_over_threshold :: "rule_context \<Rightarrow> decimal \<Rightarrow> error + check_result" where
  "approval_if_over_threshold ctx amount =
     (case rc_linked_order ctx of
        None \<Rightarrow> Inr CONTINUE
      | Some linked_order \<Rightarrow>
          bindE (dec_add (os_refunded_total linked_order) amount) (\<lambda>cumulative_total.
          bindE (dec_le cumulative_total (rc_refund_approval_threshold ctx)) (\<lambda>below.
            if below then Inr CONTINUE
            else Inr (Stop (RequireApproval (lit ''R_THRESHOLD'')
              (lit ''Cumulative refunds of '' @ dec_str cumulative_total @
               lit '' exceed the automatic approval threshold of '' @
               dec_str (rc_refund_approval_threshold ctx) @ lit ''.''))))))"

text \<open>The table \<open>CHECKS\<close> with its wrappers, which raise on an action of the wrong type.\<close>

fun CHECKS :: "obligation_id \<Rightarrow> rule_context \<Rightarrow> action \<Rightarrow> error + check_result" where
  "CHECKS O_CASE_ACTIONABLE ctx _ = Inr (deny_if_case_not_actionable ctx)"
| "CHECKS O_DENIAL_LOOP ctx _ = Inr (escalate_if_denial_loop ctx)"
| "CHECKS O_VERIFIED ctx _ = Inr (deny_if_unverified ctx)"
| "CHECKS O_NOT_ALREADY_VERIFIED ctx a =
     (case a of RequestVerification \<Rightarrow> Inr (deny_if_already_verified ctx)
      | _ \<Rightarrow> Inl (miswired_obligation O_NOT_ALREADY_VERIFIED a))"
| "CHECKS O_ORDER_OWNED ctx a =
     (case a of LinkOrder order_id \<Rightarrow> Inr (deny_if_order_not_owned ctx order_id)
      | _ \<Rightarrow> Inl (miswired_obligation O_ORDER_OWNED a))"
| "CHECKS O_LINKED_ORDER ctx a =
     (case a of ProposeRefund _ \<Rightarrow> Inr (deny_if_no_linked_order ctx)
      | _ \<Rightarrow> Inl (miswired_obligation O_LINKED_ORDER a))"
| "CHECKS O_AMOUNT_SANE ctx a =
     (case a of ProposeRefund amount \<Rightarrow> deny_if_amount_unsound amount
      | _ \<Rightarrow> Inl (miswired_obligation O_AMOUNT_SANE a))"
| "CHECKS O_NO_OPEN_REFUND ctx a =
     (case a of ProposeRefund _ \<Rightarrow> Inr (deny_if_open_refund ctx)
      | _ \<Rightarrow> Inl (miswired_obligation O_NO_OPEN_REFUND a))"
| "CHECKS O_WITHIN_REMAINDER ctx a =
     (case a of ProposeRefund amount \<Rightarrow> deny_if_exceeds_remainder ctx amount
      | _ \<Rightarrow> Inl (miswired_obligation O_WITHIN_REMAINDER a))"
| "CHECKS O_THRESHOLD ctx a =
     (case a of ProposeRefund amount \<Rightarrow> approval_if_over_threshold ctx amount
      | _ \<Rightarrow> Inl (miswired_obligation O_THRESHOLD a))"

section \<open>The driver\<close>

text \<open>The loop of \<open>evaluate\<close> over the canonical order.\<close>

fun first_decisive ::
  "('o \<Rightarrow> error + check_result) \<Rightarrow> 'o set \<Rightarrow> 'o list \<Rightarrow> error + verdict" where
  "first_decisive check applicable [] = Inr Allow"
| "first_decisive check applicable (oid # oids) =
     (if oid \<in> applicable then
        bindE (check oid) (\<lambda>result.
          case result of CONTINUE \<Rightarrow> first_decisive check applicable oids | Stop b \<Rightarrow> Inr (Blocked b))
      else first_decisive check applicable oids)"

definition evaluate :: "rule_context \<Rightarrow> action \<Rightarrow> error + verdict" where
  "evaluate ctx a =
     (case ACTION_OBLIGATIONS a of
        None \<Rightarrow> Inr (Blocked (Deny (lit ''R_EXHAUSTED'') (lit ''No rule produced a verdict.'')
                   (lit ''We cannot process this request automatically.'')))
      | Some required \<Rightarrow>
          first_decisive (\<lambda>oid. CHECKS oid ctx a) (set UNIVERSAL_OBLIGATIONS \<union> required)
            CANONICAL_ORDER)"

section \<open>Authorisation\<close>

text \<open>
  \<open>spend\<close> compares proposals with \<open>is\<close>, so a proposal is an object: an identity and the action
  it holds.
\<close>

type_synonym proposal = "nat \<times> action"

definition same_object :: "proposal \<Rightarrow> proposal \<Rightarrow> bool" where
  "same_object p q \<longleftrightarrow> fst p = fst q"

record authorisation =
  auth_case_id :: pystr
  auth_action :: proposal
  auth_obligations_discharged :: "obligation_id set"
  auth_spent :: bool

definition spend :: "authorisation \<Rightarrow> pystr \<Rightarrow> proposal \<Rightarrow> error + authorisation" where
  "spend auth case_id action =
     (if auth_spent auth then Inl (AuthorisationError (lit ''authorisation already spent''))
      else if case_id \<noteq> auth_case_id auth \<or> \<not> same_object action (auth_action auth)
        then Inl (AuthorisationError (lit ''authorisation does not match this effect''))
      else Inr (auth\<lparr>auth_spent := True\<rparr>))"

definition authorise :: "rule_context \<Rightarrow> proposal \<Rightarrow> error + (authorisation + blocking)" where
  "authorise ctx p =
     bindE (evaluate ctx (snd p)) (\<lambda>verdict.
       case verdict of
         Allow \<Rightarrow> Inr (Inl \<lparr>auth_case_id = cs_case_id (rc_case ctx), auth_action = p,
                        auth_obligations_discharged = applicable_obligations (snd p),
                        auth_spent = False\<rparr>)
       | Blocked b \<Rightarrow> Inr (Inr b))"

section \<open>Driving checks in order\<close>

text \<open>The canonical order as a linear order on obligation identifiers.\<close>

fun obligation_rank :: "obligation_id \<Rightarrow> nat" where
  "obligation_rank O_CASE_ACTIONABLE = 0"
| "obligation_rank O_DENIAL_LOOP = 1"
| "obligation_rank O_VERIFIED = 2"
| "obligation_rank O_NOT_ALREADY_VERIFIED = 3"
| "obligation_rank O_ORDER_OWNED = 4"
| "obligation_rank O_LINKED_ORDER = 5"
| "obligation_rank O_AMOUNT_SANE = 6"
| "obligation_rank O_NO_OPEN_REFUND = 7"
| "obligation_rank O_WITHIN_REMAINDER = 8"
| "obligation_rank O_THRESHOLD = 9"

lemma obligation_rank_inject [simp]: "obligation_rank a = obligation_rank b \<longleftrightarrow> a = b"
  by (cases a; cases b) simp_all

instantiation obligation_id :: linorder
begin

definition less_eq_obligation_id :: "obligation_id \<Rightarrow> obligation_id \<Rightarrow> bool" where
  "less_eq_obligation_id a b \<longleftrightarrow> obligation_rank a \<le> obligation_rank b"

definition less_obligation_id :: "obligation_id \<Rightarrow> obligation_id \<Rightarrow> bool" where
  "less_obligation_id a b \<longleftrightarrow> obligation_rank a < obligation_rank b"

instance
  by standard (auto simp: less_eq_obligation_id_def less_obligation_id_def)

end

lemma check_cases [case_names raised continue stop]:
  fixes r :: "error + check_result"
  obtains e where "r = Inl e" | "r = Inr CONTINUE" | b where "r = Inr (Stop b)"
  by (cases r) (auto intro: check_result.exhaust)

text \<open>
  What a driver promises when it runs the applicable checks of a strictly ordered list and stops
  at the first one that does not continue.
\<close>

locale policy_driver =
  fixes order :: "('o::linorder) list"
    and check :: "'o \<Rightarrow> 'c \<Rightarrow> 'a \<Rightarrow> error + check_result"
    and applicable :: "'a \<Rightarrow> 'o set"
    and run :: "'c \<Rightarrow> 'a \<Rightarrow> error + verdict"
  assumes order_sorted: "sorted_wrt (<) order"
    and order_complete: "applicable a \<subseteq> set order"
    and run_driver: "run c a = first_decisive (\<lambda>oid. check oid c a) (applicable a) order"
begin

lemma first_decisive_allow:
  "first_decisive chk A oids = Inr Allow \<longleftrightarrow> (\<forall>oid\<in>A \<inter> set oids. chk oid = Inr CONTINUE)"
proof (induction oids)
  case (Cons x oids)
  then show ?case by (cases "chk x" rule: check_cases) auto
qed simp

lemma first_decisive_blocked:
  fixes oids :: "'o list"
  shows "sorted_wrt (<) oids \<Longrightarrow> first_decisive chk A oids = Inr (Blocked b) \<longleftrightarrow>
     (\<exists>oid\<in>A \<inter> set oids. chk oid = Inr (Stop b) \<and>
        (\<forall>p\<in>A \<inter> set oids. p < oid \<longrightarrow> chk p = Inr CONTINUE))"
proof (induction oids)
  case (Cons x oids)
  show ?case
  proof (cases "x \<in> A \<and> chk x \<noteq> Inr CONTINUE")
    case True
    then have "first_decisive chk A (x # oids) = Inr (Blocked b) \<longleftrightarrow> chk x = Inr (Stop b)"
      by (cases "chk x" rule: check_cases) auto
    moreover have after: "x < y" if "y \<in> set oids" for y
      using Cons.prems that by simp
    have "chk x = Inr (Stop b) \<longleftrightarrow> (\<exists>oid\<in>A \<inter> set (x # oids). chk oid = Inr (Stop b) \<and>
        (\<forall>p\<in>A \<inter> set (x # oids). p < oid \<longrightarrow> chk p = Inr CONTINUE))"
      using True by (auto dest: after)
    ultimately show ?thesis by simp
  next
    case False
    then have "first_decisive chk A (x # oids) = first_decisive chk A oids" by auto
    moreover have "x \<in> A \<Longrightarrow> chk x = Inr CONTINUE" using False by blast
    ultimately show ?thesis using Cons by (auto)
  qed
qed simp

lemma first_decisive_raises:
  fixes oids :: "'o list"
  shows "sorted_wrt (<) oids \<Longrightarrow> first_decisive chk A oids = Inl e \<Longrightarrow>
     \<exists>oid\<in>A \<inter> set oids. chk oid = Inl e \<and> (\<forall>p\<in>A \<inter> set oids. p < oid \<longrightarrow> chk p = Inr CONTINUE)"
proof (induction oids)
  case (Cons x oids)
  have after: "x < y" if "y \<in> set oids" for y using Cons.prems that by simp
  show ?case
  proof (cases "x \<in> A \<and> chk x \<noteq> Inr CONTINUE")
    case True
    with Cons.prems have "chk x = Inl e" by (cases "chk x" rule: check_cases) auto
    with True show ?thesis by (auto dest: after)
  next
    case False
    then have "first_decisive chk A (x # oids) = first_decisive chk A oids" by auto
    with Cons obtain oid where "oid \<in> A \<inter> set oids" and "chk oid = Inl e"
      and "\<forall>p\<in>A \<inter> set oids. p < oid \<longrightarrow> chk p = Inr CONTINUE" by auto
    with False show ?thesis by auto
  qed
qed simp

lemma allow_iff: "run c a = Inr Allow \<longleftrightarrow> (\<forall>oid\<in>applicable a. check oid c a = Inr CONTINUE)"
  using order_complete [of a] by (auto simp: run_driver first_decisive_allow)

lemma blocked_iff:
  "run c a = Inr (Blocked b) \<longleftrightarrow>
     (\<exists>oid\<in>applicable a. check oid c a = Inr (Stop b) \<and>
        (\<forall>p\<in>applicable a. p < oid \<longrightarrow> check p c a = Inr CONTINUE))"
  using order_complete [of a]
  by (auto simp: run_driver first_decisive_blocked [OF order_sorted] Int_absorb2)

lemma raised:
  assumes "run c a = Inl e"
  obtains oid where "oid \<in> applicable a" and "check oid c a = Inl e"
    and "\<And>p. p \<in> applicable a \<Longrightarrow> p < oid \<Longrightarrow> check p c a = Inr CONTINUE"
proof -
  have "applicable a \<inter> set order = applicable a" using order_complete by blast
  with first_decisive_raises [OF order_sorted assms [unfolded run_driver]] that show thesis
    by auto
qed

end

interpretation policy: policy_driver CANONICAL_ORDER CHECKS applicable_obligations evaluate
proof unfold_locales
  show "sorted_wrt (<) CANONICAL_ORDER"
    by (simp add: CANONICAL_ORDER_def less_obligation_id_def)
  show "applicable_obligations a \<subseteq> set CANONICAL_ORDER" for a
  proof
    fix oid assume "oid \<in> applicable_obligations a"
    show "oid \<in> set CANONICAL_ORDER" by (cases oid) (simp_all add: CANONICAL_ORDER_def)
  qed
  show "evaluate c a = first_decisive (\<lambda>oid. CHECKS oid c a) (applicable_obligations a) CANONICAL_ORDER"
    for c a
    by (cases a) (simp_all add: evaluate_def applicable_obligations_def)
qed

section \<open>Money rules\<close>

text \<open>A proposable amount: positive, finite and a whole number of cents.\<close>

fun sound_amount :: "decimal \<Rightarrow> bool" where
  "sound_amount (Dec neg c e) \<longleftrightarrow> \<not> neg \<and> c > 0 \<and> e \<ge> -2"
| "sound_amount _ = False"

fun amount_cents :: "decimal \<Rightarrow> nat" where
  "amount_cents (Dec neg c e) = c * 10 ^ nat (e + 2)"
| "amount_cents _ = 0"

lemma sound_amountE:
  assumes "sound_amount a"
  obtains c e where "a = Dec False c e" and "c > 0" and "e \<ge> -2"
  using assms by (cases a) auto

lemma sound_amount_val:
  assumes "sound_amount a"
  shows "dec_val a = of_nat (amount_cents a) / 100"
  using assms
proof (rule sound_amountE)
  fix c e assume a: "a = Dec False c e" and "e \<ge> -2"
  from ten_powi_split [OF this(2)] have "(10::rat) powi e = 10 ^ nat (e + 2) / 100"
    by (simp add: power_int_minus field_simps)
  with a show ?thesis by simp
qed

lemma sound_amount_pos: "sound_amount a \<Longrightarrow> 0 < amount_cents a"
  by (elim sound_amountE) simp

lemma amount_sane_iff: "deny_if_amount_unsound a = Inr CONTINUE \<longleftrightarrow> sound_amount a"
proof (cases a)
  case (Dec neg c e)
  have pos: "\<not> (10::int) ^ n \<le> 0" for n by (simp add: not_le)
  have "dec_le a (Dec False 0 0) = Inr (neg \<or> c = 0)"
    using Dec by (auto simp: mult_le_0_iff zero_less_mult_iff pos)
  with Dec show ?thesis
    by (auto simp: deny_if_amount_unsound_def MAX_MONEY_DECIMAL_SCALE_EXPONENT_def
        simp del: dec_le.simps)
qed (simp_all add: deny_if_amount_unsound_def)

lemma amount_sane_returns: "\<not> isl (deny_if_amount_unsound a)"
  by (cases a) (auto simp: deny_if_amount_unsound_def Let_def)

lemma dec_le_sound:
  assumes "sound_amount a"
  shows "dec_le a (cents n) = Inr (amount_cents a \<le> n)"
proof -
  obtain c e where "a = Dec False c e" using assms by (rule sound_amountE)
  then have "dec_le a (cents n) = Inr (dec_val a \<le> dec_val (cents n))"
    by (simp only: cents_def dec_le_val)
  also have "dec_val a \<le> dec_val (cents n) \<longleftrightarrow> amount_cents a \<le> n"
    by (simp add: sound_amount_val [OF assms] dec_val_cents divide_le_cancel)
  finally show ?thesis .
qed

lemma dec_add_non_negative:
  assumes "e \<ge> -2" "e' \<ge> -2" "min e e' \<le> 0" and "d = Dec False c e" "d' = Dec False c' e'"
    and "amount_cents d + amount_cents d' < 10 ^ dec_prec"
  obtains c'' m where "dec_add d d' = Inr (Dec False c'' m)"
    and "dec_val (Dec False c'' m) = of_nat (amount_cents d + amount_cents d') / 100"
proof -
  let ?m = "min e e'"
  let ?n = "c * 10 ^ nat (e - ?m) + c' * 10 ^ nat (e' - ?m)"
  have scale: "x * 10 ^ nat (k - ?m) * 10 ^ nat (?m + 2) = x * 10 ^ nat (k + 2)"
    if "?m \<le> k" for x :: nat and k
    using that assms(1,2) by (simp flip: power_add nat_add_distrib add: mult.assoc)
  have total: "?n * 10 ^ nat (?m + 2) = amount_cents d + amount_cents d'"
    by (simp only: distrib_right scale [of e c] scale [of e' c'] assms(4,5) amount_cents.simps min.cobounded1 min.cobounded2)
  have "?n \<le> ?n * 10 ^ nat (?m + 2)" by simp
  with total assms(6) have small: "?n < 10 ^ dec_prec" by linarith
  define n where "n = ?n"
  have "dec_aligned ?m (Dec False c e) + dec_aligned ?m (Dec False c' e') = int n"
    by (simp add: n_def)
  then have "dec_add d d' = dec_fix False n ?m"
    by (simp add: assms(4,5) Let_def del: dec_aligned.simps)
  then have "dec_add d d' = dec_fix False ?n ?m"
    by (simp only: n_def)
  then have "dec_add d d' = Inr (Dec False ?n ?m)"
    using dec_fix_exact [OF small assms(3)] by simp
  moreover have "dec_val (Dec False ?n ?m) = of_nat (amount_cents d + amount_cents d') / 100"
  proof -
    have "(10::rat) powi ?m = 10 ^ nat (?m + 2) / 100"
      using ten_powi_split [of "-2" ?m] assms(1,2) by (simp add: power_int_minus field_simps)
    then have "dec_val (Dec False ?n ?m) = of_nat (?n * 10 ^ nat (?m + 2)) / 100"
      by simp
    then show ?thesis by (simp only: total)
  qed
  ultimately show thesis by (rule that)
qed

lemma dec_add_refunded:
  assumes "is_cents R d" and "sound_amount a" and "R + amount_cents a < 10 ^ dec_prec"
  obtains x where "dec_add d a = Inr x" and "dec_le x (cents L) = Inr (R + amount_cents a \<le> L)"
proof -
  obtain c e where a: "a = Dec False c e" "e \<ge> -2" using assms(2) by (rule sound_amountE)
  obtain c0 e0 where d: "d = Dec False c0 e0" "e0 \<ge> -2" "e0 \<le> 0" "amount_cents d = R"
    using assms(1) by (auto simp: is_cents_def cents_def)
  obtain c' m where add: "dec_add d a = Inr (Dec False c' m)"
    and val: "dec_val (Dec False c' m) = of_nat (R + amount_cents a) / 100"
  proof (rule dec_add_non_negative [OF d(2) a(2) _ d(1) a(1)])
    show "min e0 e \<le> 0" using d(3) by (simp add: min_le_iff_disj)
    show "amount_cents d + amount_cents a < 10 ^ dec_prec" using assms(3) d(4) by simp
  qed (use d(4) in simp)
  have "dec_le (Dec False c' m) (cents L) = Inr (dec_val (Dec False c' m) \<le> dec_val (cents L))"
    by (simp only: cents_def dec_le_val)
  also have "dec_val (Dec False c' m) \<le> dec_val (cents L) \<longleftrightarrow> R + amount_cents a \<le> L"
    unfolding val dec_val_cents by (simp add: divide_le_cancel flip: of_nat_add)
  finally show thesis using add that by blast
qed

lemma remainder_cents:
  assumes "os_total s = cents T" and "is_cents R (os_refunded_total s)" and "R \<le> T"
    and "T < 10 ^ dec_prec"
  shows "refundable_remainder s = Inr (cents (T - R))"
  using assms by (auto simp: refundable_remainder_def is_cents_def dec_sub_cents dec_sub_zero_cents)

text \<open>A linked order whose account is in order: \<open>R\<close> of \<open>T\<close> cents have been refunded.\<close>

definition order_account :: "order_summary \<Rightarrow> nat \<Rightarrow> nat \<Rightarrow> bool" where
  "order_account s T R \<longleftrightarrow>
     os_total s = cents T \<and> is_cents R (os_refunded_total s) \<and> R \<le> T \<and> T < 10 ^ 12"

lemma account_bound:
  assumes "order_account s T R" and "n \<le> T - R"
  shows "R + n < 10 ^ dec_prec"
proof -
  have "R + n \<le> T" and "T < 10 ^ 12" using assms by (auto simp: order_account_def)
  moreover have "(10::nat) ^ 12 \<le> 10 ^ dec_prec" by (simp add: dec_prec_def)
  ultimately show ?thesis by linarith
qed

definition refund_admissible ::
  "rule_context \<Rightarrow> order_summary \<Rightarrow> nat \<Rightarrow> nat \<Rightarrow> decimal \<Rightarrow> bool" where
  "refund_admissible ctx s T R a \<longleftrightarrow>
     cs_status (rc_case ctx) = CS_OPEN \<and>
     cs_consecutive_denials (rc_case ctx) < rc_denial_loop_threshold ctx \<and>
     cust_verified (rc_customer ctx) \<and> cs_linked_order_id (rc_case ctx) \<noteq> None \<and>
     sound_amount a \<and> \<not> os_has_open_refund s \<and> amount_cents a \<le> T - R"

lemma exceeds_remainder_money:
  assumes "rc_linked_order ctx = Some s" and "order_account s T R" and "sound_amount a"
  shows "deny_if_exceeds_remainder ctx a = Inr CONTINUE \<longleftrightarrow> amount_cents a \<le> T - R"
    and "\<not> isl (deny_if_exceeds_remainder ctx a)"
proof -
  have "refundable_remainder s = Inr (cents (T - R))"
    using assms(2) by (intro remainder_cents) (auto simp: order_account_def dec_prec_def)
  with assms show "deny_if_exceeds_remainder ctx a = Inr CONTINUE \<longleftrightarrow> amount_cents a \<le> T - R"
    and "\<not> isl (deny_if_exceeds_remainder ctx a)"
    by (simp_all add: deny_if_exceeds_remainder_def dec_le_sound)
qed

lemma threshold_money:
  assumes "rc_linked_order ctx = Some s" and "is_cents R (os_refunded_total s)"
    and "sound_amount a" and "R + amount_cents a < 10 ^ dec_prec"
    and "rc_refund_approval_threshold ctx = cents L"
  shows "approval_if_over_threshold ctx a = Inr CONTINUE \<longleftrightarrow> R + amount_cents a \<le> L"
    and "\<exists>why. approval_if_over_threshold ctx a \<in>
      {Inr CONTINUE, Inr (Stop (RequireApproval (lit ''R_THRESHOLD'') why))}"
proof -
  obtain x where "dec_add (os_refunded_total s) a = Inr x"
    and "dec_le x (cents L) = Inr (R + amount_cents a \<le> L)"
    by (rule dec_add_refunded [OF assms(2-4)])
  with assms(1,5)
  show "approval_if_over_threshold ctx a = Inr CONTINUE \<longleftrightarrow> R + amount_cents a \<le> L"
    and "\<exists>why. approval_if_over_threshold ctx a \<in>
      {Inr CONTINUE, Inr (Stop (RequireApproval (lit ''R_THRESHOLD'') why))}"
    by (simp_all add: approval_if_over_threshold_def)
qed

lemma amount_unsound_denies:
  "deny_if_amount_unsound a \<noteq> Inr (Stop (RequireApproval r w))"
  by (cases a) (simp_all add: deny_if_amount_unsound_def Let_def)

lemma exceeds_remainder_denies:
  "deny_if_exceeds_remainder ctx a \<noteq> Inr (Stop (RequireApproval r w))"
  by (simp add: deny_if_exceeds_remainder_def bindE_def split: option.splits sum.splits)

lemma check_never_requires_approval:
  assumes "CHECKS oid ctx a = Inr (Stop (RequireApproval r w))"
  shows "oid = O_THRESHOLD \<and> is_propose_refund a"
proof (cases oid)
  case O_CASE_ACTIONABLE
  with assms show ?thesis by (simp add: deny_if_case_not_actionable_def split: if_splits)
next
  case O_DENIAL_LOOP
  with assms show ?thesis by (simp add: escalate_if_denial_loop_def split: if_splits)
next
  case O_VERIFIED
  with assms show ?thesis by (simp add: deny_if_unverified_def split: if_splits)
next
  case O_NOT_ALREADY_VERIFIED
  with assms show ?thesis
    by (cases a) (simp_all add: deny_if_already_verified_def split: if_splits)
next
  case O_ORDER_OWNED
  with assms show ?thesis
    by (cases a) (simp_all add: deny_if_order_not_owned_def split: if_splits)
next
  case O_LINKED_ORDER
  with assms show ?thesis
    by (cases a) (simp_all add: deny_if_no_linked_order_def split: if_splits)
next
  case O_AMOUNT_SANE
  with assms show ?thesis by (cases a) (simp_all add: amount_unsound_denies)
next
  case O_NO_OPEN_REFUND
  with assms show ?thesis
    by (cases a) (simp_all add: deny_if_open_refund_def split: if_splits option.splits)
next
  case O_WITHIN_REMAINDER
  with assms show ?thesis by (cases a) (simp_all add: exceeds_remainder_denies)
next
  case O_THRESHOLD
  with assms show ?thesis by (cases a) simp_all
qed

lemma refund_checks_continue:
  assumes "rc_linked_order ctx = Some s" and "order_account s T R"
  shows "(\<forall>oid\<in>applicable_obligations (ProposeRefund a). oid \<noteq> O_THRESHOLD \<longrightarrow>
      CHECKS oid ctx (ProposeRefund a) = Inr CONTINUE) \<longleftrightarrow> refund_admissible ctx s T R a"
  using exceeds_remainder_money(1) [OF assms, of a] assms(1)
  by (auto simp: applicable_obligations_def UNIVERSAL_OBLIGATIONS_def refund_admissible_def
      deny_if_case_not_actionable_def escalate_if_denial_loop_def deny_if_unverified_def
      deny_if_no_linked_order_def deny_if_open_refund_def amount_sane_iff split: if_splits)

lemma threshold_last: "p \<noteq> O_THRESHOLD \<Longrightarrow> p < O_THRESHOLD"
  by (cases p) (simp_all add: less_obligation_id_def)

lemma refund_requires_approval_iff:
  "evaluate ctx (ProposeRefund a) = Inr (Blocked (RequireApproval r w)) \<longleftrightarrow>
     approval_if_over_threshold ctx a = Inr (Stop (RequireApproval r w)) \<and>
     (\<forall>oid\<in>applicable_obligations (ProposeRefund a). oid \<noteq> O_THRESHOLD \<longrightarrow>
        CHECKS oid ctx (ProposeRefund a) = Inr CONTINUE)"
proof
  assume "evaluate ctx (ProposeRefund a) = Inr (Blocked (RequireApproval r w))"
  then obtain oid where "CHECKS oid ctx (ProposeRefund a) = Inr (Stop (RequireApproval r w))"
    and before: "\<forall>p\<in>applicable_obligations (ProposeRefund a). p < oid \<longrightarrow>
        CHECKS p ctx (ProposeRefund a) = Inr CONTINUE"
    by (auto simp: policy.blocked_iff)
  moreover from this have "oid = O_THRESHOLD" by (blast dest: check_never_requires_approval)
  ultimately show "approval_if_over_threshold ctx a = Inr (Stop (RequireApproval r w)) \<and>
     (\<forall>oid\<in>applicable_obligations (ProposeRefund a). oid \<noteq> O_THRESHOLD \<longrightarrow>
        CHECKS oid ctx (ProposeRefund a) = Inr CONTINUE)"
    using threshold_last by auto
next
  assume "approval_if_over_threshold ctx a = Inr (Stop (RequireApproval r w)) \<and>
     (\<forall>oid\<in>applicable_obligations (ProposeRefund a). oid \<noteq> O_THRESHOLD \<longrightarrow>
        CHECKS oid ctx (ProposeRefund a) = Inr CONTINUE)"
  then show "evaluate ctx (ProposeRefund a) = Inr (Blocked (RequireApproval r w))"
    unfolding policy.blocked_iff
    by (intro bexI [of _ O_THRESHOLD]) (auto simp: applicable_obligations_def)
qed

lemma refund_decision:
  assumes "rc_linked_order ctx = Some s" and "order_account s T R"
    and "rc_refund_approval_threshold ctx = cents L"
  shows "evaluate ctx (ProposeRefund a) = Inr Allow \<longleftrightarrow>
      refund_admissible ctx s T R a \<and> R + amount_cents a \<le> L"
    and "(\<exists>r w. evaluate ctx (ProposeRefund a) = Inr (Blocked (RequireApproval r w))) \<longleftrightarrow>
      refund_admissible ctx s T R a \<and> L < R + amount_cents a"
proof -
  have threshold: "approval_if_over_threshold ctx a = Inr CONTINUE \<longleftrightarrow> R + amount_cents a \<le> L"
    "\<exists>why. approval_if_over_threshold ctx a \<in>
      {Inr CONTINUE, Inr (Stop (RequireApproval (lit ''R_THRESHOLD'') why))}"
    if "refund_admissible ctx s T R a"
  proof -
    have "R + amount_cents a < 10 ^ dec_prec"
      using that assms(2) by (auto simp: refund_admissible_def intro: account_bound)
    moreover have "sound_amount a" using that by (simp add: refund_admissible_def)
    ultimately show "approval_if_over_threshold ctx a = Inr CONTINUE \<longleftrightarrow> R + amount_cents a \<le> L"
      "\<exists>why. approval_if_over_threshold ctx a \<in>
        {Inr CONTINUE, Inr (Stop (RequireApproval (lit ''R_THRESHOLD'') why))}"
      using threshold_money [OF assms(1) _ _ _ assms(3)] assms(2)
      by (auto simp: order_account_def)
  qed
  have "evaluate ctx (ProposeRefund a) = Inr Allow \<longleftrightarrow>
      refund_admissible ctx s T R a \<and> approval_if_over_threshold ctx a = Inr CONTINUE"
    unfolding policy.allow_iff refund_checks_continue [OF assms(1,2), symmetric]
    by (auto simp: applicable_obligations_def)
  with threshold(1) show "evaluate ctx (ProposeRefund a) = Inr Allow \<longleftrightarrow>
      refund_admissible ctx s T R a \<and> R + amount_cents a \<le> L" by blast
  show "(\<exists>r w. evaluate ctx (ProposeRefund a) = Inr (Blocked (RequireApproval r w))) \<longleftrightarrow>
      refund_admissible ctx s T R a \<and> L < R + amount_cents a"
    unfolding refund_requires_approval_iff refund_checks_continue [OF assms(1,2)]
    using threshold by force
qed

lemma evaluate_returns:
  assumes account: "\<And>s. rc_linked_order ctx = Some s \<Longrightarrow> \<exists>T R. order_account s T R"
    and "rc_refund_approval_threshold ctx = cents L"
  obtains v where "evaluate ctx a = Inr v"
proof (cases "evaluate ctx a")
  case (Inl e)
  then obtain oid where oid: "oid \<in> applicable_obligations a" "CHECKS oid ctx a = Inl e"
    and before: "\<And>p. p \<in> applicable_obligations a \<Longrightarrow> p < oid \<Longrightarrow> CHECKS p ctx a = Inr CONTINUE"
    using policy.raised by metis
  obtain amount where a: "a = ProposeRefund amount"
    using oid by (cases a; cases oid) (auto simp: applicable_obligations_def UNIVERSAL_OBLIGATIONS_def)
  from oid(2) a amount_sane_returns [of amount] have late: "oid = O_WITHIN_REMAINDER \<or> oid = O_THRESHOLD"
    using oid(1) by (cases oid) (auto simp: applicable_obligations_def UNIVERSAL_OBLIGATIONS_def isl_def)
  then have "CHECKS O_AMOUNT_SANE ctx a = Inr CONTINUE"
    by (intro before) (auto simp: a applicable_obligations_def less_obligation_id_def)
  then have sound: "sound_amount amount" by (simp add: a amount_sane_iff)
  show thesis
  proof (cases "rc_linked_order ctx")
    case None
    with late oid(2) a show ?thesis
      by (auto simp: deny_if_exceeds_remainder_def approval_if_over_threshold_def)
  next
    case (Some s)
    then obtain T R where TR: "order_account s T R" using account by blast
    note remainder = exceeds_remainder_money [OF Some TR sound]
    with late oid(2) a have "oid = O_THRESHOLD" by (auto simp: isl_def)
    then have "CHECKS O_WITHIN_REMAINDER ctx a = Inr CONTINUE"
      by (intro before) (auto simp: a applicable_obligations_def less_obligation_id_def)
    with remainder TR have fits: "amount_cents amount \<le> T - R" by (simp add: a)
    with TR have "R + amount_cents amount < 10 ^ dec_prec" by (rule account_bound)
    then have "\<exists>why. approval_if_over_threshold ctx amount \<in>
        {Inr CONTINUE, Inr (Stop (RequireApproval (lit ''R_THRESHOLD'') why))}"
      using TR Some sound assms(2) by (intro threshold_money(2)) (auto simp: order_account_def)
    with oid(2) a \<open>oid = O_THRESHOLD\<close> show ?thesis by auto
  qed
qed (use that in simp)

section \<open>Properties\<close>

definition sample_order :: order_summary where
  "sample_order = \<lparr>os_order_id = lit ''ORD-1003'', os_customer_id = lit ''cust_sophie'',
     os_total = cents 78000, os_refunded_total = cents 20000, os_has_open_refund = False\<rparr>"

definition sample_context :: rule_context where
  "sample_context =
     \<lparr>rc_now = 0,
      rc_customer = \<lparr>cust_customer_id = lit ''cust_sophie'', cust_email = lit ''sophie@example.com'',
        cust_verified = True\<rparr>,
      rc_case = \<lparr>cs_case_id = lit ''case_1'', cs_customer_id = lit ''cust_sophie'',
        cs_status = CS_OPEN, cs_linked_order_id = Some (lit ''ORD-1003''), cs_orders_listed = True,
        cs_step_count = 2, cs_consecutive_denials = 0, cs_consecutive_invalid_outputs = 0,
        cs_last_refund_status = None, cs_reply_sent_after_last_refund = False\<rparr>,
      rc_linked_order = Some sample_order, rc_customer_order_ids = {lit ''ORD-1003''},
      rc_refund_approval_threshold = REFUND_APPROVAL_THRESHOLD, rc_denial_loop_threshold = 3\<rparr>"

text \<open>C29: the verdict is that of the first obligation, in canonical order, that does not continue.
  An action is allowed exactly when every applicable obligation continues; it is blocked with a
  verdict exactly when some applicable obligation stops with it and every earlier applicable
  one continues.\<close>

theorem evaluate_first_decisive:
  "(evaluate ctx a = Inr Allow \<longleftrightarrow>
      (\<forall>oid. oid \<in> applicable_obligations a \<longrightarrow> CHECKS oid ctx a = Inr CONTINUE)) \<and>
   (evaluate ctx a = Inr (Blocked b) \<longleftrightarrow>
      (\<exists>oid. oid \<in> applicable_obligations a \<and> CHECKS oid ctx a = Inr (Stop b) \<and>
        (\<forall>p. p \<in> applicable_obligations a \<and> p < oid \<longrightarrow> CHECKS p ctx a = Inr CONTINUE)))"
  by (auto simp: policy.allow_iff policy.blocked_iff)

theorem evaluate_first_decisive_witness:
  "evaluate (sample_context\<lparr>rc_linked_order := Some (sample_order\<lparr>os_has_open_refund := True\<rparr>)\<rparr>)
     (ProposeRefund (cents 90000)) =
     Inr (Blocked (Deny (lit ''R_OPEN_REFUND'')
       (lit ''This order already has an open refund request.'')
       (lit ''There is already a refund in progress for this order.'')))"
  by (rule evaluate_first_decisive [THEN conjunct2, THEN iffD2], rule exI [of _ O_NO_OPEN_REFUND])
    (auto simp: applicable_obligations_def UNIVERSAL_OBLIGATIONS_def less_obligation_id_def
      sample_context_def sample_order_def deny_if_open_refund_def deny_if_case_not_actionable_def
      escalate_if_denial_loop_def deny_if_unverified_def deny_if_no_linked_order_def
      amount_sane_iff cents_def)

text \<open>C11: the decision table for refund proposals.  With a linked order of \<open>T\<close> cents of which
  \<open>R\<close> are refunded, a proposal is paid automatically exactly when the case is open, not in a
  denial loop, the customer verified, an order linked, the amount a positive whole number of
  cents, no refund of the order open, the amount within the remainder, and the cumulative total
  at most the threshold; it goes to an operator exactly when only the last of these fails.\<close>

theorem refund_decision_table:
  assumes "rc_linked_order ctx = Some s" and "order_account s T R"
    and "rc_refund_approval_threshold ctx = REFUND_APPROVAL_THRESHOLD"
  shows "(evaluate ctx (ProposeRefund a) = Inr Allow \<longleftrightarrow>
      refund_admissible ctx s T R a \<and> R + amount_cents a \<le> 50000) \<and>
    ((\<exists>r w. evaluate ctx (ProposeRefund a) = Inr (Blocked (RequireApproval r w))) \<longleftrightarrow>
      refund_admissible ctx s T R a \<and> 50000 < R + amount_cents a)"
  using refund_decision [OF assms(1,2), of 50000 a] assms(3) threshold_cents by simp

theorem refund_decision_table_witness:
  "evaluate sample_context (ProposeRefund (cents 30000)) = Inr Allow \<and>
   (\<exists>r w. evaluate sample_context (ProposeRefund (cents 30001)) = Inr (Blocked (RequireApproval r w)))"
proof -
  have linked: "rc_linked_order sample_context = Some sample_order"
    and threshold: "rc_refund_approval_threshold sample_context = REFUND_APPROVAL_THRESHOLD"
    by (simp_all add: sample_context_def)
  have account: "order_account sample_order 78000 20000"
    by (simp add: order_account_def sample_order_def is_cents_def)
  have "refund_admissible sample_context sample_order 78000 20000 (cents n)" if "n \<in> {30000, 30001}" for n
    using that by (auto simp: refund_admissible_def sample_context_def sample_order_def cents_def)
  with refund_decision_table [OF linked account threshold, of "cents 30000"]
    refund_decision_table [OF linked account threshold, of "cents 30001"]
  show ?thesis by (simp add: cents_def)
qed

text \<open>C33: policy evaluation is total.  On every context whose linked order has its account in
  order, and on every action, including amounts that are infinite or NaN, evaluation returns a
  verdict: no check is miswired and no decimal operation raises.\<close>

theorem evaluate_total:
  assumes "case rc_linked_order ctx of None \<Rightarrow> True | Some s \<Rightarrow> \<exists>T R. order_account s T R"
    and "rc_refund_approval_threshold ctx = REFUND_APPROVAL_THRESHOLD"
  shows "\<exists>v. evaluate ctx a = Inr v"
proof -
  have "\<exists>T R. order_account s T R" if "rc_linked_order ctx = Some s" for s
    using assms(1) that by simp
  with assms(2) threshold_cents show ?thesis by (metis evaluate_returns)
qed

theorem evaluate_total_witness: "\<exists>v. evaluate sample_context (ProposeRefund (DNaN True)) = Inr v"
proof (rule evaluate_total)
  have "order_account sample_order 78000 20000"
    by (simp add: order_account_def sample_order_def is_cents_def)
  then show "case rc_linked_order sample_context of None \<Rightarrow> True | Some s \<Rightarrow> \<exists>T R. order_account s T R"
    by (auto simp: sample_context_def)
qed (simp add: sample_context_def)

text \<open>C12: an authorisation exists only for an allowed proposal, discharges exactly the applicable
  obligations, can be spent only on the case and the very proposal object it was issued for, and
  only once.\<close>

theorem authorisation_single_use:
  assumes "authorise ctx p = Inr (Inl auth)"
  shows "evaluate ctx (snd p) = Inr Allow \<and>
    auth_obligations_discharged auth = applicable_obligations (snd p) \<and>
    (\<forall>c q auth'. spend auth c q = Inr auth' \<longleftrightarrow>
       c = cs_case_id (rc_case ctx) \<and> same_object q p \<and> auth' = auth\<lparr>auth_spent := True\<rparr>) \<and>
    (\<forall>c q. spend (auth\<lparr>auth_spent := True\<rparr>) c q =
       Inl (AuthorisationError (lit ''authorisation already spent'')))"
  using assms
  by (cases "evaluate ctx (snd p)") (auto simp: authorise_def spend_def split: verdict.splits)

theorem authorisation_single_use_witness:
  "\<exists>auth. authorise sample_context (7, Finish (lit ''done'')) = Inr (Inl auth) \<and>
     spend auth (lit ''case_1'') (7, Finish (lit ''done'')) = Inr (auth\<lparr>auth_spent := True\<rparr>) \<and>
     spend auth (lit ''case_1'') (8, Finish (lit ''done'')) \<noteq> Inr (auth\<lparr>auth_spent := True\<rparr>)"
proof -
  have "evaluate sample_context (Finish (lit ''done'')) = Inr Allow"
    by (simp add: policy.allow_iff applicable_obligations_def UNIVERSAL_OBLIGATIONS_def
        deny_if_case_not_actionable_def escalate_if_denial_loop_def sample_context_def)
  then obtain auth where auth: "authorise sample_context (7, Finish (lit ''done'')) = Inr (Inl auth)"
    by (simp add: authorise_def)
  from authorisation_single_use [OF this] auth show ?thesis
    by (auto simp: same_object_def sample_context_def)
qed

end
