(* ===== verification/World.thy ===== *)
theory World
  imports Policy
begin

text \<open>
  The state every operation works on: the database tables of \<open>domain/tables.py\<close> with their
  constraints, the session layer (\<open>db.py\<close> and SQLAlchemy's transactions), the clock, the
  identifier sequence and the three mock adapters.  A row insertion that violates a constraint
  raises \<open>IntegrityError\<close> with the name of the constraint.  \<open>w_db\<close> is what the current session
  sees, \<open>w_committed\<close> what other sessions see and what a rollback returns to.  Everything outside
  the database (mail, payments, tickets, identifiers) survives a rollback.
\<close>

section \<open>Tables\<close>

record customer_row =
  cu_id :: pystr
  cu_email :: pystr
  cu_name :: pystr

record order_row =
  or_id :: pystr
  or_customer_id :: pystr
  or_item :: pystr
  or_total :: decimal
  or_status :: order_status

record case_row =
  ca_id :: pystr
  ca_customer_id :: pystr
  ca_opening_message_id :: pystr
  ca_created_at :: datetime

record refund_row =
  rf_id :: pystr
  rf_customer_id :: pystr
  rf_order_id :: pystr
  rf_case_id :: pystr
  rf_amount :: decimal
  rf_status :: refund_status
  rf_approval_expires_at :: "datetime option"
  rf_created_at :: datetime

text \<open>
  An event row is a \<open>stored_event\<close>; \<open>event_sequences\<close> is a map from customers to the last
  allocated sequence number.
\<close>

record db =
  db_customers :: "customer_row list"
  db_orders :: "order_row list"
  db_cases :: "case_row list"
  db_events :: "stored_event list"
  db_event_sequences :: "(pystr \<times> int) list"
  db_refunds :: "refund_row list"

definition empty_db :: db where
  "empty_db = \<lparr>db_customers = [], db_orders = [], db_cases = [], db_events = [],
     db_event_sequences = [], db_refunds = []\<rparr>"

fun live_refund_status :: "refund_status \<Rightarrow> bool" where
  "live_refund_status RS_PENDING_APPROVAL = True"
| "live_refund_status RS_APPROVED = True"
| "live_refund_status _ = False"

section \<open>The world\<close>

record outbox_message =
  om_to :: pystr
  om_subject :: pystr
  om_body :: pystr

record refund_call =
  pc_idempotency_key :: pystr
  pc_amount :: decimal

record escalation_record =
  er_reason :: pystr
  er_ticket_id :: pystr

record world =
  w_db :: db
  w_committed :: db
  w_override_now :: "datetime option"
  w_utc_now :: datetime
  w_counter :: nat
  w_outbox :: "outbox_message list"
  w_payment_calls :: "refund_call list"
  w_provider_refs :: "(pystr \<times> pystr) list"
  w_escalations :: "escalation_record list"

type_synonym 'a op = "(world, error, 'a) prog"

definition ensureM :: "bool \<Rightarrow> error \<Rightarrow> unit op" where
  "ensureM b e = (if b then returnM () else raiseM e)"

lemma run_ensureM [run_simps, simp]: "ensureM b e s = (if b then Inr () else Inl e, s)"
  by (simp add: ensureM_def)

lemma preserves_ensureM [preserves_rules]: "preserves I (ensureM b e)"
  by (simp add: preserves_def)

definition modify_db :: "(db \<Rightarrow> db) \<Rightarrow> unit op" where
  "modify_db f = modifyM (\<lambda>w. w\<lparr>w_db := f (w_db w)\<rparr>)"

lemma run_modify_db [run_simps, simp]: "modify_db f w = (Inr (), w\<lparr>w_db := f (w_db w)\<rparr>)"
  by (simp add: modify_db_def)

lemma run_sequenced [run_simps, simp]:
  "thenM (modify_db f) n w = n (w\<lparr>w_db := f (w_db w)\<rparr>)"
  "bindM (modify_db f) n' w = n' () (w\<lparr>w_db := f (w_db w)\<rparr>)"
  "thenM (ensureM b e) n w = (if b then n w else (Inl e, w))"
  by (simp_all add: thenM_def bindM_def)

section \<open>Constrained insertion\<close>

definition customer_exists :: "db \<Rightarrow> pystr \<Rightarrow> bool" where
  "customer_exists d c \<longleftrightarrow> c \<in> cu_id ` set (db_customers d)"

definition case_of_customer :: "db \<Rightarrow> pystr \<Rightarrow> pystr \<Rightarrow> bool" where
  "case_of_customer d case_id c \<longleftrightarrow>
     (\<exists>r\<in>set (db_cases d). ca_id r = case_id \<and> ca_customer_id r = c)"

definition order_of_customer :: "db \<Rightarrow> pystr \<Rightarrow> pystr \<Rightarrow> bool" where
  "order_of_customer d order_id c \<longleftrightarrow>
     (\<exists>r\<in>set (db_orders d). or_id r = order_id \<and> or_customer_id r = c)"

definition insert_customer :: "customer_row \<Rightarrow> unit op" where
  "insert_customer r = bindM (getM w_db) (\<lambda>d.
     thenM (ensureM (cu_id r \<notin> cu_id ` set (db_customers d)) (IntegrityError ''customers.id''))
    (thenM (ensureM (cu_email r \<notin> cu_email ` set (db_customers d)) (IntegrityError ''customers.email''))
       (modify_db (\<lambda>d. d\<lparr>db_customers := db_customers d @ [r]\<rparr>))))"

definition insert_order :: "order_row \<Rightarrow> unit op" where
  "insert_order r = bindM (getM w_db) (\<lambda>d.
     thenM (ensureM (or_id r \<notin> or_id ` set (db_orders d)) (IntegrityError ''orders.id''))
    (thenM (ensureM (customer_exists d (or_customer_id r)) (IntegrityError ''orders.customer_id''))
       (modify_db (\<lambda>d. d\<lparr>db_orders := db_orders d @ [r]\<rparr>))))"

definition insert_case :: "case_row \<Rightarrow> unit op" where
  "insert_case r = bindM (getM w_db) (\<lambda>d.
     thenM (ensureM (ca_id r \<notin> ca_id ` set (db_cases d)) (IntegrityError ''cases.id''))
    (thenM (ensureM (\<forall>x\<in>set (db_cases d).
               (ca_customer_id x, ca_opening_message_id x) \<noteq> (ca_customer_id r, ca_opening_message_id r))
             (IntegrityError ''uq_case_customer_opening_message_id''))
    (thenM (ensureM (customer_exists d (ca_customer_id r)) (IntegrityError ''cases.customer_id''))
       (modify_db (\<lambda>d. d\<lparr>db_cases := db_cases d @ [r]\<rparr>)))))"

definition insert_event :: "stored_event \<Rightarrow> unit op" where
  "insert_event e = bindM (getM w_db) (\<lambda>d.
     thenM (ensureM (ev_id e \<notin> ev_id ` set (db_events d)) (IntegrityError ''events.id''))
    (thenM (ensureM (\<forall>x\<in>set (db_events d).
               (ev_customer_id x, ev_seq x) \<noteq> (ev_customer_id e, ev_seq e))
             (IntegrityError ''uq_event_customer_seq''))
    (thenM (ensureM (customer_exists d (ev_customer_id e)) (IntegrityError ''events.customer_id''))
    (thenM (ensureM (case ev_case_id e of
                       None \<Rightarrow> True | Some c \<Rightarrow> case_of_customer d c (ev_customer_id e))
             (IntegrityError ''fk_events_case_customer''))
    (thenM (ensureM (case ev_order_id e of
                       None \<Rightarrow> True | Some ord \<Rightarrow> order_of_customer d ord (ev_customer_id e))
             (IntegrityError ''fk_events_order_customer''))
       (modify_db (\<lambda>d. d\<lparr>db_events := db_events d @ [e]\<rparr>)))))))"

definition insert_refund :: "refund_row \<Rightarrow> unit op" where
  "insert_refund r = bindM (getM w_db) (\<lambda>d.
     thenM (ensureM (rf_id r \<notin> rf_id ` set (db_refunds d)) (IntegrityError ''refunds.id''))
    (thenM (ensureM (live_refund_status (rf_status r) \<longrightarrow>
               (\<forall>x\<in>set (db_refunds d). rf_order_id x = rf_order_id r \<longrightarrow> \<not> live_refund_status (rf_status x)))
             (IntegrityError ''uq_open_refund_per_order''))
    (thenM (ensureM (customer_exists d (rf_customer_id r)) (IntegrityError ''refunds.customer_id''))
    (thenM (ensureM (case_of_customer d (rf_case_id r) (rf_customer_id r))
             (IntegrityError ''fk_refunds_case_customer''))
    (thenM (ensureM (order_of_customer d (rf_order_id r) (rf_customer_id r))
             (IntegrityError ''fk_refunds_order_customer''))
       (modify_db (\<lambda>d. d\<lparr>db_refunds := db_refunds d @ [r]\<rparr>)))))))"

section \<open>Immutable rows\<close>

text \<open>
  The mapper listeners.  \<open>before_update\<close> and \<open>before_delete\<close> on customers, orders and events
  always raise; on refunds \<open>before_update\<close> compares the row with the values it was loaded with.
  An ORM flush of a changed refund row passes this guard or raises.
\<close>

datatype immutable_table = T_customers | T_orders | T_events

fun table_name :: "immutable_table \<Rightarrow> pystr" where
  "table_name T_customers = lit ''customers''"
| "table_name T_orders = lit ''orders''"
| "table_name T_events = lit ''events''"

definition reject_immutable_row_update :: "immutable_table \<Rightarrow> error + unit" where
  "reject_immutable_row_update t =
     Inl (ImmutableRowError (lit ''updates are not permitted on '' @ table_name t))"

definition reject_immutable_row_delete :: "immutable_table \<Rightarrow> error + unit" where
  "reject_immutable_row_delete t =
     Inl (ImmutableRowError (lit ''deletes are not permitted on '' @ table_name t))"

text \<open>The changed fields; the source looks them up in a set, here they are in the order of its text.\<close>

definition refund_intent_changes :: "refund_row \<Rightarrow> refund_row \<Rightarrow> pystr list" where
  "refund_intent_changes loaded target =
     (if rf_id target \<noteq> rf_id loaded then [lit ''id''] else []) @
     (if rf_customer_id target \<noteq> rf_customer_id loaded then [lit ''customer_id''] else []) @
     (if rf_order_id target \<noteq> rf_order_id loaded then [lit ''order_id''] else []) @
     (if rf_case_id target \<noteq> rf_case_id loaded then [lit ''case_id''] else []) @
     (if rf_amount target \<noteq> rf_amount loaded then [lit ''amount''] else []) @
     (if rf_created_at target \<noteq> rf_created_at loaded then [lit ''created_at''] else [])"

definition reject_refund_intent_mutation :: "refund_row \<Rightarrow> refund_row \<Rightarrow> error + unit" where
  "reject_refund_intent_mutation loaded target =
     (case refund_intent_changes loaded target of
        field_name # _ \<Rightarrow>
          Inl (RefundIntentImmutableError (lit ''refund authorization intent field '' @ field_name @ lit '' is immutable''))
      | [] \<Rightarrow>
          (if rf_status target \<noteq> rf_status loaded
           then Inl (RefundStatusTransitionError
                  (lit ''refund status may only change via guarded SQL lifecycle transitions''))
           else Inr ()))"

definition flush_refund_update :: "pystr \<Rightarrow> (refund_row \<Rightarrow> refund_row) \<Rightarrow> unit op" where
  "flush_refund_update refund_id f = bindM (getM w_db) (\<lambda>d.
     case find (\<lambda>r. rf_id r = refund_id) (db_refunds d) of
       None \<Rightarrow> returnM ()
     | Some loaded \<Rightarrow>
         thenM (liftM (reject_refund_intent_mutation loaded (f loaded)))
           (modify_db (\<lambda>d. d\<lparr>db_refunds :=
              map (\<lambda>r. if rf_id r = refund_id then f r else r) (db_refunds d)\<rparr>)))"

section \<open>Sessions\<close>

text \<open>
  \<open>begin_nested\<close> is a savepoint: an exception restores the rows it started from and propagates.
  \<open>commit_session\<close> is \<open>session.commit()\<close>.  \<open>session_begin\<close> is
  \<open>async with session_factory.begin()\<close>: a new session over committed data that commits on exit
  and rolls back on an exception; \<open>session_scope\<close> is \<open>async with session_factory()\<close>, which
  discards what was not committed.  A new session starts from committed data; the code opens one
  only when the enclosing session has nothing uncommitted.
\<close>

definition begin_nested :: "'a op \<Rightarrow> 'a op" where
  "begin_nested m = (\<lambda>w. case m w of
     (Inr x, w') \<Rightarrow> (Inr x, w') | (Inl e, w') \<Rightarrow> (Inl e, w'\<lparr>w_db := w_db w\<rparr>))"

definition commit_session :: "unit op" where
  "commit_session = modifyM (\<lambda>w. w\<lparr>w_committed := w_db w\<rparr>)"

definition session_begin :: "'a op \<Rightarrow> 'a op" where
  "session_begin m = (\<lambda>w. case m (w\<lparr>w_db := w_committed w\<rparr>) of
     (Inr x, w') \<Rightarrow> (Inr x, w'\<lparr>w_committed := w_db w'\<rparr>)
   | (Inl e, w') \<Rightarrow> (Inl e, w'\<lparr>w_db := w_committed w'\<rparr>))"

definition session_scope :: "'a op \<Rightarrow> 'a op" where
  "session_scope m = (\<lambda>w. case m (w\<lparr>w_db := w_committed w\<rparr>) of
     (r, w') \<Rightarrow> (r, w'\<lparr>w_db := w_committed w'\<rparr>))"

section \<open>Clock and identifiers\<close>

definition clock_now :: "datetime op" where
  "clock_now = getM (\<lambda>w. case w_override_now w of Some t \<Rightarrow> t | None \<Rightarrow> w_utc_now w)"

definition next_identifier :: "string \<Rightarrow> pystr op" where
  "next_identifier prefix = bindM (getM w_counter) (\<lambda>n.
     thenM (modifyM (\<lambda>w. w\<lparr>w_counter := n + 1\<rparr>)) (returnM (lit prefix @ nat_str n)))"

definition ids_case_id :: "pystr op" where "ids_case_id = next_identifier ''case_''"

definition ids_refund_id :: "pystr op" where "ids_refund_id = next_identifier ''rfnd_''"

definition ids_event_id :: "pystr op" where "ids_event_id = next_identifier ''evt_''"

definition ids_ticket_id :: "pystr op" where "ids_ticket_id = next_identifier ''tkt_''"

definition ids_verification_token :: "pystr op" where
  "ids_verification_token = next_identifier ''vtok_''"

section \<open>Adapters\<close>

definition mailer_send :: "pystr \<Rightarrow> pystr \<Rightarrow> pystr \<Rightarrow> unit op" where
  "mailer_send to subject body = modifyM (\<lambda>w. w\<lparr>w_outbox :=
     w_outbox w @ [\<lparr>om_to = to, om_subject = subject, om_body = body\<rparr>]\<rparr>)"

definition ticketing_escalate :: "pystr \<Rightarrow> pystr op" where
  "ticketing_escalate reason = bindM ids_ticket_id (\<lambda>ticket_id.
     thenM (modifyM (\<lambda>w. w\<lparr>w_escalations :=
              w_escalations w @ [\<lparr>er_reason = reason, er_ticket_id = ticket_id\<rparr>]\<rparr>))
       (returnM ticket_id))"

text \<open>The provider: every call is recorded; a repeated key returns the first reference.\<close>

definition payment_refund :: "pystr \<Rightarrow> decimal \<Rightarrow> pystr op" where
  "payment_refund idempotency_key amount =
     thenM (modifyM (\<lambda>w. w\<lparr>w_payment_calls := w_payment_calls w @
              [\<lparr>pc_idempotency_key = idempotency_key, pc_amount = amount\<rparr>]\<rparr>))
    (bindM (getM (\<lambda>w. map_of (w_provider_refs w) idempotency_key)) (\<lambda>existing.
       case existing of
         Some provider_ref \<Rightarrow> returnM provider_ref
       | None \<Rightarrow>
           thenM (modifyM (\<lambda>w. w\<lparr>w_provider_refs :=
                    (idempotency_key, lit ''pay_'' @ idempotency_key) # w_provider_refs w\<rparr>))
             (returnM (lit ''pay_'' @ idempotency_key))))"

end
