(* ===== verification/Repositories.thy ===== *)
theory Repositories
  imports World
begin

text \<open>
  The repositories (\<open>repositories/\<close>): customer locks and lookups, relational scope, the append
  protocol for canonical events with its per-customer sequence, stream loading, case and order
  lookups, guarded refund status transitions, refund queries and the check of a refund row
  against its proposal evidence.  Row locks and advisory locks order concurrent transactions;
  the operations here are modelled one after the other, so a lock is only its existence check.
\<close>

section \<open>Customers\<close>

definition find_customer_by_id :: "pystr \<Rightarrow> customer_row option op" where
  "find_customer_by_id customer_id =
     getM (\<lambda>w. find (\<lambda>r. cu_id r = customer_id) (db_customers (w_db w)))"

definition lock_customer_for_update :: "pystr \<Rightarrow> customer_row op" where
  "lock_customer_for_update customer_id =
     bindM (find_customer_by_id customer_id) (\<lambda>r.
       case r of None \<Rightarrow> raiseM (CustomerNotFoundError customer_id) | Some row \<Rightarrow> returnM row)"

text \<open>\<open>str.lower\<close>, on the ASCII letters; the mapping of other letters is not modelled.\<close>

definition normalized_email :: "pystr \<Rightarrow> pystr" where
  "normalized_email email = map (\<lambda>c. if 65 \<le> c \<and> c \<le> 90 then c + 32 else c) email"

definition find_customer_by_email :: "pystr \<Rightarrow> customer_row option op" where
  "find_customer_by_email email =
     getM (\<lambda>w. find (\<lambda>r. cu_email r = normalized_email email) (db_customers (w_db w)))"

section \<open>Orders\<close>

definition list_orders_for_customer :: "pystr \<Rightarrow> order_row list op" where
  "list_orders_for_customer customer_id = getM (\<lambda>w.
     sort_key or_id (filter (\<lambda>r. or_customer_id r = customer_id) (db_orders (w_db w))))"

definition find_order_by_id :: "pystr \<Rightarrow> order_row option op" where
  "find_order_by_id order_id = getM (\<lambda>w. find (\<lambda>r. or_id r = order_id) (db_orders (w_db w)))"

definition load_disclosed_order_rows :: "pystr \<Rightarrow> pystr set \<Rightarrow> order_row list op" where
  "load_disclosed_order_rows customer_id order_ids =
     (if order_ids = {} then returnM []
      else foldM (\<lambda>rows order_id. bindM (find_order_by_id order_id) (\<lambda>row.
             case row of
               Some r \<Rightarrow> (if or_customer_id r = customer_id then returnM (rows @ [r]) else returnM rows)
             | None \<Rightarrow> returnM rows))
           [] (sorted_list_of_set order_ids))"

section \<open>Cases\<close>

definition find_case_by_id :: "pystr \<Rightarrow> case_row option op" where
  "find_case_by_id case_id = getM (\<lambda>w. find (\<lambda>r. ca_id r = case_id) (db_cases (w_db w)))"

definition list_cases_for_customer_ordered :: "pystr \<Rightarrow> case_row list op" where
  "list_cases_for_customer_ordered customer_id = getM (\<lambda>w.
     sort_key ca_created_at (filter (\<lambda>r. ca_customer_id r = customer_id) (db_cases (w_db w))))"

definition find_case_for_customer_by_opening_message_id :: "pystr \<Rightarrow> pystr \<Rightarrow> case_row option op" where
  "find_case_for_customer_by_opening_message_id customer_id opening_message_id = getM (\<lambda>w.
     find (\<lambda>r. ca_customer_id r = customer_id \<and> ca_opening_message_id r = opening_message_id)
       (db_cases (w_db w)))"

record verification_request_lookup =
  vl_case_id :: pystr
  vl_customer_id :: pystr
  vl_event_id :: pystr
  vl_token :: pystr
  vl_expires_at :: datetime

definition find_verification_request_by_token :: "pystr \<Rightarrow> verification_request_lookup option op" where
  "find_verification_request_by_token token =
     bindM (getM (\<lambda>w. find (\<lambda>e. ev_event_type e = ET_VERIFICATION_REQUESTED \<and>
              map_of (ev_payload e) ''token'' = Some (VStr token)) (db_events (w_db w)))) (\<lambda>event_row.
       case event_row of
         None \<Rightarrow> returnM None
       | Some e \<Rightarrow>
           (case ev_case_id e of
              None \<Rightarrow> returnM None
            | Some case_id \<Rightarrow>
                bindM (liftM (model_validate M_VerificationRequested (ev_payload e))) (\<lambda>p.
                  case p of
                    VerificationRequestedPayload tok expires_at \<Rightarrow>
                      returnM (Some \<lparr>vl_case_id = case_id, vl_customer_id = ev_customer_id e,
                        vl_event_id = ev_id e, vl_token = tok, vl_expires_at = expires_at\<rparr>)
                  | _ \<Rightarrow> raiseM ValidationError)))"

section \<open>Relational scope\<close>

definition load_case_customer_id :: "pystr \<Rightarrow> pystr option op" where
  "load_case_customer_id case_id = getM (\<lambda>w.
     map_option ca_customer_id (find (\<lambda>r. ca_id r = case_id) (db_cases (w_db w))))"

definition load_order_customer_id :: "pystr \<Rightarrow> pystr option op" where
  "load_order_customer_id order_id = getM (\<lambda>w.
     map_option or_customer_id (find (\<lambda>r. or_id r = order_id) (db_orders (w_db w))))"

definition scope_error :: "pystr \<Rightarrow> error" where
  "scope_error = InvalidEventRelationalScopeError"

text \<open>The two guarded lookups of \<open>validate_event_relational_scope\<close>, then their comparison.\<close>

definition case_scope_customer :: "pystr \<Rightarrow> pystr option \<Rightarrow> pystr option op" where
  "case_scope_customer customer_id case_id =
     (case case_id of
        None \<Rightarrow> returnM None
      | Some c \<Rightarrow> bindM (load_case_customer_id c) (\<lambda>owner.
          case owner of
            None \<Rightarrow> raiseM (scope_error (lit ''case '' @ c @ lit '' does not exist''))
          | Some u \<Rightarrow>
              (if u \<noteq> customer_id
               then raiseM (scope_error (lit ''case '' @ c @ lit '' belongs to customer '' @ u @
                      lit '', not '' @ customer_id))
               else returnM (Some u))))"

definition check_order_scope :: "pystr \<Rightarrow> pystr option \<Rightarrow> unit op" where
  "check_order_scope customer_id order_id =
     (case order_id of
        None \<Rightarrow> returnM ()
      | Some ord \<Rightarrow> bindM (load_order_customer_id ord) (\<lambda>owner.
          case owner of
            None \<Rightarrow> raiseM (scope_error (lit ''order '' @ ord @ lit '' does not exist''))
          | Some u \<Rightarrow>
              (if u \<noteq> customer_id
               then raiseM (scope_error (lit ''order '' @ ord @ lit '' belongs to customer '' @ u @
                      lit '', not '' @ customer_id))
               else returnM ())))"

definition validate_event_relational_scope ::
  "pystr \<Rightarrow> pystr option \<Rightarrow> pystr option \<Rightarrow> unit op" where
  "validate_event_relational_scope customer_id case_id order_id =
     bindM (case_scope_customer customer_id case_id) (\<lambda>case_customer_id.
     thenM (check_order_scope customer_id order_id)
       (case (case_id, order_id, case_customer_id) of
          (Some c, Some ord, Some cu) \<Rightarrow> bindM (load_order_customer_id ord) (\<lambda>owner.
            if owner \<noteq> Some cu
            then raiseM (scope_error (lit ''case '' @ c @ lit '' and order '' @ ord @
                   lit '' belong to different customers''))
            else returnM ())
        | _ \<Rightarrow> returnM ()))"

definition validate_refund_relational_scope :: "pystr \<Rightarrow> pystr \<Rightarrow> pystr op" where
  "validate_refund_relational_scope case_id order_id =
     bindM (load_case_customer_id case_id) (\<lambda>case_owner.
       case case_owner of
         None \<Rightarrow> raiseM (scope_error (lit ''case '' @ case_id @ lit '' does not exist''))
       | Some case_customer_id \<Rightarrow>
           bindM (load_order_customer_id order_id) (\<lambda>order_owner.
             case order_owner of
               None \<Rightarrow> raiseM (scope_error (lit ''order '' @ order_id @ lit '' does not exist''))
             | Some order_customer_id \<Rightarrow>
                 (if case_customer_id \<noteq> order_customer_id
                  then raiseM (scope_error (lit ''case '' @ case_id @ lit '' belongs to customer '' @
                         case_customer_id @ lit '' but order '' @ order_id @
                         lit '' belongs to customer '' @ order_customer_id))
                  else returnM case_customer_id)))"

section \<open>The event log\<close>

definition ensure_event_sequence_row :: "pystr \<Rightarrow> unit op" where
  "ensure_event_sequence_row customer_id = bindM (getM w_db) (\<lambda>d.
     if map_of (db_event_sequences d) customer_id \<noteq> None then returnM ()
     else thenM (ensureM (customer_exists d customer_id) (IntegrityError ''event_sequences.customer_id''))
       (modify_db (\<lambda>d. d\<lparr>db_event_sequences := db_event_sequences d @ [(customer_id, 0)]\<rparr>)))"

text \<open>\<open>UPDATE ... SET next_seq = next_seq + 1 ... RETURNING next_seq\<close>.\<close>

definition bump_event_sequence :: "pystr \<Rightarrow> int option op" where
  "bump_event_sequence customer_id = bindM (getM w_db) (\<lambda>d.
     case map_of (db_event_sequences d) customer_id of
       None \<Rightarrow> returnM None
     | Some n \<Rightarrow>
         thenM (modify_db (\<lambda>d. d\<lparr>db_event_sequences :=
             map (\<lambda>(c, k). if c = customer_id then (c, k + 1) else (c, k)) (db_event_sequences d)\<rparr>))
           (returnM (Some (n + 1))))"

definition allocate_customer_event_seq :: "pystr \<Rightarrow> int op" where
  "allocate_customer_event_seq customer_id =
     bindM (bump_event_sequence customer_id) (\<lambda>allocated.
       case allocated of
         Some n \<Rightarrow> returnM n
       | None \<Rightarrow>
           thenM (ensure_event_sequence_row customer_id)
          (bindM (bump_event_sequence customer_id) (\<lambda>allocated.
             case allocated of
               Some n \<Rightarrow> returnM n
             | None \<Rightarrow> raiseM (RuntimeError
                 (lit ''failed to allocate event sequence for customer '' @ customer_id)))))"

definition append_canonical_event ::
  "event_type_arg \<Rightarrow> pystr \<Rightarrow> pystr option \<Rightarrow> pystr option \<Rightarrow> actor \<Rightarrow> channel \<Rightarrow> pdict
     \<Rightarrow> stored_event op" where
  "append_canonical_event et customer_id case_id order_id actor channel payload =
     bindM (lock_customer_for_update customer_id) (\<lambda>_.
     bindM (liftM (build_canonical_event et customer_id case_id order_id actor channel payload))
       (\<lambda>canonical.
     thenM (validate_event_relational_scope (ce_customer_id canonical) (ce_case_id canonical)
              (ce_order_id canonical))
    (bindM (allocate_customer_event_seq customer_id) (\<lambda>next_seq.
     bindM clock_now (\<lambda>created_at.
     bindM ids_event_id (\<lambda>event_id.
     let event_row = \<lparr>ev_id = event_id, ev_customer_id = ce_customer_id canonical,
           ev_case_id = ce_case_id canonical, ev_order_id = ce_order_id canonical,
           ev_seq = next_seq, ev_event_type = ce_event_type canonical,
           ev_actor = ce_actor canonical, ev_channel = ce_channel canonical,
           ev_payload = payload_as_dict canonical, ev_created_at = created_at\<rparr>
     in thenM (insert_event event_row) (returnM event_row)))))))"

definition load_customer_events :: "pystr \<Rightarrow> stored_event list op" where
  "load_customer_events customer_id = getM (\<lambda>w.
     sort_key ev_seq (filter (\<lambda>e. ev_customer_id e = customer_id) (db_events (w_db w))))"

definition load_case_events :: "pystr \<Rightarrow> stored_event list op" where
  "load_case_events case_id = getM (\<lambda>w.
     sort_key ev_seq (filter (\<lambda>e. ev_case_id e = Some case_id) (db_events (w_db w))))"

section \<open>Refund status transitions\<close>

fun allowed_refund_status_targets :: "refund_status \<Rightarrow> refund_status set" where
  "allowed_refund_status_targets RS_PENDING_APPROVAL = {RS_APPROVED, RS_REJECTED, RS_EXPIRED}"
| "allowed_refund_status_targets RS_APPROVED = {RS_EXECUTED}"
| "allowed_refund_status_targets _ = {}"

definition assert_refund_status_transition_permitted ::
  "refund_status \<Rightarrow> refund_status \<Rightarrow> error + unit" where
  "assert_refund_status_transition_permitted from_status to_status =
     (if to_status \<notin> allowed_refund_status_targets from_status
      then Inl (RefundStatusTransitionError (lit ''refund status transition '' @
             refund_status_value from_status @ lit '' -> '' @ refund_status_value to_status @
             lit '' is not permitted''))
      else Inr ())"

record refund_intent_binding =
  ib_order_id :: pystr
  ib_case_id :: pystr
  ib_amount :: decimal

text \<open>The \<open>WHERE\<close> clause of the guarded update.\<close>

definition transition_matches ::
  "pystr \<Rightarrow> refund_status \<Rightarrow> refund_intent_binding option \<Rightarrow> refund_row \<Rightarrow> bool" where
  "transition_matches refund_id from_status binding r \<longleftrightarrow>
     rf_id r = refund_id \<and> rf_status r = from_status \<and>
     (case binding of
        None \<Rightarrow> True
      | Some b \<Rightarrow> rf_order_id r = ib_order_id b \<and> rf_case_id r = ib_case_id b \<and>
          dec_eq (rf_amount r) (ib_amount b))"

definition set_refund_status :: "refund_status \<Rightarrow> bool \<Rightarrow> refund_row \<Rightarrow> refund_row" where
  "set_refund_status to_status clear r =
     (if clear then r\<lparr>rf_status := to_status, rf_approval_expires_at := None\<rparr>
      else r\<lparr>rf_status := to_status\<rparr>)"

definition transition_refund_status ::
  "pystr \<Rightarrow> refund_status \<Rightarrow> refund_status \<Rightarrow> refund_intent_binding option \<Rightarrow> bool \<Rightarrow> bool op" where
  "transition_refund_status refund_id from_status to_status binding clear_approval_expires_at =
     thenM (liftM (assert_refund_status_transition_permitted from_status to_status))
    (bindM (getM (\<lambda>w. length (filter (transition_matches refund_id from_status binding)
              (db_refunds (w_db w))))) (\<lambda>rowcount.
     thenM (modify_db (\<lambda>d. d\<lparr>db_refunds :=
              map (\<lambda>r. if transition_matches refund_id from_status binding r
                       then set_refund_status to_status clear_approval_expires_at r else r)
                (db_refunds d)\<rparr>))
       (returnM (rowcount = 1))))"

section \<open>Refund queries\<close>

definition approval_window_is_open :: "datetime option \<Rightarrow> datetime \<Rightarrow> bool" where
  "approval_window_is_open approval_expires_at now =
     (case approval_expires_at of None \<Rightarrow> False | Some t \<Rightarrow> now < t)"

text \<open>SQL comparisons: a null column satisfies neither clause.\<close>

definition active_pending_refund_clause :: "datetime \<Rightarrow> refund_row \<Rightarrow> bool" where
  "active_pending_refund_clause now r =
     (case rf_approval_expires_at r of None \<Rightarrow> False | Some t \<Rightarrow> t > now)"

definition due_for_expiry_clause :: "datetime \<Rightarrow> refund_row \<Rightarrow> bool" where
  "due_for_expiry_clause now r =
     (case rf_approval_expires_at r of None \<Rightarrow> False | Some t \<Rightarrow> t \<le> now)"

definition find_refund_by_id :: "pystr \<Rightarrow> refund_row option op" where
  "find_refund_by_id refund_id =
     getM (\<lambda>w. find (\<lambda>r. rf_id r = refund_id) (db_refunds (w_db w)))"

definition require_refund_by_id :: "pystr \<Rightarrow> refund_row op" where
  "require_refund_by_id refund_id = bindM (find_refund_by_id refund_id) (\<lambda>r.
     case r of None \<Rightarrow> raiseM (RefundNotFoundError refund_id) | Some row \<Rightarrow> returnM row)"

definition find_open_refund_for_order :: "pystr \<Rightarrow> refund_row option op" where
  "find_open_refund_for_order order_id = getM (\<lambda>w.
     find (\<lambda>r. rf_order_id r = order_id \<and> live_refund_status (rf_status r)) (db_refunds (w_db w)))"

definition list_active_pending_refunds :: "datetime \<Rightarrow> refund_row list op" where
  "list_active_pending_refunds now = getM (\<lambda>w.
     sort_key (\<lambda>r. the (rf_approval_expires_at r)) (sort_key rf_id
       (filter (\<lambda>r. rf_status r = RS_PENDING_APPROVAL \<and> active_pending_refund_clause now r)
         (db_refunds (w_db w)))))"

section \<open>Refund intent evidence\<close>

definition intent_error :: "string \<Rightarrow> pystr \<Rightarrow> error" where
  "intent_error what refund_id =
     RefundIntentIntegrityError (lit ''refund intent integrity failure: '' @ lit what @ lit '' for '' @ refund_id)"

definition proposed_payload :: "stored_event \<Rightarrow> error + (pystr \<times> decimal)" where
  "proposed_payload e = bindE (model_validate M_RefundProposed (ev_payload e)) (\<lambda>p.
     case p of RefundProposedPayload refund_id amount \<Rightarrow> Inr (refund_id, amount)
     | _ \<Rightarrow> Inl ValidationError)"

definition matching_proposals :: "pystr \<Rightarrow> stored_event list \<Rightarrow> error + stored_event list" where
  "matching_proposals refund_id events = foldE (\<lambda>matching e.
     if ev_event_type e \<noteq> ET_REFUND_PROPOSED then Inr matching
     else bindE (proposed_payload e) (\<lambda>(rid, _).
       if rid \<noteq> refund_id then Inr matching else Inr (matching @ [e]))) [] events"

definition load_canonical_refund_proposed_event :: "pystr \<Rightarrow> pystr \<Rightarrow> stored_event op" where
  "load_canonical_refund_proposed_event case_id refund_id =
     bindM (load_case_events case_id) (\<lambda>case_events.
     bindM (liftM (matching_proposals refund_id case_events)) (\<lambda>matching.
       case matching of
         [] \<Rightarrow> raiseM (intent_error ''no refund_proposed evidence'' refund_id)
       | [e] \<Rightarrow> returnM e
       | _ \<Rightarrow> raiseM (intent_error ''ambiguous refund_proposed evidence'' refund_id)))"

definition comma_separated :: "pystr list \<Rightarrow> pystr" where
  "comma_separated names = (case names of [] \<Rightarrow> [] | x # xs \<Rightarrow> x @ concat (map (\<lambda>y. lit '', '' @ y) xs))"

definition evidence_mismatches :: "refund_row \<Rightarrow> pystr \<Rightarrow> stored_event \<Rightarrow> pystr \<Rightarrow> decimal \<Rightarrow> pystr list" where
  "evidence_mismatches r customer_id e refund_id amount =
     (if ev_customer_id e \<noteq> customer_id then [lit ''customer_id''] else []) @
     (if ev_customer_id e \<noteq> rf_customer_id r then [lit ''refund_row.customer_id''] else []) @
     (if ev_case_id e \<noteq> Some (rf_case_id r) then [lit ''case_id''] else []) @
     (if ev_order_id e \<noteq> Some (rf_order_id r) then [lit ''order_id''] else []) @
     (if refund_id \<noteq> rf_id r then [lit ''refund_id''] else []) @
     (if \<not> dec_eq amount (rf_amount r) then [lit ''amount''] else [])"

text \<open>Returns the payload of the sole proposal event, or raises when any field disagrees.\<close>

definition validate_refund_intent_against_proposed_evidence ::
  "refund_row \<Rightarrow> pystr \<Rightarrow> (pystr \<times> decimal) op" where
  "validate_refund_intent_against_proposed_evidence r customer_id =
     bindM (load_canonical_refund_proposed_event (rf_case_id r) (rf_id r)) (\<lambda>e.
     bindM (liftM (proposed_payload e)) (\<lambda>(refund_id, amount).
       let mismatches = evidence_mismatches r customer_id e refund_id amount in
       if mismatches \<noteq> []
       then raiseM (RefundIntentIntegrityError
              (lit ''refund intent integrity failure: refund row disagrees with refund_proposed evidence ('' @
               comma_separated (sort mismatches) @ lit '') for '' @ rf_id r))
       else returnM (refund_id, amount)))"

lemma evidence_agrees:
  "evidence_mismatches r u e refund_id amount = [] \<longleftrightarrow>
     ev_customer_id e = u \<and> ev_customer_id e = rf_customer_id r \<and> ev_case_id e = Some (rf_case_id r) \<and>
     ev_order_id e = Some (rf_order_id r) \<and> refund_id = rf_id r \<and> dec_eq amount (rf_amount r)"
  by (simp add: evidence_mismatches_def)

end
