(* ===== verification/Gate_Common.thy ===== *)
theory Gate_Common
  imports Repositories
begin

text \<open>
  The part of the gate every operation shares (\<open>gate/common.py\<close>): loading the rule context,
  expiring due refunds, recording denials and escalations; the escalation and the effects of the
  actions that do not move money (\<open>gate/effects.py\<close>, \<open>gate/operations.py\<close>).
\<close>

section \<open>Appending typed payloads\<close>

abbreviation append_event ::
  "event_type \<Rightarrow> pystr \<Rightarrow> pystr option \<Rightarrow> pystr option \<Rightarrow> actor \<Rightarrow> channel \<Rightarrow> payload
     \<Rightarrow> stored_event op" where
  "append_event et customer_id case_id order_id actor channel payload \<equiv>
     append_canonical_event (EvMember et) customer_id case_id order_id actor channel
       (model_dump payload)"

section \<open>Context\<close>

definition find_open_case_ids_for_customer :: "pystr \<Rightarrow> datetime \<Rightarrow> pystr list op" where
  "find_open_case_ids_for_customer customer_id now =
     bindM (load_customer_events customer_id) (\<lambda>events.
     bindM (list_cases_for_customer_ordered customer_id) (\<lambda>rows.
       foldM (\<lambda>open_ids row.
         bindM (liftM (project_case_summary (ca_id row) customer_id events now)) (\<lambda>summary.
           returnM (if cs_status summary = CS_OPEN then open_ids @ [ca_id row] else open_ids)))
         [] rows))"

definition escalated_actor_for_origin :: "escalation_origin \<Rightarrow> actor" where
  "escalated_actor_for_origin origin = (if origin = EO_AGENT then Actor_AGENT else Actor_SYSTEM)"

fun case_outcome_for_escalation_origin :: "escalation_origin \<Rightarrow> case_outcome" where
  "case_outcome_for_escalation_origin EO_AGENT = CO_ESCALATED"
| "case_outcome_for_escalation_origin EO_POLICY = CO_ESCALATED"
| "case_outcome_for_escalation_origin EO_STEP_LIMIT = CO_STEP_LIMIT"
| "case_outcome_for_escalation_origin EO_PARSE_LIMIT = CO_PARSE_LIMIT"
| "case_outcome_for_escalation_origin EO_MODEL_FAILURE = CO_MODEL_FAILURE"

definition load_linked_order_summary ::
  "pystr option \<Rightarrow> stored_event list \<Rightarrow> datetime \<Rightarrow> order_summary option op" where
  "load_linked_order_summary linked events now =
     (case linked of
        None \<Rightarrow> returnM None
      | Some order_id \<Rightarrow>
          bindM (find_order_by_id order_id) (\<lambda>row.
            case row of
              None \<Rightarrow> returnM None
            | Some r \<Rightarrow>
                bindM (liftM (project_order_summary
                    \<lparr>oseed_order_id = or_id r, oseed_customer_id = or_customer_id r,
                     oseed_total = or_total r\<rparr> events now)) (\<lambda>summary. returnM (Some summary))))"

definition load_rule_context_for_case :: "pystr \<Rightarrow> (case_row \<times> rule_context) op" where
  "load_rule_context_for_case case_id =
     bindM (find_case_by_id case_id) (\<lambda>found. case found of
       None \<Rightarrow> raiseM (CaseNotFoundError case_id)
     | Some case_row \<Rightarrow>
     bindM (find_customer_by_id (ca_customer_id case_row)) (\<lambda>found. case found of
       None \<Rightarrow> raiseM (LookupError (lit ''Customer not found: '' @ ca_customer_id case_row))
     | Some customer_row \<Rightarrow>
     bindM (load_customer_events (ca_customer_id case_row)) (\<lambda>events.
     bindM clock_now (\<lambda>now.
     bindM (liftM (project_case_summary case_id (ca_customer_id case_row) events now)) (\<lambda>case_summary.
     bindM (load_linked_order_summary (cs_linked_order_id case_summary) events now) (\<lambda>linked.
     bindM (list_orders_for_customer (ca_customer_id case_row)) (\<lambda>orders.
       returnM (case_row,
         \<lparr>rc_now = now,
          rc_customer = project_customer_summary
            \<lparr>cseed_customer_id = cu_id customer_row, cseed_email = cu_email customer_row\<rparr> events now,
          rc_case = case_summary, rc_linked_order = linked,
          rc_customer_order_ids = set (map or_id orders),
          rc_refund_approval_threshold = REFUND_APPROVAL_THRESHOLD,
          rc_denial_loop_threshold = DENIAL_LOOP_THRESHOLD\<rparr>))))))))"

section \<open>Expiry\<close>

definition due_refund_rows :: "pystr \<Rightarrow> datetime \<Rightarrow> refund_row list op" where
  "due_refund_rows customer_id now = getM (\<lambda>w.
     sort_key rf_case_id (sort_key rf_id
       (filter (\<lambda>r. case_of_customer (w_db w) (rf_case_id r) customer_id \<and>
                  rf_status r = RS_PENDING_APPROVAL \<and> due_for_expiry_clause now r)
         (db_refunds (w_db w)))))"

text \<open>One turn of the expiry loop; the accumulator is the insertion-ordered set of case ids.\<close>

definition expire_one_refund :: "pystr \<Rightarrow> pystr list \<Rightarrow> refund_row \<Rightarrow> pystr list op" where
  "expire_one_refund customer_id expired_case_ids r =
     bindM (transition_refund_status (rf_id r) RS_PENDING_APPROVAL RS_EXPIRED None True) (\<lambda>moved.
       if \<not> moved then returnM expired_case_ids
       else bindM (append_event ET_REFUND_EXPIRED customer_id (Some (rf_case_id r))
                     (Some (rf_order_id r)) Actor_SYSTEM Channel_INTERNAL
                     (RefundExpiredPayload (rf_id r))) (\<lambda>_.
            returnM (if rf_case_id r \<in> set expired_case_ids then expired_case_ids
                     else expired_case_ids @ [rf_case_id r])))"

definition expire_due_refunds_for_customer :: "pystr \<Rightarrow> pystr list op" where
  "expire_due_refunds_for_customer customer_id =
     bindM (lock_customer_for_update customer_id) (\<lambda>_.
     bindM clock_now (\<lambda>now.
     bindM (due_refund_rows customer_id now) (\<lambda>due.
     bindM (foldM (expire_one_refund customer_id) [] due) (\<lambda>expired_case_ids.
       if expired_case_ids = [] then returnM []
       else bindM (load_customer_events customer_id) (\<lambda>events.
         foldM (\<lambda>reopened case_id.
           bindM (liftM (project_case_summary case_id customer_id events now)) (\<lambda>summary.
             returnM (if cs_status summary = CS_OPEN then reopened @ [case_id] else reopened)))
           [] (sort expired_case_ids))))))"

section \<open>Denials and escalations\<close>

definition append_action_denied ::
  "pystr \<Rightarrow> pystr \<Rightarrow> action \<Rightarrow> pystr \<times> pystr \<times> pystr \<Rightarrow> stored_event op" where
  "append_action_denied customer_id case_id action deny =
     (case deny of (rule, agent_reason, customer_reason) \<Rightarrow>
        append_event ET_ACTION_DENIED customer_id (Some case_id) None Actor_SYSTEM Channel_INTERNAL
          (ActionDeniedPayload (action_discriminator action) rule agent_reason customer_reason))"

definition append_escalated_and_case_closed ::
  "pystr \<Rightarrow> pystr \<Rightarrow> escalation_origin \<Rightarrow> pystr \<Rightarrow> pystr \<Rightarrow> stored_event op" where
  "append_escalated_and_case_closed customer_id case_id origin reason ticket_id =
     thenM (append_event ET_ESCALATED customer_id (Some case_id) None
              (escalated_actor_for_origin origin) Channel_INTERNAL
              (EscalatedPayload reason origin ticket_id))
       (append_event ET_CASE_CLOSED customer_id (Some case_id) None Actor_SYSTEM Channel_INTERNAL
          (CaseClosedPayload (case_outcome_for_escalation_origin origin) None))"

definition raise_unreachable_require_approval :: "action \<Rightarrow> error" where
  "raise_unreachable_require_approval a =
     AssertionError (lit ''RequireApproval is unreachable for non-refund action '' @ action_discriminator a)"

text \<open>
  The reason of an escalation comes from the evidence its origin requires; \<open>force_escalate\<close> is
  the rule and reason of a \<open>ForceEscalate\<close> verdict.
\<close>

type_synonym force_escalate = "pystr \<times> pystr"

definition escalation_reason ::
  "pystr \<Rightarrow> escalation_origin \<Rightarrow> pystr option \<Rightarrow> authorisation option \<Rightarrow> force_escalate option
     \<Rightarrow> error + pystr" where
  "escalation_reason case_id origin reason authorisation force_escalate =
     (case origin of
        EO_AGENT \<Rightarrow>
          (case authorisation of
             None \<Rightarrow> Inl (AuthorisationError (lit ''agent escalation requires a matching authorisation''))
           | Some auth \<Rightarrow>
               if force_escalate \<noteq> None \<or> reason \<noteq> None
               then Inl (AuthorisationError
                 (lit ''agent escalation reason must come from the bound Escalate action''))
               else (case snd (auth_action auth) of
                  Escalate why \<Rightarrow> bindE (spend auth case_id (auth_action auth)) (\<lambda>_. Inr why)
                | _ \<Rightarrow> Inl (AuthorisationError
                    (lit ''authorisation action must be Escalate for agent escalation''))))
      | EO_POLICY \<Rightarrow>
          (case force_escalate of
             None \<Rightarrow> Inl (ValueError (lit ''policy escalation requires ForceEscalate evidence''))
           | Some (_, why) \<Rightarrow>
               if authorisation \<noteq> None \<or> reason \<noteq> None
               then Inl (ValueError (lit ''policy escalation reason must come from ForceEscalate evidence''))
               else Inr why)
      | _ \<Rightarrow>
          (case reason of
             None \<Rightarrow> Inl (ValueError (lit ''trusted system escalation requires reason''))
           | Some why \<Rightarrow>
               if authorisation \<noteq> None \<or> force_escalate \<noteq> None
               then Inl (ValueError
                 (lit ''trusted system escalation does not accept capability evidence''))
               else Inr why))"

definition escalate_case ::
  "pystr \<Rightarrow> escalation_origin \<Rightarrow> pystr option \<Rightarrow> authorisation option \<Rightarrow> force_escalate option
     \<Rightarrow> stored_event op" where
  "escalate_case case_id origin reason authorisation force_escalate =
     bindM (find_case_by_id case_id) (\<lambda>found. case found of
       None \<Rightarrow> raiseM (CaseNotFoundError case_id)
     | Some case_row \<Rightarrow>
         bindM (liftM (escalation_reason case_id origin reason authorisation force_escalate)) (\<lambda>why.
         bindM (ticketing_escalate why) (\<lambda>ticket_id.
           append_escalated_and_case_closed (ca_customer_id case_row) case_id origin why ticket_id)))"

definition send_unknown_sender_reply :: "pystr \<Rightarrow> unit op" where
  "send_unknown_sender_reply email = mailer_send email UNKNOWN_SENDER_SUBJECT UNKNOWN_SENDER_BODY"

section \<open>Effects of allowed actions\<close>

definition allow_get_orders :: "authorisation \<Rightarrow> pystr \<Rightarrow> pystr \<Rightarrow> proposal \<Rightarrow> stored_event op" where
  "allow_get_orders authorisation customer_id case_id p =
     bindM (liftM (spend authorisation case_id p)) (\<lambda>_.
     bindM (list_orders_for_customer customer_id) (\<lambda>orders.
       append_event ET_ORDERS_LISTED customer_id (Some case_id) None Actor_AGENT Channel_INTERNAL
         (OrdersListedPayload (map or_id orders))))"

definition allow_link_order ::
  "authorisation \<Rightarrow> pystr \<Rightarrow> pystr \<Rightarrow> proposal \<Rightarrow> pystr \<Rightarrow> stored_event op" where
  "allow_link_order authorisation customer_id case_id p order_id =
     bindM (liftM (spend authorisation case_id p)) (\<lambda>_.
       append_event ET_ORDER_LINKED customer_id (Some case_id) (Some order_id) Actor_AGENT
         Channel_INTERNAL (OrderLinkedPayload order_id))"

definition require_case_customer :: "case_row \<Rightarrow> customer_row op" where
  "require_case_customer case_row =
     bindM (find_customer_by_id (ca_customer_id case_row)) (\<lambda>found. case found of
       None \<Rightarrow> raiseM (LookupError (lit ''Customer not found: '' @ ca_customer_id case_row))
     | Some customer_row \<Rightarrow> returnM customer_row)"

definition allow_send_reply ::
  "authorisation \<Rightarrow> case_row \<Rightarrow> pystr \<Rightarrow> proposal \<Rightarrow> pystr \<Rightarrow> pystr \<Rightarrow> stored_event op" where
  "allow_send_reply authorisation case_row case_id p subject body =
     bindM (liftM (spend authorisation case_id p)) (\<lambda>_.
     bindM (require_case_customer case_row) (\<lambda>customer_row.
     thenM (mailer_send (cu_email customer_row) subject body)
       (append_event ET_REPLY_SENT (ca_customer_id case_row) (Some case_id) None Actor_AGENT
          Channel_INTERNAL (ReplySentPayload subject body))))"

definition allow_request_verification ::
  "authorisation \<Rightarrow> case_row \<Rightarrow> pystr \<Rightarrow> proposal \<Rightarrow> datetime \<Rightarrow> stored_event op" where
  "allow_request_verification authorisation case_row case_id p now =
     bindM (liftM (spend authorisation case_id p)) (\<lambda>_.
     bindM (require_case_customer case_row) (\<lambda>customer_row.
     bindM ids_verification_token (\<lambda>token.
     thenM (mailer_send (cu_email customer_row) VERIFICATION_SUBJECT (VERIFICATION_BODY token))
       (append_event ET_VERIFICATION_REQUESTED (ca_customer_id case_row) (Some case_id) None
          Actor_AGENT Channel_INTERNAL
          (VerificationRequestedPayload token (now + seconds VERIFICATION_TTL_SECONDS))))))"

definition allow_finish ::
  "authorisation \<Rightarrow> pystr \<Rightarrow> pystr \<Rightarrow> proposal \<Rightarrow> pystr \<Rightarrow> stored_event op" where
  "allow_finish authorisation customer_id case_id p summary =
     bindM (liftM (spend authorisation case_id p)) (\<lambda>_.
       append_event ET_CASE_CLOSED customer_id (Some case_id) None Actor_SYSTEM Channel_INTERNAL
         (CaseClosedPayload CO_FINISHED (Some summary)))"

definition dispatch_require_approval_verdict :: "action \<Rightarrow> verdict op" where
  "dispatch_require_approval_verdict a =
     (case a of
        ProposeRefund _ \<Rightarrow> raiseM (RuntimeError
          (lit ''ProposeRefund RequireApproval must be dispatched by execute_agent_action.''))
      | _ \<Rightarrow> raiseM (raise_unreachable_require_approval a))"

definition dispatch_allow_verdict ::
  "authorisation \<Rightarrow> case_row \<Rightarrow> pystr \<Rightarrow> proposal \<Rightarrow> rule_context \<Rightarrow> stored_event op" where
  "dispatch_allow_verdict authorisation case_row case_id p ctx =
     (case snd p of
        ProposeRefund _ \<Rightarrow> raiseM (RuntimeError
          (lit ''ProposeRefund must be dispatched by execute_agent_action.''))
      | GetOrders \<Rightarrow> allow_get_orders authorisation (ca_customer_id case_row) case_id p
      | LinkOrder order_id \<Rightarrow>
          allow_link_order authorisation (ca_customer_id case_row) case_id p order_id
      | SendReply subject body \<Rightarrow> allow_send_reply authorisation case_row case_id p subject body
      | RequestVerification \<Rightarrow>
          allow_request_verification authorisation case_row case_id p (rc_now ctx)
      | Finish summary \<Rightarrow> allow_finish authorisation (ca_customer_id case_row) case_id p summary
      | Escalate _ \<Rightarrow> raiseM (RuntimeError
          (lit ''Escalate must be dispatched by execute_agent_action.'')))"

end
