(* ===== verification/Gateway.thy ===== *)
theory Gateway
  imports Prompt Parsing Gate_Common
begin

text \<open>
  The boundary to the model: the request that is sent (\<open>agent/prompt_serialization.py\<close>), the
  gateway (\<open>agent/gateway.py\<close>) and the boundary function of the loop
  (\<open>agent/model_boundary.py\<close>).  A transport is third-party: it is any function that answers a
  request with bytes or an exception.  Its answer may depend on the world it is called in, which
  covers transports with state of their own, such as a script, because the loop appends an event
  between any two calls.
\<close>

section \<open>Requests\<close>

definition serialize_order_view :: "order_view \<Rightarrow> json" where
  "serialize_order_view order =
     jobj [(''id'', JStr (ov_id order)),
           (''item'', jobj [(''provenance'', JStr (uf_provenance (ov_item order))),
                            (''value'', JStr (uf_value (ov_item order)))]),
           (''total'', JStr (dec_format_f (ov_total order))),
           (''status'', JStr (order_status_value (ov_status order)))]"

definition serialize_state :: "agent_state \<Rightarrow> json" where
  "serialize_state state =
     jobj [(''verified'', JBool (as_verified state)),
           (''orders'', JList (map serialize_order_view (as_orders state))),
           (''orders_listed'', JBool (as_orders_listed state)),
           (''linked_order_id'', jopt (as_linked_order_id state)),
           (''last_refund_status'', jopt (map_option refund_status_value (as_last_refund_status state))),
           (''reply_sent_after_last_refund'', JBool (as_reply_sent_after_last_refund state)),
           (''menu'', JList (map JStr (as_menu state)))]"

definition prompt_document :: "prompt \<Rightarrow> json" where
  "prompt_document prompt =
     jobj [(''text'', JStr (prompt_text prompt)), (''state'', serialize_state (prompt_state prompt))]"

definition serialize_prompt :: "prompt \<Rightarrow> error + nat list" where
  "serialize_prompt prompt = utf8_encode (dumps False None (prompt_document prompt))"

section \<open>The gateway\<close>

type_synonym transport = "world \<Rightarrow> nat list \<Rightarrow> error + nat list"

text \<open>What the interpreter hosts: the transport, Pydantic, and the depth the JSON decoder can reach.\<close>

record host =
  h_transport :: transport
  h_to_decimal :: "json \<Rightarrow> decimal option"
  h_describe :: "dictionary \<Rightarrow> error_detail"
  h_json_depth :: nat

definition response_limit_message :: "nat \<Rightarrow> pystr" where
  "response_limit_message n =
     lit ''model response exceeds configured byte limit ('' @ nat_str n @ lit '' > '' @
       nat_str MODEL_RESPONSE_MAX_BYTES @ lit '')''"

definition propose :: "host \<Rightarrow> prompt \<Rightarrow> pystr op" where
  "propose h prompt =
     bindM (liftM (serialize_prompt prompt)) (\<lambda>request_bytes.
     bindM (getM (\<lambda>w. h_transport h w request_bytes)) (\<lambda>answer.
     bindM (liftM answer) (\<lambda>response_bytes.
       if length response_bytes > MODEL_RESPONSE_MAX_BYTES
       then raiseM (ModelGatewayProtocolError (response_limit_message (length response_bytes)))
       else liftM (utf8_decode response_bytes))))"

section \<open>The model boundary\<close>

text \<open>A value at run time: an exact \<open>str\<close>, or anything else, which includes subclasses of \<open>str\<close>.\<close>

datatype runtime_value = ExactStr pystr | OtherValue

definition require_exact_str :: "runtime_value \<Rightarrow> error + pystr" where
  "require_exact_str v =
     (case v of ExactStr s \<Rightarrow> Inr s
      | OtherValue \<Rightarrow> Inl (ModelResponseTypeError (lit ''model response must be an exact str at runtime'')))"

definition model_failure_reason :: "error \<Rightarrow> pystr" where
  "model_failure_reason e =
     lit ''The model call failed with an exception of type '' @ error_class_name e @ lit ''.''"

record model_boundary_parse =
  mb_raw_model_output :: pystr
  mb_outcome :: parse_outcome

definition call_and_parse :: "host \<Rightarrow> prompt \<Rightarrow> model_boundary_parse op" where
  "call_and_parse h prompt =
     bindM (propose h prompt) (\<lambda>text.
     bindM (liftM (require_exact_str (ExactStr text))) (\<lambda>validated_output.
     bindM (liftM (parse (h_to_decimal h) (h_describe h) (h_json_depth h) validated_output)) (\<lambda>outcome.
       returnM \<lparr>mb_raw_model_output = validated_output, mb_outcome = outcome\<rparr>)))"

definition invoke_model_boundary :: "host \<Rightarrow> pystr \<Rightarrow> prompt \<Rightarrow> model_boundary_parse option op" where
  "invoke_model_boundary h case_id prompt =
     bindM (tryM (call_and_parse h prompt)) (\<lambda>attempt.
       case attempt of
         Inr result \<Rightarrow> returnM (Some result)
       | Inl model_failure \<Rightarrow>
           thenM (escalate_case case_id EO_MODEL_FAILURE (Some (model_failure_reason model_failure)) None None)
             (returnM None))"

section \<open>What the boundary guarantees\<close>

text \<open>The call itself leaves the world alone: a model cannot act, only answer.\<close>

lemma call_and_parse_pure: "\<exists>r. call_and_parse h prompt w = (r, w)"
proof -
  have "preserves (\<lambda>v. v = w) (call_and_parse h prompt)"
    unfolding call_and_parse_def propose_def by (intro preserves_rules)
  then have "snd (call_and_parse h prompt w) = w" by (simp add: preserves_def)
  then show ?thesis by (metis prod.collapse)
qed

lemma invoke_cases:
  obtains (answered) result where "invoke_model_boundary h case_id prompt w = (Inr (Some result), w)"
      and "call_and_parse h prompt w = (Inr result, w)"
    | (failed) e where "call_and_parse h prompt w = (Inl e, w)"
      and "invoke_model_boundary h case_id prompt w =
        thenM (escalate_case case_id EO_MODEL_FAILURE (Some (model_failure_reason e)) None None)
          (returnM None) w"
proof -
  obtain r where r: "call_and_parse h prompt w = (r, w)" using call_and_parse_pure by blast
  show thesis
  proof (cases r)
    case (Inl e)
    then show thesis
      using r by (intro failed [of e]) (simp_all add: invoke_model_boundary_def tryM_def bindM_def)
  next
    case (Inr result)
    then show thesis
      using r by (intro answered [of result]) (simp_all add: invoke_model_boundary_def tryM_def bindM_def)
  qed
qed

end
