(* ===== verification/Gate.thy ===== *)
theory Gate
  imports Gate_Common
begin

text \<open>
  The gate operations that move refunds along their lifecycle (\<open>gate/refund.py\<close>,
  \<open>gate/operator.py\<close>), the entry point for agent actions (\<open>gate/operations.py\<close>) and the
  confirmation of verification tokens (\<open>gate/verification.py\<close>).
\<close>

section \<open>Refund events\<close>

definition quantize_refund_amount :: "decimal \<Rightarrow> error + decimal" where
  "quantize_refund_amount amount = dec_quantize_cents amount"

definition open_refund_race_deny :: blocking where
  "open_refund_race_deny = Deny (lit ''R_OPEN_REFUND'')
     (lit ''This order already has an open refund request.'')
     (lit ''There is already a refund in progress for this order.'')"

definition append_refund_proposed ::
  "pystr \<Rightarrow> pystr \<Rightarrow> pystr \<Rightarrow> pystr \<Rightarrow> decimal \<Rightarrow> stored_event op" where
  "append_refund_proposed customer_id case_id order_id refund_id amount =
     append_event ET_REFUND_PROPOSED customer_id (Some case_id) (Some order_id) Actor_AGENT
       Channel_INTERNAL (RefundProposedPayload refund_id amount)"

definition append_refund_auto_approved ::
  "pystr \<Rightarrow> pystr \<Rightarrow> pystr \<Rightarrow> pystr \<Rightarrow> stored_event op" where
  "append_refund_auto_approved customer_id case_id order_id refund_id =
     append_event ET_REFUND_AUTO_APPROVED customer_id (Some case_id) (Some order_id) Actor_SYSTEM
       Channel_INTERNAL (RefundAutoApprovedPayload refund_id)"

definition append_refund_approved ::
  "pystr \<Rightarrow> pystr \<Rightarrow> pystr \<Rightarrow> pystr \<Rightarrow> pystr \<Rightarrow> stored_event op" where
  "append_refund_approved customer_id case_id order_id refund_id operator_id =
     append_event ET_REFUND_APPROVED customer_id (Some case_id) (Some order_id) Actor_OPERATOR
       Channel_OPERATOR_API (RefundApprovedPayload refund_id operator_id)"

definition append_refund_rejected ::
  "pystr \<Rightarrow> pystr \<Rightarrow> pystr \<Rightarrow> pystr \<Rightarrow> pystr \<Rightarrow> pystr \<Rightarrow> stored_event op" where
  "append_refund_rejected customer_id case_id order_id refund_id operator_id reason =
     append_event ET_REFUND_REJECTED customer_id (Some case_id) (Some order_id) Actor_OPERATOR
       Channel_OPERATOR_API (RefundRejectedPayload refund_id operator_id reason)"

definition append_refund_approval_required ::
  "pystr \<Rightarrow> pystr \<Rightarrow> pystr \<Rightarrow> pystr \<Rightarrow> decimal \<Rightarrow> pystr \<Rightarrow> stored_event op" where
  "append_refund_approval_required customer_id case_id order_id refund_id amount rule =
     append_event ET_REFUND_APPROVAL_REQUIRED customer_id (Some case_id) (Some order_id)
       Actor_SYSTEM Channel_INTERNAL (RefundApprovalRequiredPayload refund_id amount rule)"

definition append_refund_executed ::
  "pystr \<Rightarrow> pystr \<Rightarrow> pystr \<Rightarrow> pystr \<Rightarrow> decimal \<Rightarrow> pystr \<Rightarrow> stored_event op" where
  "append_refund_executed customer_id case_id order_id refund_id amount provider_ref =
     append_event ET_REFUND_EXECUTED customer_id (Some case_id) (Some order_id) Actor_SYSTEM
       Channel_INTERNAL (RefundExecutedPayload refund_id amount provider_ref)"

section \<open>Payment\<close>

definition record_refund_executed_after_payment ::
  "pystr \<Rightarrow> pystr \<Rightarrow> pystr \<Rightarrow> pystr \<Rightarrow> decimal \<Rightarrow> pystr \<Rightarrow> bool \<Rightarrow> stored_event op" where
  "record_refund_executed_after_payment customer_id case_id order_id refund_id amount provider_ref
     acquire_customer_lock =
     thenM (if acquire_customer_lock then bindM (lock_customer_for_update customer_id) (\<lambda>_. returnM ())
            else returnM ())
    (bindM (find_refund_by_id refund_id) (\<lambda>found.
     thenM (ensureM (found \<noteq> None) (LookupError (lit ''Refund not found: '' @ refund_id)))
    (bindM (transition_refund_status refund_id RS_APPROVED RS_EXECUTED
              (Some \<lparr>ib_order_id = order_id, ib_case_id = case_id, ib_amount = amount\<rparr>) True) (\<lambda>moved.
     thenM (ensureM moved (RuntimeError (lit ''failed to mark refund '' @ refund_id @
              lit '' executed after committed payment'')))
       (append_refund_executed customer_id case_id order_id refund_id amount provider_ref)))))"

definition commit_refund_intent_before_payment :: "unit op" where
  "commit_refund_intent_before_payment = commit_session"

definition execute_payment_after_committed_intent ::
  "pystr \<Rightarrow> pystr \<Rightarrow> pystr \<Rightarrow> pystr \<Rightarrow> decimal \<Rightarrow> stored_event op" where
  "execute_payment_after_committed_intent customer_id case_id order_id refund_id amount =
     bindM (payment_refund refund_id amount) (\<lambda>provider_ref.
       session_begin (bindM (lock_customer_for_update customer_id) (\<lambda>_.
         record_refund_executed_after_payment customer_id case_id order_id refund_id amount
           provider_ref False)))"

section \<open>Proposals\<close>

text \<open>
  The tail of \<open>_persist_refund_proposal\<close>: \<open>decision\<close> is \<open>None\<close> for a spent authorisation and the
  approval rule with its verdict otherwise.
\<close>

definition persist_decided_refund ::
  "pystr \<Rightarrow> pystr \<Rightarrow> pystr \<Rightarrow> decimal \<Rightarrow> blocking option
     \<Rightarrow> (verdict \<times> bool \<times> pystr \<times> decimal \<times> pystr) op" where
  "persist_decided_refund customer_id case_id order_id action_amount decision =
     bindM (liftM (quantize_refund_amount action_amount)) (\<lambda>amount.
     bindM ids_refund_id (\<lambda>refund_id.
     bindM clock_now (\<lambda>now.
     bindM (validate_refund_relational_scope case_id order_id) (\<lambda>refund_customer_id.
     thenM (ensureM (refund_customer_id = customer_id) (RuntimeError (lit ''refund scope mismatch: case '' @
              case_id @ lit '' and order '' @ order_id @ lit '' belong to customer '' @
              refund_customer_id @ lit '', not '' @ customer_id)))
    (thenM (insert_refund \<lparr>rf_id = refund_id, rf_customer_id = refund_customer_id,
              rf_order_id = order_id, rf_case_id = case_id, rf_amount = amount,
              rf_status = RS_PENDING_APPROVAL,
              rf_approval_expires_at = Some (now + seconds APPROVAL_TTL_SECONDS),
              rf_created_at = now\<rparr>)
    (thenM (append_refund_proposed customer_id case_id order_id refund_id amount)
       (case decision of
          None \<Rightarrow>
            bindM (transition_refund_status refund_id RS_PENDING_APPROVAL RS_APPROVED
                (Some \<lparr>ib_order_id = order_id, ib_case_id = case_id, ib_amount = amount\<rparr>) True)
              (\<lambda>moved.
            thenM (ensureM moved (RuntimeError (lit ''failed to auto-approve refund '' @ refund_id @
                     lit '' after proposal'')))
           (thenM (append_refund_auto_approved customer_id case_id order_id refund_id)
              (returnM (Allow, True, refund_id, amount, order_id))))
        | Some b \<Rightarrow>
            thenM (append_refund_approval_required customer_id case_id order_id refund_id
                     amount (approval_rule b))
              (returnM (Blocked b, False, refund_id, amount, order_id)))))))))"

definition persist_refund_proposal ::
  "pystr \<Rightarrow> pystr \<Rightarrow> proposal \<Rightarrow> decimal \<Rightarrow> (verdict \<times> bool \<times> pystr \<times> decimal \<times> pystr) op" where
  "persist_refund_proposal customer_id case_id p action_amount =
     bindM (lock_customer_for_update customer_id) (\<lambda>_.
     bindM (load_rule_context_for_case case_id) (\<lambda>(_, ctx).
     bindM (liftM (authorise ctx p)) (\<lambda>verdict_or_auth.
       case verdict_or_auth of
         Inr (Deny rule agent_reason customer_reason) \<Rightarrow>
           thenM (append_action_denied customer_id case_id (snd p)
                    (rule, agent_reason, customer_reason))
             (returnM (Blocked (Deny rule agent_reason customer_reason), False, [], Dec False 0 0, []))
       | Inr (ForceEscalate rule reason) \<Rightarrow>
           returnM (Blocked (ForceEscalate rule reason), False, [], Dec False 0 0, [])
       | Inr (RequireApproval rule reason) \<Rightarrow>
           (case cs_linked_order_id (rc_case ctx) of
              None \<Rightarrow> raiseM (RuntimeError (lit ''Refund proposal requires a linked order.''))
            | Some order_id \<Rightarrow>
                persist_decided_refund customer_id case_id order_id action_amount
                  (Some (RequireApproval rule reason)))
       | Inl auth \<Rightarrow>
           (case cs_linked_order_id (rc_case ctx) of
              None \<Rightarrow> raiseM (RuntimeError (lit ''Refund proposal requires a linked order.''))
            | Some order_id \<Rightarrow>
                bindM (liftM (spend auth case_id p)) (\<lambda>_.
                  persist_decided_refund customer_id case_id order_id action_amount None)))))"

definition append_open_refund_race_denial :: "pystr \<Rightarrow> pystr \<Rightarrow> action \<Rightarrow> blocking op" where
  "append_open_refund_race_denial customer_id case_id a =
     thenM (append_action_denied customer_id case_id a
              (deny_rule open_refund_race_deny, deny_agent_reason open_refund_race_deny,
               deny_customer_reason open_refund_race_deny))
       (returnM open_refund_race_deny)"

definition execute_propose_refund :: "case_row \<Rightarrow> pystr \<Rightarrow> proposal \<Rightarrow> decimal \<Rightarrow> verdict op" where
  "execute_propose_refund case_row case_id p action_amount =
     bindM (load_rule_context_for_case case_id) (\<lambda>(_, ctx).
     bindM (tryM (begin_nested
              (persist_refund_proposal (ca_customer_id case_row) case_id p action_amount))) (\<lambda>attempt.
       case attempt of
         Inl (IntegrityError name) \<Rightarrow>
           (case cs_linked_order_id (rc_case ctx) of
              None \<Rightarrow> raiseM (IntegrityError name)
            | Some order_id \<Rightarrow>
                bindM (find_open_refund_for_order order_id) (\<lambda>open_refund.
                  if open_refund = None then raiseM (IntegrityError name)
                  else bindM (append_open_refund_race_denial (ca_customer_id case_row) case_id (snd p))
                         (\<lambda>deny. returnM (Blocked deny))))
       | Inl e \<Rightarrow> raiseM e
       | Inr (verdict, auto_approved, refund_id, amount, order_id) \<Rightarrow>
           (case verdict of
              Blocked (Deny _ _ _) \<Rightarrow> returnM verdict
            | Blocked (ForceEscalate _ _) \<Rightarrow> returnM verdict
            | _ \<Rightarrow>
                thenM commit_refund_intent_before_payment
                  (if auto_approved then
                     thenM (execute_payment_after_committed_intent (ca_customer_id case_row) case_id
                              order_id refund_id amount)
                       (returnM Allow)
                   else returnM verdict))))"

section \<open>Agent actions\<close>

definition finalize_propose_refund_verdict :: "pystr \<Rightarrow> verdict \<Rightarrow> verdict op" where
  "finalize_propose_refund_verdict case_id verdict =
     (case verdict of
        Blocked (ForceEscalate rule reason) \<Rightarrow>
          thenM (escalate_case case_id EO_POLICY None None (Some (rule, reason))) (returnM verdict)
      | _ \<Rightarrow> returnM verdict)"

definition execute_agent_action :: "pystr \<Rightarrow> proposal \<Rightarrow> verdict op" where
  "execute_agent_action case_id p =
     (case snd p of
        ProposeRefund amount \<Rightarrow>
          bindM (find_case_by_id case_id) (\<lambda>found. case found of
            None \<Rightarrow> raiseM (CaseNotFoundError case_id)
          | Some case_row \<Rightarrow>
              bindM (execute_propose_refund case_row case_id p amount)
                (finalize_propose_refund_verdict case_id))
      | _ \<Rightarrow>
          bindM (load_rule_context_for_case case_id) (\<lambda>(case_row, ctx).
          bindM (liftM (authorise ctx p)) (\<lambda>verdict_or_auth.
            case verdict_or_auth of
              Inr (Deny rule agent_reason customer_reason) \<Rightarrow>
                thenM (append_action_denied (ca_customer_id case_row) case_id (snd p)
                         (rule, agent_reason, customer_reason))
                  (returnM (Blocked (Deny rule agent_reason customer_reason)))
            | Inr (ForceEscalate rule reason) \<Rightarrow>
                thenM (escalate_case case_id EO_POLICY None None (Some (rule, reason)))
                  (returnM (Blocked (ForceEscalate rule reason)))
            | Inr (RequireApproval rule reason) \<Rightarrow> dispatch_require_approval_verdict (snd p)
            | Inl auth \<Rightarrow>
                thenM (case snd p of
                         Escalate _ \<Rightarrow> escalate_case case_id EO_AGENT None (Some auth) None
                       | _ \<Rightarrow> dispatch_allow_verdict auth case_row case_id p ctx)
                  (returnM Allow))))"

section \<open>Operators\<close>

datatype operator_result_kind = OR_APPROVED | OR_REJECTED | OR_CONFLICT

record operator_outcome =
  oo_kind :: operator_result_kind
  oo_case_id :: pystr
  oo_refund_id :: pystr
  oo_refund_status :: refund_status
  oo_reopened_case_ids :: "pystr list"

definition customer_id_for_case :: "pystr \<Rightarrow> pystr op" where
  "customer_id_for_case case_id = bindM (find_case_by_id case_id) (\<lambda>found. case found of
     None \<Rightarrow> raiseM (LookupError (lit ''Case not found: '' @ case_id))
   | Some case_row \<Rightarrow> returnM (ca_customer_id case_row))"

definition operator_conflict :: "pystr \<Rightarrow> pystr \<Rightarrow> refund_status \<Rightarrow> pystr list \<Rightarrow> operator_outcome" where
  "operator_conflict case_id refund_id status reopened =
     \<lparr>oo_kind = OR_CONFLICT, oo_case_id = case_id, oo_refund_id = refund_id,
      oo_refund_status = status, oo_reopened_case_ids = reopened\<rparr>"

definition transition_pending_refund_status ::
  "pystr \<Rightarrow> refund_status \<Rightarrow> refund_intent_binding option \<Rightarrow> bool op" where
  "transition_pending_refund_status refund_id new_status binding =
     transition_refund_status refund_id RS_PENDING_APPROVAL new_status binding True"

definition approve_refund :: "pystr \<Rightarrow> pystr \<Rightarrow> operator_outcome op" where
  "approve_refund refund_id operator_id =
     bindM (require_refund_by_id refund_id) (\<lambda>first_row.
     let case_id = rf_case_id first_row in
     bindM (customer_id_for_case case_id) (\<lambda>customer_id.
     bindM (lock_customer_for_update customer_id) (\<lambda>_.
     bindM (expire_due_refunds_for_customer customer_id) (\<lambda>reopened.
     bindM (require_refund_by_id refund_id) (\<lambda>row.
       if rf_status row \<noteq> RS_PENDING_APPROVAL
       then returnM (operator_conflict case_id refund_id (rf_status row) reopened)
       else
         bindM (validate_refund_intent_against_proposed_evidence row customer_id)
           (\<lambda>(_, evidence_amount).
         bindM (transition_pending_refund_status refund_id RS_APPROVED
             (Some \<lparr>ib_order_id = rf_order_id row, ib_case_id = case_id, ib_amount = evidence_amount\<rparr>))
           (\<lambda>moved.
           if \<not> moved then
             bindM (require_refund_by_id refund_id) (\<lambda>fresh.
               returnM (operator_conflict case_id refund_id (rf_status fresh) reopened))
           else
             thenM (append_refund_approved customer_id case_id (rf_order_id row) refund_id operator_id)
            (thenM commit_refund_intent_before_payment
            (thenM (execute_payment_after_committed_intent customer_id case_id (rf_order_id row)
                      refund_id evidence_amount)
               (returnM \<lparr>oo_kind = OR_APPROVED, oo_case_id = case_id, oo_refund_id = refund_id,
                  oo_refund_status = RS_EXECUTED, oo_reopened_case_ids = reopened\<rparr>))))))))))"

definition reject_refund :: "pystr \<Rightarrow> pystr \<Rightarrow> pystr \<Rightarrow> operator_outcome op" where
  "reject_refund refund_id operator_id reason =
     bindM (require_refund_by_id refund_id) (\<lambda>first_row.
     let case_id = rf_case_id first_row in
     bindM (customer_id_for_case case_id) (\<lambda>customer_id.
     bindM (lock_customer_for_update customer_id) (\<lambda>_.
     bindM (expire_due_refunds_for_customer customer_id) (\<lambda>reopened.
     bindM (require_refund_by_id refund_id) (\<lambda>row.
       if rf_status row \<noteq> RS_PENDING_APPROVAL
       then returnM (operator_conflict case_id refund_id (rf_status row) reopened)
       else
         bindM (transition_pending_refund_status refund_id RS_REJECTED
             (Some \<lparr>ib_order_id = rf_order_id row, ib_case_id = case_id, ib_amount = rf_amount row\<rparr>))
           (\<lambda>moved.
           if \<not> moved then
             bindM (require_refund_by_id refund_id) (\<lambda>fresh.
               returnM (operator_conflict case_id refund_id (rf_status fresh) reopened))
           else
             thenM (append_refund_rejected customer_id case_id (rf_order_id row) refund_id
                      operator_id reason)
               (returnM \<lparr>oo_kind = OR_REJECTED, oo_case_id = case_id, oo_refund_id = refund_id,
                  oo_refund_status = RS_REJECTED, oo_reopened_case_ids = reopened\<rparr>)))))))"

section \<open>Verification\<close>

datatype verification_result_kind = VR_NOT_FOUND | VR_EXPIRED | VR_VERIFIED

record verification_outcome =
  vo_kind :: verification_result_kind
  vo_customer_id :: "pystr option"
  vo_issuing_case_id :: "pystr option"
  vo_open_case_ids :: "pystr list"

definition confirm_verification :: "pystr \<Rightarrow> verification_outcome op" where
  "confirm_verification token =
     bindM (find_verification_request_by_token token) (\<lambda>found. case found of
       None \<Rightarrow> returnM \<lparr>vo_kind = VR_NOT_FOUND, vo_customer_id = None, vo_issuing_case_id = None,
                  vo_open_case_ids = []\<rparr>
     | Some lookup \<Rightarrow>
         bindM clock_now (\<lambda>now.
           if now \<ge> vl_expires_at lookup then
             returnM \<lparr>vo_kind = VR_EXPIRED, vo_customer_id = Some (vl_customer_id lookup),
               vo_issuing_case_id = Some (vl_case_id lookup), vo_open_case_ids = []\<rparr>
           else
             thenM (append_event ET_CUSTOMER_VERIFIED (vl_customer_id lookup) None None Actor_SYSTEM
                      Channel_VERIFICATION_API (CustomerVerifiedPayload VM_TOKEN))
            (bindM (find_open_case_ids_for_customer (vl_customer_id lookup) now) (\<lambda>open_ids.
               returnM \<lparr>vo_kind = VR_VERIFIED, vo_customer_id = Some (vl_customer_id lookup),
                 vo_issuing_case_id = None, vo_open_case_ids = open_ids\<rparr>))))"

end
