(* ===== verification/Loop.thy ===== *)
theory Loop
  imports Gateway Gate
begin

text \<open>
  The agent loop (\<open>agent/loop.py\<close>).  One turn is \<open>loop_turn\<close>: it either ends the run with the
  peer cases its sweeps reopened, or asks for another turn.  The Python loop is \<open>while True\<close>;
  \<open>run_agent_loop\<close> takes the number of turns it may make and returns \<open>None\<close> when they do not
  suffice.  \<open>Loop_Progress\<close> shows that \<open>MAX_AGENT_STEPS + 1\<close> turns always do.
\<close>

definition STEP_LIMIT_REASON :: pystr where
  "STEP_LIMIT_REASON = lit ''Agent exceeded the maximum number of steps permitted for this case.''"

definition PARSE_LIMIT_REASON :: pystr where
  "PARSE_LIMIT_REASON = lit ''Agent exceeded the maximum number of consecutive invalid outputs.''"

record loop_prompt_context =
  lc_case_row :: case_row
  lc_case_summary :: case_summary
  lc_customer_summary :: customer_summary
  lc_case_events :: "stored_event list"
  lc_order_seeds :: "order_seed_view list"

definition append_invalid_output :: "pystr \<Rightarrow> pystr \<Rightarrow> pystr \<Rightarrow> pystr \<Rightarrow> stored_event op" where
  "append_invalid_output customer_id case_id raw_model_output parse_error =
     bindM (liftM (bound_invalid_output_audit raw_model_output)) (\<lambda>(preview, byte_count, digest).
       append_event ET_INVALID_OUTPUT customer_id (Some case_id) None Actor_SYSTEM Channel_INTERNAL
         (InvalidOutputPayload preview byte_count digest parse_error))"

definition loop_terminates_at_entry :: "pystr \<Rightarrow> case_summary \<Rightarrow> bool op" where
  "loop_terminates_at_entry case_id summary =
     (if cs_status summary = CS_CLOSED then returnM True
      else if cs_status summary \<in> {CS_AWAITING_APPROVAL, CS_AWAITING_VERIFICATION} then returnM True
      else if cs_step_count summary \<ge> MAX_AGENT_STEPS then
        thenM (escalate_case case_id EO_STEP_LIMIT (Some STEP_LIMIT_REASON) None None) (returnM True)
      else if cs_consecutive_invalid_outputs summary \<ge> MAX_INVALID_OUTPUTS then
        thenM (escalate_case case_id EO_PARSE_LIMIT (Some PARSE_LIMIT_REASON) None None) (returnM True)
      else returnM False)"

text \<open>
  The list of recorded peers and the set of those seen hold the same identifiers, so the list
  alone is threaded.
\<close>

definition accumulate_peer_case_ids :: "pystr \<Rightarrow> pystr list \<Rightarrow> pystr list \<Rightarrow> pystr list" where
  "accumulate_peer_case_ids current_case_id reopened_case_ids accumulated =
     foldl (\<lambda>acc peer. if peer = current_case_id \<or> peer \<in> set acc then acc else acc @ [peer])
       accumulated reopened_case_ids"

definition order_seed_view_of_row :: "order_row \<Rightarrow> order_seed_view" where
  "order_seed_view_of_row r =
     \<lparr>osv_order_id = or_id r, osv_customer_id = or_customer_id r, osv_item = or_item r,
      osv_total = or_total r, osv_status = or_status r\<rparr>"

definition load_loop_prompt_context :: "pystr \<Rightarrow> loop_prompt_context op" where
  "load_loop_prompt_context case_id =
     bindM (find_case_by_id case_id) (\<lambda>found. case found of
       None \<Rightarrow> raiseM (CaseNotFoundError case_id)
     | Some case_row \<Rightarrow>
     bindM (find_customer_by_id (ca_customer_id case_row)) (\<lambda>found. case found of
       None \<Rightarrow> raiseM (LookupError (lit ''Customer not found: '' @ ca_customer_id case_row))
     | Some customer_row \<Rightarrow>
     bindM (load_customer_events (ca_customer_id case_row)) (\<lambda>customer_events.
     let case_events = filter (\<lambda>e. ev_case_id e = Some case_id) customer_events in
     bindM clock_now (\<lambda>now.
     let customer_summary = project_customer_summary
           \<lparr>cseed_customer_id = cu_id customer_row, cseed_email = cu_email customer_row\<rparr> customer_events now in
     bindM (liftM (project_case_summary case_id (ca_customer_id case_row) customer_events now)) (\<lambda>summary.
     bindM (liftM (if cs_orders_listed summary then disclosed_order_ids case_events else Inr {})) (\<lambda>disclosed_ids.
     bindM (load_disclosed_order_rows (ca_customer_id case_row) disclosed_ids) (\<lambda>rows.
       returnM \<lparr>lc_case_row = case_row, lc_case_summary = summary, lc_customer_summary = customer_summary,
         lc_case_events = case_events, lc_order_seeds = map order_seed_view_of_row rows\<rparr>)))))))"

text \<open>What follows the entry checks: the prompt, the call, and the effect of its outcome.\<close>

definition handle_outcome :: "pystr \<Rightarrow> loop_prompt_context \<Rightarrow> model_boundary_parse \<Rightarrow> unit op" where
  "handle_outcome case_id ctx result =
     (case mb_outcome result of
        ParseFailure parse_error \<Rightarrow>
          thenM (append_invalid_output (ca_customer_id (lc_case_row ctx)) case_id
                   (mb_raw_model_output result) parse_error) (returnM ())
      | ParseSuccess action \<Rightarrow>
          thenM (execute_agent_action case_id (0, action)) (returnM ()))"

definition call_model :: "host \<Rightarrow> pystr \<Rightarrow> loop_prompt_context \<Rightarrow> model_boundary_parse option op" where
  "call_model h case_id ctx =
     bindM (liftM (build_prompt (lc_case_summary ctx) (lc_customer_summary ctx) (lc_case_events ctx)
              (lc_order_seeds ctx))) (\<lambda>prompt.
     bindM (liftM (prompt_envelope_violation prompt (length (lc_order_seeds ctx)))) (\<lambda>envelope_reason.
       case envelope_reason of
         Some reason \<Rightarrow>
           thenM (escalate_case case_id EO_MODEL_FAILURE (Some reason) None None) (returnM None)
       | None \<Rightarrow> invoke_model_boundary h case_id prompt))"

datatype turn = Finished "pystr list" | Continue "pystr list"

definition loop_turn :: "host \<Rightarrow> pystr \<Rightarrow> pystr list \<Rightarrow> turn op" where
  "loop_turn h case_id accumulated =
     bindM (find_case_by_id case_id) (\<lambda>found. case found of
       None \<Rightarrow> raiseM (CaseNotFoundError case_id)
     | Some case_row \<Rightarrow>
     bindM (expire_due_refunds_for_customer (ca_customer_id case_row)) (\<lambda>reopened_case_ids.
     let peers = accumulate_peer_case_ids case_id reopened_case_ids accumulated in
     bindM (load_loop_prompt_context case_id) (\<lambda>ctx.
     bindM (loop_terminates_at_entry case_id (lc_case_summary ctx)) (\<lambda>terminates.
       if terminates then returnM (Finished peers)
       else bindM (call_model h case_id ctx) (\<lambda>boundary_result.
         case boundary_result of
           None \<Rightarrow> returnM (Finished peers)
         | Some result \<Rightarrow> thenM (handle_outcome case_id ctx result) (returnM (Continue peers)))))))"

primrec loop_turns :: "nat \<Rightarrow> host \<Rightarrow> pystr \<Rightarrow> pystr list \<Rightarrow> pystr list option op" where
  "loop_turns 0 h case_id accumulated = returnM None"
| "loop_turns (Suc turns) h case_id accumulated =
     bindM (loop_turn h case_id accumulated) (\<lambda>outcome. case outcome of
       Finished peers \<Rightarrow> returnM (Some peers)
     | Continue peers \<Rightarrow> loop_turns turns h case_id peers)"

definition run_agent_loop :: "nat \<Rightarrow> host \<Rightarrow> pystr \<Rightarrow> pystr list option op" where
  "run_agent_loop turns h case_id = loop_turns turns h case_id []"

end
