(* ===== verification/Ledger.thy ===== *)
theory Ledger
  imports Repositories
begin

text \<open>
  The invariant that ties the append-only event log to the mutable \<open>refunds\<close> table, as a predicate
  on the database, and the lemmas that each kind of paired write keeps it: keys are unique,
  foreign keys hold, each customer's events are numbered without gaps, and for every order the
  events and the rows tell the same account, which never exceeds the order's total.
\<close>

section \<open>Definitions\<close>

definition last_seq :: "db \<Rightarrow> pystr \<Rightarrow> int" where
  "last_seq d c = (case map_of (db_event_sequences d) c of None \<Rightarrow> 0 | Some n \<Rightarrow> n)"

definition customer_events :: "db \<Rightarrow> pystr \<Rightarrow> stored_event list" where
  "customer_events d c = filter (\<lambda>e. ev_customer_id e = c) (db_events d)"

definition order_events :: "db \<Rightarrow> pystr \<Rightarrow> stored_event list" where
  "order_events d ord = filter (\<lambda>e. ev_order_id e = Some ord) (db_events d)"

definition order_refunds :: "db \<Rightarrow> pystr \<Rightarrow> refund_row list" where
  "order_refunds d ord = filter (\<lambda>r. rf_order_id r = ord) (db_refunds d)"

definition dec_cents :: "decimal \<Rightarrow> nat" where
  "dec_cents d = (case d of Dec _ n _ \<Rightarrow> n | _ \<Rightarrow> 0)"

definition status_cents :: "(refund_status \<Rightarrow> bool) \<Rightarrow> refund_row list \<Rightarrow> nat" where
  "status_cents P rs = sum_list (map (\<lambda>r. dec_cents (rf_amount r)) (filter (\<lambda>r. P (rf_status r)) rs))"

definition keys_ok :: "db \<Rightarrow> bool" where
  "keys_ok d \<longleftrightarrow> distinct (map cu_id (db_customers d)) \<and> distinct (map or_id (db_orders d)) \<and>
     distinct (map ca_id (db_cases d)) \<and> distinct (map ev_id (db_events d)) \<and>
     distinct (map rf_id (db_refunds d)) \<and> distinct (map fst (db_event_sequences d))"

definition event_ok :: "db \<Rightarrow> stored_event \<Rightarrow> bool" where
  "event_ok d e \<longleftrightarrow>
     customer_exists d (ev_customer_id e) \<and>
     (case ev_case_id e of None \<Rightarrow> True | Some c \<Rightarrow> case_of_customer d c (ev_customer_id e)) \<and>
     (case ev_order_id e of None \<Rightarrow> True | Some ord \<Rightarrow> order_of_customer d ord (ev_customer_id e)) \<and>
     catalogue_scope_ok (ev_event_type e) (ev_case_id e) (ev_order_id e) \<and>
     (case event_payload e of
        Inr p \<Rightarrow> ev_payload e = model_dump p \<and> (ev_actor e, ev_channel e) = catalogue_actor p
      | Inl _ \<Rightarrow> False) \<and>
     executed_money e"

definition refund_ok :: "db \<Rightarrow> refund_row \<Rightarrow> bool" where
  "refund_ok d r \<longleftrightarrow> case_of_customer d (rf_case_id r) (rf_customer_id r) \<and>
     order_of_customer d (rf_order_id r) (rf_customer_id r) \<and> is_money (rf_amount r)"

definition references_ok :: "db \<Rightarrow> bool" where
  "references_ok d \<longleftrightarrow> (\<forall>r\<in>set (db_orders d). customer_exists d (or_customer_id r) \<and> is_money (or_total r)) \<and>
     (\<forall>r\<in>set (db_cases d). customer_exists d (ca_customer_id r)) \<and>
     (\<forall>e\<in>set (db_events d). event_ok d e) \<and> (\<forall>r\<in>set (db_refunds d). refund_ok d r)"

definition sequences_ok :: "db \<Rightarrow> bool" where
  "sequences_ok d \<longleftrightarrow> (\<forall>c. 0 \<le> last_seq d c \<and> map ev_seq (customer_events d c) = [1..last_seq d c])"

definition account_ok :: "stored_event list \<Rightarrow> refund_row list \<Rightarrow> nat \<Rightarrow> bool" where
  "account_ok evs rs total_cents \<longleftrightarrow>
     sum_list (map executed_cents evs) = status_cents (\<lambda>s. s = RS_EXECUTED) rs \<and>
     (open_refund_in_history evs \<longleftrightarrow> filter (\<lambda>r. live_refund_status (rf_status r)) rs \<noteq> []) \<and>
     length (filter (\<lambda>r. live_refund_status (rf_status r)) rs) \<le> 1 \<and>
     status_cents (\<lambda>s. s = RS_EXECUTED) rs + status_cents live_refund_status rs \<le> total_cents"

definition accounts_ok :: "db \<Rightarrow> bool" where
  "accounts_ok d \<longleftrightarrow> (\<forall>r\<in>set (db_orders d).
     account_ok (order_events d (or_id r)) (order_refunds d (or_id r)) (dec_cents (or_total r)))"

type_synonym intent = "pystr \<times> pystr \<times> pystr option \<times> pystr option \<times> decimal"

definition refund_intent :: "refund_row \<Rightarrow> intent" where
  "refund_intent r = (rf_id r, rf_customer_id r, Some (rf_case_id r), Some (rf_order_id r), rf_amount r)"

definition proposal_intent :: "stored_event \<Rightarrow> intent" where
  "proposal_intent e = (case event_payload e of
     Inr (RefundProposedPayload rid amount) \<Rightarrow>
       (rid, ev_customer_id e, ev_case_id e, ev_order_id e, amount)
   | _ \<Rightarrow> ([], [], None, None, DNaN True))"

definition proposals :: "db \<Rightarrow> stored_event list" where
  "proposals d = filter (\<lambda>e. ev_event_type e = ET_REFUND_PROPOSED) (db_events d)"

definition evidence_ok :: "db \<Rightarrow> bool" where
  "evidence_ok d \<longleftrightarrow> map proposal_intent (proposals d) = map refund_intent (db_refunds d)"

definition db_ok :: "db \<Rightarrow> bool" where
  "db_ok d \<longleftrightarrow> keys_ok d \<and> references_ok d \<and> sequences_ok d \<and> accounts_ok d \<and> evidence_ok d"

text \<open>
  Payments: no refund is paid twice, and every payment is backed by a row that was approved, with
  exactly the amount paid.
\<close>

definition payments_ok :: "refund_call list \<Rightarrow> db \<Rightarrow> bool" where
  "payments_ok calls d \<longleftrightarrow> distinct (map pc_idempotency_key calls) \<and>
     (\<forall>c\<in>set calls. \<exists>r\<in>set (db_refunds d). rf_id r = pc_idempotency_key c \<and>
        rf_amount r = pc_amount c \<and> rf_status r \<in> {RS_APPROVED, RS_EXECUTED})"

definition good :: "refund_call list \<Rightarrow> db \<Rightarrow> bool" where
  "good calls d \<longleftrightarrow> db_ok d \<and> payments_ok calls d"

lemma good_empty: "good [] empty_db"
  by (simp add: good_def db_ok_def keys_ok_def references_ok_def sequences_ok_def accounts_ok_def
      evidence_ok_def payments_ok_def empty_db_def last_seq_def customer_events_def proposals_def)

section \<open>Appending an event\<close>

definition event_appended :: "db \<Rightarrow> stored_event \<Rightarrow> db \<Rightarrow> bool" where
  "event_appended d e d' \<longleftrightarrow>
     (\<exists>seqs. d' = d\<lparr>db_events := db_events d @ [e], db_event_sequences := seqs\<rparr> \<and>
        distinct (map fst seqs)) \<and>
     ev_seq e = last_seq d (ev_customer_id e) + 1 \<and>
     (\<forall>c. last_seq d' c = (if c = ev_customer_id e then last_seq d c + 1 else last_seq d c)) \<and>
     ev_id e \<notin> ev_id ` set (db_events d) \<and> event_ok d e"

lemma event_appendedD:
  assumes "event_appended d e d'"
  shows "db_events d' = db_events d @ [e]" and "db_customers d' = db_customers d"
    and "db_orders d' = db_orders d" and "db_cases d' = db_cases d" and "db_refunds d' = db_refunds d"
    and "event_ok d e" and "ev_id e \<notin> ev_id ` set (db_events d)"
    and "distinct (map fst (db_event_sequences d'))"
    and "last_seq d' c = (if c = ev_customer_id e then last_seq d c + 1 else last_seq d c)"
    and "ev_seq e = last_seq d (ev_customer_id e) + 1"
  using assms by (auto simp: event_appended_def)

lemma event_ok_cong:
  assumes "db_customers d' = db_customers d" and "db_cases d' = db_cases d" and "db_orders d' = db_orders d"
  shows "event_ok d' = event_ok d" and "refund_ok d' = refund_ok d" and "customer_exists d' = customer_exists d"
  using assms
  by (auto simp: fun_eq_iff event_ok_def refund_ok_def customer_exists_def case_of_customer_def order_of_customer_def
      split: option.splits)

lemma appended_keys: "keys_ok d \<Longrightarrow> event_appended d e d' \<Longrightarrow> keys_ok d'"
  by (auto simp: keys_ok_def event_appendedD)

lemma appended_references: "references_ok d \<Longrightarrow> event_appended d e d' \<Longrightarrow> references_ok d'"
  by (simp add: references_ok_def event_appendedD event_ok_cong [OF event_appendedD(2,4,3)])

lemma appended_sequences:
  assumes "sequences_ok d" and "event_appended d e d'"
  shows "sequences_ok d'"
  unfolding sequences_ok_def
proof
  fix c
  from assms(1) have "0 \<le> last_seq d c" and "map ev_seq (customer_events d c) = [1..last_seq d c]"
    by (auto simp: sequences_ok_def)
  moreover have "[1..last_seq d c + 1] = [1..last_seq d c] @ [last_seq d c + 1]"
    using calculation(1) upto_rec2 [of 1 "last_seq d c + 1"] by simp
  ultimately show "0 \<le> last_seq d' c \<and> map ev_seq (customer_events d' c) = [1..last_seq d' c]"
    using event_appendedD [OF assms(2)]
    by (cases "c = ev_customer_id e") (simp_all add: customer_events_def)
qed

text \<open>An event that is neither a lifecycle move of the open flag nor a proposal.\<close>

lemma neutral_event:
  assumes "good calls d" and "event_appended d e d'" and "\<not> moves_open_flag e"
  shows "good calls d'"
proof -
  have zero: "executed_cents e = 0" and type: "ev_event_type e \<noteq> ET_REFUND_PROPOSED"
    using assms(3) by (auto simp: moves_open_flag_def executed_cents_def)
  have "account_ok (order_events d' ord) (order_refunds d' ord) T =
      account_ok (order_events d ord) (order_refunds d ord) T" for ord T
    using event_appendedD [OF assms(2)] assms(3) zero
    by (auto simp: account_ok_def order_events_def order_refunds_def open_refund_in_history_def)
  moreover have "proposals d' = proposals d"
    using event_appendedD [OF assms(2)] type by (simp add: proposals_def)
  ultimately show ?thesis
    using assms(1) event_appendedD [OF assms(2)] appended_keys [OF _ assms(2)]
      appended_references [OF _ assms(2)] appended_sequences [OF _ assms(2)]
    by (auto simp: good_def db_ok_def accounts_ok_def evidence_ok_def payments_ok_def)
qed

section \<open>Lifecycle writes\<close>

lemma status_cents_append [simp]:
  "status_cents P (xs @ ys) = status_cents P xs + status_cents P ys"
  "status_cents P (r # ys) =
     (if P (rf_status r) then dec_cents (rf_amount r) else 0) + status_cents P ys"
  "status_cents P [] = 0"
  by (simp_all add: status_cents_def)

lemma set_refund_status_simps [simp]:
  "rf_id (set_refund_status s b r) = rf_id r"
  "rf_customer_id (set_refund_status s b r) = rf_customer_id r"
  "rf_order_id (set_refund_status s b r) = rf_order_id r"
  "rf_case_id (set_refund_status s b r) = rf_case_id r"
  "rf_amount (set_refund_status s b r) = rf_amount r"
  "rf_status (set_refund_status s b r) = s"
  "refund_intent (set_refund_status s b r) = refund_intent r"
  by (simp_all add: set_refund_status_def refund_intent_def)

lemma not_live_cents:
  "filter (\<lambda>r. live_refund_status (rf_status r)) rs = [] \<Longrightarrow> status_cents live_refund_status rs = 0"
  by (simp add: status_cents_def)

lemma account_approve:
  assumes "account_ok evs (xs @ r # ys) T" and "live_refund_status (rf_status r)"
    and "live_refund_status (rf_status r')" and "rf_amount r' = rf_amount r"
  shows "account_ok evs (xs @ r' # ys) T"
proof -
  have "rf_status r \<noteq> RS_EXECUTED" and "rf_status r' \<noteq> RS_EXECUTED" using assms(2,3) by auto
  with assms show ?thesis by (simp add: account_ok_def)
qed

lemma account_close:
  assumes "account_ok evs (xs @ r # ys) T" and "live_refund_status (rf_status r)"
    and "\<not> live_refund_status (rf_status r')" and "rf_amount r' = rf_amount r"
    and "moves_open_flag e" and "ev_event_type e \<noteq> ET_REFUND_PROPOSED"
    and "executed_cents e = (if rf_status r' = RS_EXECUTED then dec_cents (rf_amount r) else 0)"
  shows "account_ok (evs @ [e]) (xs @ r' # ys) T"
proof -
  have others: "filter (\<lambda>r. live_refund_status (rf_status r)) xs = []"
    "filter (\<lambda>r. live_refund_status (rf_status r)) ys = []"
    using assms(1,2) by (auto simp: account_ok_def)
  have "rf_status r \<noteq> RS_EXECUTED" using assms(2) by auto
  with assms others show ?thesis
    by (auto simp: account_ok_def open_refund_in_history_def not_live_cents)
qed

lemma account_propose:
  assumes "account_ok evs rs T" and "\<not> open_refund_in_history evs"
    and "rf_status r = RS_PENDING_APPROVAL" and "ev_event_type e = ET_REFUND_PROPOSED"
    and "dec_cents (rf_amount r) + sum_list (map executed_cents evs) \<le> T"
  shows "account_ok (evs @ [e]) (rs @ [r]) T"
  using assms
  by (auto simp: account_ok_def open_refund_in_history_def moves_open_flag_def executed_cents_def
      not_live_cents)

text \<open>A status change of one row, and the row list around it.\<close>

definition row_replaced :: "db \<Rightarrow> refund_row \<Rightarrow> refund_row \<Rightarrow> db \<Rightarrow> bool" where
  "row_replaced d r r' d' \<longleftrightarrow> (\<exists>xs ys. db_refunds d = xs @ r # ys \<and> d' = d\<lparr>db_refunds := xs @ r' # ys\<rparr>) \<and>
     refund_intent r' = refund_intent r"

lemma row_replaced_frame:
  assumes "row_replaced d r r' d'"
  shows "db_events d' = db_events d" and "db_customers d' = db_customers d"
    and "db_orders d' = db_orders d" and "db_cases d' = db_cases d"
    and "db_event_sequences d' = db_event_sequences d"
    and "map rf_id (db_refunds d') = map rf_id (db_refunds d)"
    and "map refund_intent (db_refunds d') = map refund_intent (db_refunds d)"
    and "r \<in> set (db_refunds d)" and "set (db_refunds d') \<subseteq> insert r' (set (db_refunds d))"
    and "refund_intent r' = refund_intent r"
  using assms by (auto simp: row_replaced_def refund_intent_def)

lemma row_replaced_orders:
  assumes "row_replaced d r r' d'"
  shows "ord \<noteq> rf_order_id r \<Longrightarrow> order_refunds d' ord = order_refunds d ord"
    and "\<exists>xs ys. order_refunds d (rf_order_id r) = xs @ r # ys \<and>
      order_refunds d' (rf_order_id r) = xs @ r' # ys"
proof -
  obtain xs ys where split: "db_refunds d = xs @ r # ys" "d' = d\<lparr>db_refunds := xs @ r' # ys\<rparr>"
    and ord: "rf_order_id r' = rf_order_id r"
    using assms by (auto simp: row_replaced_def refund_intent_def)
  then show "ord \<noteq> rf_order_id r \<Longrightarrow> order_refunds d' ord = order_refunds d ord"
    by (simp add: order_refunds_def)
  from split ord show "\<exists>xs ys. order_refunds d (rf_order_id r) = xs @ r # ys \<and>
      order_refunds d' (rf_order_id r) = xs @ r' # ys"
    by (intro exI [of _ "filter (\<lambda>x. rf_order_id x = rf_order_id r) xs"]
        exI [of _ "filter (\<lambda>x. rf_order_id x = rf_order_id r) ys"])
      (simp add: order_refunds_def)
qed

lemma row_replaced_structure:
  assumes "row_replaced d r r' d'" and "db_ok d"
  shows "keys_ok d'" and "references_ok d'" and "sequences_ok d'" and "evidence_ok d'"
proof -
  note frame = row_replaced_frame [OF assms(1)]
  show "keys_ok d'" using assms(2) frame by (simp add: db_ok_def keys_ok_def)
  have "refund_ok d r' = refund_ok d r" using frame(10) by (simp add: refund_ok_def refund_intent_def)
  moreover have "event_ok d' = event_ok d" "refund_ok d' = refund_ok d"
    "customer_exists d' = customer_exists d"
    using event_ok_cong [of d' d] frame by simp_all
  ultimately show "references_ok d'"
    using assms(2) frame by (auto simp: db_ok_def references_ok_def)
  show "sequences_ok d'" and "evidence_ok d'"
    using assms(2) frame
    by (simp_all add: db_ok_def sequences_ok_def evidence_ok_def last_seq_def customer_events_def
        proposals_def)
qed

lemma row_replaced_payments:
  assumes "row_replaced d r r' d'" and "payments_ok calls d" and "distinct (map rf_id (db_refunds d))"
    and "rf_status r \<in> {RS_APPROVED, RS_EXECUTED} \<Longrightarrow> rf_status r' \<in> {RS_APPROVED, RS_EXECUTED}"
  shows "payments_ok calls d'"
  using assms unfolding payments_ok_def row_replaced_def refund_intent_def by fastforce

lemma approve_good:
  assumes "good calls d" and "row_replaced d r r' d'" and "rf_status r = RS_PENDING_APPROVAL"
    and "rf_status r' = RS_APPROVED"
  shows "good calls d'"
proof -
  have db: "db_ok d" and payments: "payments_ok calls d" using assms(1) by (auto simp: good_def)
  note frame = row_replaced_frame [OF assms(2)]
  have "accounts_ok d'"
    unfolding accounts_ok_def
  proof
    fix row assume "row \<in> set (db_orders d')"
    then have "row \<in> set (db_orders d)" using frame by simp
    then have old: "account_ok (order_events d (or_id row)) (order_refunds d (or_id row)) (dec_cents (or_total row))"
      using db by (auto simp: db_ok_def accounts_ok_def)
    have "order_events d' (or_id row) = order_events d (or_id row)"
      using frame by (simp add: order_events_def)
    with old show "account_ok (order_events d' (or_id row)) (order_refunds d' (or_id row)) (dec_cents (or_total row))"
    proof (cases "or_id row = rf_order_id r")
      case True
      obtain xs ys where "order_refunds d (rf_order_id r) = xs @ r # ys"
        "order_refunds d' (rf_order_id r) = xs @ r' # ys"
        using row_replaced_orders(2) [OF assms(2)] by blast
      with old True show ?thesis
        using assms(3,4) frame(10) \<open>order_events d' (or_id row) = order_events d (or_id row)\<close>
        by (auto simp: refund_intent_def intro: account_approve)
    next
      case False
      with old show ?thesis
        using row_replaced_orders(1) [OF assms(2)] \<open>order_events d' (or_id row) = order_events d (or_id row)\<close>
        by simp
    qed
  qed
  moreover have "payments_ok calls d'"
    using row_replaced_payments [OF assms(2) payments] db assms(3)
    by (simp add: db_ok_def keys_ok_def)
  ultimately show ?thesis
    using row_replaced_structure [OF assms(2) db] by (simp add: good_def db_ok_def)
qed

lemma close_good:
  assumes good: "good calls d" and rep: "row_replaced d r r' d1" and app: "event_appended d1 e d'"
    and live: "live_refund_status (rf_status r)" and closed: "\<not> live_refund_status (rf_status r')"
    and kind: "moves_open_flag e" "ev_event_type e \<noteq> ET_REFUND_PROPOSED"
    and order: "ev_order_id e = Some (rf_order_id r)"
    and amount: "executed_cents e = (if rf_status r' = RS_EXECUTED then dec_cents (rf_amount r) else 0)"
    and status: "rf_status r = RS_APPROVED \<Longrightarrow> rf_status r' = RS_EXECUTED"
  shows "good calls d'"
proof -
  have db: "db_ok d" and payments: "payments_ok calls d" using good by (auto simp: good_def)
  note frame = row_replaced_frame [OF rep] and appended = event_appendedD [OF app]
  note tables = row_replaced_structure [OF rep db]
  have "accounts_ok d'"
    unfolding accounts_ok_def
  proof
    fix row assume "row \<in> set (db_orders d')"
    then have "row \<in> set (db_orders d)" using frame appended by simp
    then have old: "account_ok (order_events d (or_id row)) (order_refunds d (or_id row)) (dec_cents (or_total row))"
      using db by (auto simp: db_ok_def accounts_ok_def)
    show "account_ok (order_events d' (or_id row)) (order_refunds d' (or_id row)) (dec_cents (or_total row))"
    proof (cases "or_id row = rf_order_id r")
      case True
      obtain xs ys where "order_refunds d (rf_order_id r) = xs @ r # ys"
        "order_refunds d1 (rf_order_id r) = xs @ r' # ys"
        using row_replaced_orders(2) [OF rep] by blast
      moreover have "order_refunds d' = order_refunds d1"
        using appended by (simp add: order_refunds_def fun_eq_iff)
      moreover have "order_events d' (rf_order_id r) = order_events d (rf_order_id r) @ [e]"
        using appended frame order by (simp add: order_events_def)
      moreover have "rf_amount r' = rf_amount r" using frame(10) by (simp add: refund_intent_def)
      ultimately show ?thesis
        using old True live closed kind amount by (simp add: account_close)
    next
      case False
      then have "order_refunds d' (or_id row) = order_refunds d (or_id row)"
        using row_replaced_orders(1) [OF rep] appended by (simp add: order_refunds_def)
      moreover have "order_events d' (or_id row) = order_events d (or_id row)"
        using False appended frame order by (simp add: order_events_def)
      ultimately show ?thesis using old by simp
    qed
  qed
  moreover have "payments_ok calls d1"
  proof (rule row_replaced_payments [OF rep payments])
    show "distinct (map rf_id (db_refunds d))" using db by (simp add: db_ok_def keys_ok_def)
    show "rf_status r' \<in> {RS_APPROVED, RS_EXECUTED}" if "rf_status r \<in> {RS_APPROVED, RS_EXECUTED}"
      using that live status by auto
  qed
  then have "payments_ok calls d'" using appended by (simp add: payments_ok_def)
  moreover have "proposals d' = proposals d1"
    using appended kind by (simp add: proposals_def)
  then have "evidence_ok d'" using tables(4) appended by (simp add: evidence_ok_def)
  ultimately show ?thesis
    using appended_keys [OF tables(1) app] appended_references [OF tables(2) app]
      appended_sequences [OF tables(3) app]
    by (simp add: good_def db_ok_def)
qed

lemma propose_good:
  assumes good: "good calls d" and new: "d1 = d\<lparr>db_refunds := db_refunds d @ [r]\<rparr>"
    and app: "event_appended d1 e d'"
    and row: "rf_status r = RS_PENDING_APPROVAL" "rf_id r \<notin> rf_id ` set (db_refunds d)" "refund_ok d r"
    and event: "ev_event_type e = ET_REFUND_PROPOSED" "ev_order_id e = Some (rf_order_id r)"
      "proposal_intent e = refund_intent r"
    and room: "\<And>x. x \<in> set (db_orders d) \<Longrightarrow> or_id x = rf_order_id r \<Longrightarrow>
      \<not> open_refund_in_history (order_events d (or_id x)) \<and>
      dec_cents (rf_amount r) + sum_list (map executed_cents (order_events d (or_id x))) \<le> dec_cents (or_total x)"
  shows "good calls d'"
proof -
  have db: "db_ok d" and payments: "payments_ok calls d" using good by (auto simp: good_def)
  note appended = event_appendedD [OF app]
  have "event_ok d1 = event_ok d" "refund_ok d1 = refund_ok d" "customer_exists d1 = customer_exists d"
    using event_ok_cong [of d1 d] new by simp_all
  then have tables: "keys_ok d1" "references_ok d1" "sequences_ok d1"
    using db row new
    by (auto simp: db_ok_def keys_ok_def references_ok_def sequences_ok_def last_seq_def customer_events_def)
  have "accounts_ok d'"
    unfolding accounts_ok_def
  proof
    fix x assume "x \<in> set (db_orders d')"
    then have x: "x \<in> set (db_orders d)" using appended new by simp
    then have old: "account_ok (order_events d (or_id x)) (order_refunds d (or_id x)) (dec_cents (or_total x))"
      using db by (auto simp: db_ok_def accounts_ok_def)
    show "account_ok (order_events d' (or_id x)) (order_refunds d' (or_id x)) (dec_cents (or_total x))"
    proof (cases "or_id x = rf_order_id r")
      case True
      then have "order_refunds d' (or_id x) = order_refunds d (or_id x) @ [r]"
        and "order_events d' (or_id x) = order_events d (or_id x) @ [e]"
        using appended new event by (simp_all add: order_refunds_def order_events_def)
      then show ?thesis using old room [OF x True] row event by (simp add: account_propose)
    next
      case False
      then have "order_refunds d' (or_id x) = order_refunds d (or_id x)"
        and "order_events d' (or_id x) = order_events d (or_id x)"
        using appended new event by (simp_all add: order_refunds_def order_events_def)
      then show ?thesis using old by simp
    qed
  qed
  moreover have "payments_ok calls d'"
    using payments appended new by (fastforce simp: payments_ok_def)
  moreover have "proposals d' = proposals d @ [e]"
    using appended new event by (simp add: proposals_def)
  then have "evidence_ok d'"
    using db appended new event by (simp add: db_ok_def evidence_ok_def)
  ultimately show ?thesis
    using appended_keys [OF tables(1) app] appended_references [OF tables(2) app]
      appended_sequences [OF tables(3) app]
    by (simp add: good_def db_ok_def)
qed

end
