(* ===== verification/Storage.thy ===== *)
theory Storage
  imports Ledger
begin

text \<open>
  What the repository operations do to the database: the effect of a successful append and of a
  guarded transition, and that neither they nor any lookup touches committed data or payments.
  The append protocol and the stream loader are instances of the interface \<open>event_log\<close>.
\<close>

section \<open>Operations that leave committed data and payments alone\<close>

abbreviation unmoved :: "db \<Rightarrow> refund_call list \<Rightarrow> world \<Rightarrow> bool" where
  "unmoved c k w \<equiv> w_committed w = c \<and> w_payment_calls w = k"

named_theorems quiet_rules \<open>operations that leave committed data and payments alone\<close>

lemma quiet_modify_db [quiet_rules]: "preserves (unmoved c k) (modify_db f)"
  by (simp add: preserves_def)

lemma quiet_next_identifier [quiet_rules]: "preserves (unmoved c k) (next_identifier p)"
  unfolding next_identifier_def by (intro preserves_rules preserves_modifyM) simp

lemma quiet_ids [quiet_rules]:
  "preserves (unmoved c k) ids_case_id" "preserves (unmoved c k) ids_refund_id"
  "preserves (unmoved c k) ids_event_id" "preserves (unmoved c k) ids_ticket_id"
  "preserves (unmoved c k) ids_verification_token"
  unfolding ids_case_id_def ids_refund_id_def ids_event_id_def ids_ticket_id_def
    ids_verification_token_def
  by (rule quiet_next_identifier)+

lemma quiet_clock [quiet_rules]: "preserves (unmoved c k) clock_now"
  unfolding clock_now_def by (rule preserves_rules)

lemma quiet_adapters [quiet_rules]:
  "preserves (unmoved c k) (mailer_send a b t)" "preserves (unmoved c k) (ticketing_escalate why)"
  unfolding mailer_send_def ticketing_escalate_def
  by (intro preserves_rules quiet_rules preserves_modifyM; simp)+

lemma quiet_inserts [quiet_rules]:
  "preserves (unmoved c k) (insert_case r)" "preserves (unmoved c k) (insert_event e)"
  "preserves (unmoved c k) (insert_refund f)" "preserves (unmoved c k) (insert_customer u)"
  "preserves (unmoved c k) (insert_order v)"
  unfolding insert_case_def insert_event_def insert_refund_def insert_customer_def insert_order_def
  by (intro preserves_rules quiet_rules)+

lemma quiet_lock [quiet_rules]: "preserves (unmoved c k) (lock_customer_for_update u)"
  unfolding lock_customer_for_update_def find_customer_by_id_def by (intro preserves_rules)

lemma quiet_scope [quiet_rules]:
  "preserves (unmoved c k) (validate_event_relational_scope u cs ord)"
  "preserves (unmoved c k) (validate_refund_relational_scope cs' ord')"
  unfolding validate_event_relational_scope_def validate_refund_relational_scope_def
    load_case_customer_id_def load_order_customer_id_def case_scope_customer_def check_order_scope_def
  by (intro preserves_rules)+

lemma quiet_allocate [quiet_rules]: "preserves (unmoved c k) (allocate_customer_event_seq u)"
  unfolding allocate_customer_event_seq_def bump_event_sequence_def ensure_event_sequence_row_def
  by (intro preserves_rules quiet_rules)

lemma quiet_append [quiet_rules]:
  "preserves (unmoved c k) (append_canonical_event et u cs ord a ch p)"
  unfolding append_canonical_event_def Let_def by (intro preserves_rules quiet_rules)

lemma quiet_transition [quiet_rules]:
  "preserves (unmoved c k) (transition_refund_status rid s t b clr)"
  unfolding transition_refund_status_def by (intro preserves_rules quiet_rules)

lemma quiet_lookups [quiet_rules]:
  "preserves (unmoved c k) (find_customer_by_id u)" "preserves (unmoved c k) (find_case_by_id cs)"
  "preserves (unmoved c k) (find_order_by_id ord)" "preserves (unmoved c k) (find_refund_by_id rid)"
  "preserves (unmoved c k) (require_refund_by_id rid)"
  "preserves (unmoved c k) (load_customer_events u)" "preserves (unmoved c k) (load_case_events cs)"
  "preserves (unmoved c k) (list_orders_for_customer u)"
  "preserves (unmoved c k) (list_cases_for_customer_ordered u)"
  "preserves (unmoved c k) (find_open_refund_for_order ord)"
  unfolding find_customer_by_id_def find_case_by_id_def find_order_by_id_def find_refund_by_id_def
    require_refund_by_id_def load_customer_events_def load_case_events_def
    list_orders_for_customer_def list_cases_for_customer_ordered_def find_open_refund_for_order_def
  by (intro preserves_rules)+

section \<open>Read-only operations\<close>

lemma lock_customer_run:
  assumes "lock_customer_for_update u w = (Inr row, w')"
  shows "w' = w" and "customer_exists (w_db w) u"
proof -
  have "w' = w \<and> cu_id row = u \<and> row \<in> set (db_customers (w_db w))"
    using assms
    by (auto simp: lock_customer_for_update_def find_customer_by_id_def split: option.splits
        dest: find_Some_mem)
  then show "w' = w" and "customer_exists (w_db w) u" by (auto simp: customer_exists_def)
qed

lemma find_case_run:
  assumes "find_case_by_id cs w = (Inr (Some row), w')"
  shows "w' = w" and "row \<in> set (db_cases (w_db w))" and "ca_id row = cs"
  using assms by (auto simp: find_case_by_id_def dest: find_Some_mem)

lemma find_case_of_customer:
  "find (\<lambda>r. ca_id r = c) (db_cases d) = Some row \<Longrightarrow> case_of_customer d c (ca_customer_id row)"
  by (auto simp: case_of_customer_def dest!: find_Some_mem)

lemma find_order_of_customer:
  "find (\<lambda>r. or_id r = c) (db_orders d) = Some row \<Longrightarrow> order_of_customer d c (or_customer_id row)"
  by (auto simp: order_of_customer_def dest!: find_Some_mem)

lemma relational_scope_run:
  assumes "validate_event_relational_scope u cs ord w = (Inr x, w')"
  shows "w' = w"
    and "case cs of None \<Rightarrow> True | Some c \<Rightarrow> case_of_customer (w_db w) c u"
    and "case ord of None \<Rightarrow> True | Some c \<Rightarrow> order_of_customer (w_db w) c u"
proof -
  obtain cu w1 y w2 where first: "case_scope_customer u cs w = (Inr cu, w1)"
    and second: "check_order_scope u ord w1 = (Inr y, w2)"
    and rest: "(case (cs, ord, cu) of (Some c, Some ord, Some cu) \<Rightarrow>
        bindM (load_order_customer_id ord) (\<lambda>owner.
          if owner \<noteq> Some cu then raiseM (scope_error (lit ''case '' @ c @ lit '' and order '' @ ord @
              lit '' belong to different customers'')) else returnM ())
      | _ \<Rightarrow> returnM ()) w2 = (Inr x, w')"
    using assms unfolding validate_event_relational_scope_def bindM_eq_Inr thenM_eq_Inr by blast
  have "w1 = w \<and> (case cs of None \<Rightarrow> True | Some c \<Rightarrow> case_of_customer (w_db w) c u)"
  proof (cases cs)
    case (Some c)
    with first show ?thesis
      by (cases "find (\<lambda>r. ca_id r = c) (db_cases (w_db w))")
        (auto simp: case_scope_customer_def load_case_customer_id_def dest: find_case_of_customer split: if_splits)
  qed (use first in \<open>simp add: case_scope_customer_def\<close>)
  moreover have "w2 = w1 \<and> (case ord of None \<Rightarrow> True | Some c \<Rightarrow> order_of_customer (w_db w1) c u)"
  proof (cases ord)
    case (Some c)
    with second show ?thesis
      by (cases "find (\<lambda>r. or_id r = c) (db_orders (w_db w1))")
        (auto simp: check_order_scope_def load_order_customer_id_def dest: find_order_of_customer split: if_splits)
  qed (use second in \<open>simp add: check_order_scope_def\<close>)
  moreover have "w' = w2"
    using rest by (auto simp: load_order_customer_id_def split: option.splits if_splits)
  ultimately show "w' = w"
    and "case cs of None \<Rightarrow> True | Some c \<Rightarrow> case_of_customer (w_db w) c u"
    and "case ord of None \<Rightarrow> True | Some c \<Rightarrow> order_of_customer (w_db w) c u" by blast+
qed

section \<open>Allocation and append\<close>

lemma map_of_bump:
  "map_of (map (\<lambda>(c, k). if c = u then (c, k + 1) else (c, k)) xs) v =
     (if v = u then map_option (\<lambda>k. k + 1) (map_of xs v) else map_of xs v)" for xs :: "('a \<times> int) list"
  by (induction xs) auto

lemma fst_bump: "map fst (map (\<lambda>(c, k). if c = u then (c, k + 1) else (c, k)) xs) = map fst xs"
  for xs :: "('a \<times> int) list"
  by (induction xs) auto

definition bumped :: "db \<Rightarrow> pystr \<Rightarrow> (pystr \<times> int) list \<Rightarrow> bool" where
  "bumped d u seqs \<longleftrightarrow> (distinct (map fst (db_event_sequences d)) \<longrightarrow> distinct (map fst seqs)) \<and>
     (\<forall>c. (case map_of seqs c of None \<Rightarrow> 0 | Some n \<Rightarrow> n) =
        (if c = u then last_seq d c + 1 else last_seq d c))"

lemma bumped_increment:
  assumes "map_of (db_event_sequences d) u = Some n"
  shows "bumped d u (map (\<lambda>(c, k). if c = u then (c, k + 1) else (c, k)) (db_event_sequences d))"
  using assms by (simp add: bumped_def last_seq_def map_of_bump fst_bump del: map_map split: option.splits)

lemma bump_run:
  assumes "bump_event_sequence u w = (Inr r, w')"
  shows "(r = None \<and> map_of (db_event_sequences (w_db w)) u = None \<and> w' = w) \<or>
    (r = Some (last_seq (w_db w) u + 1) \<and> (\<exists>seqs. bumped (w_db w) u seqs \<and>
       w' = w\<lparr>w_db := (w_db w)\<lparr>db_event_sequences := seqs\<rparr>\<rparr>))"
proof (cases "map_of (db_event_sequences (w_db w)) u")
  case None
  with assms show ?thesis by (simp add: bump_event_sequence_def)
next
  case (Some n)
  with assms have "r = Some (n + 1)" and "w' = w\<lparr>w_db := (w_db w)\<lparr>db_event_sequences :=
      map (\<lambda>(c, k). if c = u then (c, k + 1) else (c, k)) (db_event_sequences (w_db w))\<rparr>\<rparr>"
    by (simp_all add: bump_event_sequence_def)
  with bumped_increment [OF Some] Some show ?thesis by (auto simp: last_seq_def)
qed

lemma allocate_run:
  assumes "allocate_customer_event_seq u w = (Inr n, w')"
  shows "n = last_seq (w_db w) u + 1 \<and>
    (\<exists>seqs. bumped (w_db w) u seqs \<and> w' = w\<lparr>w_db := (w_db w)\<lparr>db_event_sequences := seqs\<rparr>\<rparr>)"
proof -
  obtain r w1 where first: "bump_event_sequence u w = (Inr r, w1)"
    and rest: "(case r of Some n \<Rightarrow> returnM n
       | None \<Rightarrow> thenM (ensure_event_sequence_row u) (bindM (bump_event_sequence u) (\<lambda>allocated.
           case allocated of Some n \<Rightarrow> returnM n
           | None \<Rightarrow> raiseM (RuntimeError (lit ''failed to allocate event sequence for customer '' @ u)))))
       w1 = (Inr n, w')"
    using assms unfolding allocate_customer_event_seq_def bindM_eq_Inr by blast
  show ?thesis
  proof (cases r)
    case (Some m)
    with bump_run [OF first] rest show ?thesis by auto
  next
    case None
    with bump_run [OF first] have none: "map_of (db_event_sequences (w_db w)) u = None" and "w1 = w"
      by auto
    define d2 where "d2 = (w_db w)\<lparr>db_event_sequences := db_event_sequences (w_db w) @ [(u, 0)]\<rparr>"
    from rest None none \<open>w1 = w\<close> obtain m w3
      where bump: "bump_event_sequence u (w\<lparr>w_db := d2\<rparr>) = (Inr (Some m), w3)" and "n = m" and "w' = w3"
      by (auto simp: d2_def ensure_event_sequence_row_def thenM_eq_Inr bindM_eq_Inr
          split: if_splits option.splits)
    have seq: "last_seq d2 c = last_seq (w_db w) c" for c
      using none by (auto simp: d2_def last_seq_def map_add_def split: option.splits)
    have keys: "distinct (map fst (db_event_sequences (w_db w))) \<Longrightarrow> distinct (map fst (db_event_sequences d2))"
      using none by (auto simp: d2_def map_of_eq_None_iff)
    from bump_run [OF bump] obtain ss where m: "m = last_seq d2 u + 1" and ss: "bumped d2 u ss"
      and w3: "w3 = w\<lparr>w_db := d2\<lparr>db_event_sequences := ss\<rparr>\<rparr>" by auto
    have "bumped (w_db w) u ss" using ss keys by (auto simp: bumped_def seq)
    moreover have "w3 = w\<lparr>w_db := (w_db w)\<lparr>db_event_sequences := ss\<rparr>\<rparr>" by (simp add: w3 d2_def)
    ultimately show ?thesis using \<open>n = m\<close> \<open>w' = w3\<close> m seq by auto
  qed
qed

lemma insert_event_run:
  assumes "insert_event e w = (Inr x, w')"
  shows "w' = w\<lparr>w_db := (w_db w)\<lparr>db_events := db_events (w_db w) @ [e]\<rparr>\<rparr>"
    and "ev_id e \<notin> ev_id ` set (db_events (w_db w))"
  using assms by (auto simp: insert_event_def split: if_splits)

lemma validate_dump_same:
  "payload_class p = M \<Longrightarrow> model_validate M (model_dump p) = Inr q \<Longrightarrow> q = p \<and> payload_finite p"
proof (cases "payload_finite p")
  case True
  moreover assume "payload_class p = M" and "model_validate M (model_dump p) = Inr q"
  ultimately show ?thesis by (metis model_validate_dump sum.inject(2))
next
  case False
  moreover assume "payload_class p = M" and "model_validate M (model_dump p) = Inr q"
  ultimately show ?thesis by (cases p) (auto simp: field_defs)
qed

text \<open>What a successful append does.\<close>

abbreviation time_now :: "world \<Rightarrow> datetime" where
  "time_now w \<equiv> (case w_override_now w of Some t \<Rightarrow> t | None \<Rightarrow> w_utc_now w)"

lemma append_steps:
  assumes run: "append_canonical_event (EvMember et) u cs ord a ch (model_dump p) w = (Inr e, w')"
    and model: "payload_class p = payload_model_for_event_type et"
  obtains ss where "bumped (w_db w) u ss"
    and "e = \<lparr>ev_id = lit ''evt_'' @ nat_str (w_counter w), ev_customer_id = u, ev_case_id = cs,
      ev_order_id = ord, ev_seq = last_seq (w_db w) u + 1, ev_event_type = et, ev_actor = a,
      ev_channel = ch, ev_payload = model_dump p, ev_created_at = time_now w\<rparr>"
    and "w' = w\<lparr>w_counter := w_counter w + 1,
      w_db := (w_db w)\<lparr>db_events := db_events (w_db w) @ [e], db_event_sequences := ss\<rparr>\<rparr>"
    and "ev_id e \<notin> ev_id ` set (db_events (w_db w))"
    and "event_payload e = Inr p" and "catalogue_scope_ok et cs ord" and "(a, ch) = catalogue_actor p"
    and "customer_exists (w_db w) u"
    and "case cs of None \<Rightarrow> True | Some c \<Rightarrow> case_of_customer (w_db w) c u"
    and "case ord of None \<Rightarrow> True | Some c \<Rightarrow> order_of_customer (w_db w) c u"
proof -
  obtain row w1 where lock: "lock_customer_for_update u w = (Inr row, w1)"
    and run1: "bindM (liftM (build_canonical_event (EvMember et) u cs ord a ch (model_dump p)))
      (\<lambda>canonical. thenM (validate_event_relational_scope (ce_customer_id canonical)
          (ce_case_id canonical) (ce_order_id canonical))
        (bindM (allocate_customer_event_seq u) (\<lambda>next_seq. bindM clock_now (\<lambda>created_at.
         bindM ids_event_id (\<lambda>event_id. let event_row = \<lparr>ev_id = event_id,
           ev_customer_id = ce_customer_id canonical, ev_case_id = ce_case_id canonical,
           ev_order_id = ce_order_id canonical, ev_seq = next_seq,
           ev_event_type = ce_event_type canonical, ev_actor = ce_actor canonical,
           ev_channel = ce_channel canonical, ev_payload = payload_as_dict canonical,
           ev_created_at = created_at\<rparr> in thenM (insert_event event_row) (returnM event_row))))))
      w1 = (Inr e, w')"
    using run unfolding append_canonical_event_def bindM_eq_Inr by blast
  note lock_customer_run [OF lock, simp]
  obtain ce where build: "build_canonical_event (EvMember et) u cs ord a ch (model_dump p) = Inr ce"
    using run1 by (cases "build_canonical_event (EvMember et) u cs ord a ch (model_dump p)") simp_all
  then obtain q where q: "validate_payload et (model_dump p) = Inr q"
    and scope: "catalogue_scope_ok et cs ord" and actor: "(a, ch) = catalogue_actor q"
    and ce: "ce = \<lparr>ce_event_type = et, ce_customer_id = u, ce_case_id = cs, ce_order_id = ord,
      ce_actor = a, ce_channel = ch, ce_payload = q\<rparr>"
    by (auto simp: build_member_iff)
  have qp: "q = p" "payload_finite p"
    using validate_dump_same [OF model] q by (simp_all add: validate_payload_def)
  obtain x w2 where rel: "validate_event_relational_scope u cs ord w = (Inr x, w2)"
    and run2: "bindM (allocate_customer_event_seq u) (\<lambda>next_seq. bindM clock_now (\<lambda>created_at.
         bindM ids_event_id (\<lambda>event_id. let event_row = \<lparr>ev_id = event_id,
           ev_customer_id = u, ev_case_id = cs, ev_order_id = ord, ev_seq = next_seq,
           ev_event_type = et, ev_actor = a, ev_channel = ch, ev_payload = model_dump p,
           ev_created_at = created_at\<rparr> in thenM (insert_event event_row) (returnM event_row)))) w2
      = (Inr e, w')"
    using run1 build by (auto simp: ce qp payload_as_dict_def thenM_eq_Inr)
  note relational = relational_scope_run [OF rel]
  obtain n w3 where alloc: "allocate_customer_event_seq u w = (Inr n, w3)"
    and run3: "bindM clock_now (\<lambda>created_at.
         bindM ids_event_id (\<lambda>event_id. let event_row = \<lparr>ev_id = event_id,
           ev_customer_id = u, ev_case_id = cs, ev_order_id = ord, ev_seq = n,
           ev_event_type = et, ev_actor = a, ev_channel = ch, ev_payload = model_dump p,
           ev_created_at = created_at\<rparr> in thenM (insert_event event_row) (returnM event_row))) w3
      = (Inr e, w')"
    using run2 relational(1) unfolding bindM_eq_Inr by blast
  from allocate_run [OF alloc] obtain ss where n: "n = last_seq (w_db w) u + 1"
    and ss: "bumped (w_db w) u ss" and w3: "w3 = w\<lparr>w_db := (w_db w)\<lparr>db_event_sequences := ss\<rparr>\<rparr>"
    by blast
  define w4 where "w4 = w3\<lparr>w_counter := w_counter w + 1\<rparr>"
  have e: "e = \<lparr>ev_id = lit ''evt_'' @ nat_str (w_counter w), ev_customer_id = u,
      ev_case_id = cs, ev_order_id = ord, ev_seq = n, ev_event_type = et, ev_actor = a,
      ev_channel = ch, ev_payload = model_dump p, ev_created_at = time_now w\<rparr>"
    and ins: "insert_event e w4 = (Inr (), w')"
    using run3 unfolding w4_def
    by (auto simp: clock_now_def ids_event_id_def next_identifier_def bindM_eq_Inr thenM_eq_Inr w3 Let_def
        cong: option.case_cong)
  note inserted = insert_event_run [OF ins]
  show thesis
  proof (rule that)
    show "bumped (w_db w) u ss" by fact
    show "e = \<lparr>ev_id = lit ''evt_'' @ nat_str (w_counter w), ev_customer_id = u, ev_case_id = cs,
      ev_order_id = ord, ev_seq = last_seq (w_db w) u + 1, ev_event_type = et, ev_actor = a,
      ev_channel = ch, ev_payload = model_dump p, ev_created_at = time_now w\<rparr>"
      using e n by simp
    show "w' = w\<lparr>w_counter := w_counter w + 1,
      w_db := (w_db w)\<lparr>db_events := db_events (w_db w) @ [e], db_event_sequences := ss\<rparr>\<rparr>"
      using inserted(1) by (simp add: w4_def w3)
    show "ev_id e \<notin> ev_id ` set (db_events (w_db w))" using inserted(2) by (simp add: w4_def w3)
    show "event_payload e = Inr p" using q qp by (simp add: event_payload_def e)
    show "catalogue_scope_ok et cs ord" and "(a, ch) = catalogue_actor p" using scope actor qp by simp_all
    show "customer_exists (w_db w) u" using lock_customer_run(2) [OF lock] .
    show "case cs of None \<Rightarrow> True | Some c \<Rightarrow> case_of_customer (w_db w) c u"
      and "case ord of None \<Rightarrow> True | Some c \<Rightarrow> order_of_customer (w_db w) c u" by fact+
  qed
qed

lemma append_run:
  assumes run: "append_canonical_event (EvMember et) u cs ord a ch (model_dump p) w = (Inr e, w')"
    and model: "payload_class p = payload_model_for_event_type et"
    and money: "\<And>r amt ref. p = RefundExecutedPayload r amt ref \<Longrightarrow> is_money amt"
    and seqs: "distinct (map fst (db_event_sequences (w_db w)))"
  shows "event_appended (w_db w) e (w_db w')"
    and "w' = w\<lparr>w_counter := w_counter w + 1, w_db := w_db w'\<rparr>"
    and "ev_event_type e = et" and "ev_customer_id e = u" and "ev_case_id e = cs" and "ev_order_id e = ord"
    and "event_payload e = Inr p" and "ev_created_at e = time_now w"
proof -
  obtain ss where ss: "bumped (w_db w) u ss"
    and e: "e = \<lparr>ev_id = lit ''evt_'' @ nat_str (w_counter w), ev_customer_id = u, ev_case_id = cs,
      ev_order_id = ord, ev_seq = last_seq (w_db w) u + 1, ev_event_type = et, ev_actor = a,
      ev_channel = ch, ev_payload = model_dump p, ev_created_at = time_now w\<rparr>"
    and w': "w' = w\<lparr>w_counter := w_counter w + 1,
      w_db := (w_db w)\<lparr>db_events := db_events (w_db w) @ [e], db_event_sequences := ss\<rparr>\<rparr>"
    and new: "ev_id e \<notin> ev_id ` set (db_events (w_db w))"
    and payload: "event_payload e = Inr p" and scope: "catalogue_scope_ok et cs ord"
    and actor: "(a, ch) = catalogue_actor p" and refs: "customer_exists (w_db w) u"
      "case cs of None \<Rightarrow> True | Some c \<Rightarrow> case_of_customer (w_db w) c u"
      "case ord of None \<Rightarrow> True | Some c \<Rightarrow> order_of_customer (w_db w) c u"
    by (rule append_steps [OF run model])
  show fields: "ev_event_type e = et" "ev_customer_id e = u" "ev_case_id e = cs" "ev_order_id e = ord"
    by (simp_all add: e)
  show "event_payload e = Inr p" by (rule payload)
  show "ev_created_at e = time_now w" by (simp add: e)
  have "executed_money e"
    using money payload model fields by (cases p) (auto simp: executed_money_def)
  moreover have "ev_payload e = model_dump p" and "(ev_actor e, ev_channel e) = (a, ch)"
    by (simp_all add: e)
  ultimately have "event_ok (w_db w) e"
    using payload refs scope actor by (cases cs; cases ord) (simp_all add: event_ok_def fields)
  show "w' = w\<lparr>w_counter := w_counter w + 1, w_db := w_db w'\<rparr>" by (simp add: w')
  show "event_appended (w_db w) e (w_db w')"
    unfolding event_appended_def
  proof (intro conjI)
    have db: "w_db w' = (w_db w)\<lparr>db_events := db_events (w_db w) @ [e], db_event_sequences := ss\<rparr>"
      by (simp add: w')
    with ss seqs show "\<exists>seqs. w_db w' = (w_db w)\<lparr>db_events := db_events (w_db w) @ [e], db_event_sequences := seqs\<rparr> \<and>
        distinct (map fst seqs)"
      unfolding bumped_def by blast
    have "last_seq (w_db w') c = (case map_of ss c of None \<Rightarrow> 0 | Some n \<Rightarrow> n)" for c
      by (simp add: db last_seq_def)
    with ss show "\<forall>c. last_seq (w_db w') c =
        (if c = ev_customer_id e then last_seq (w_db w) c + 1 else last_seq (w_db w) c)"
      unfolding bumped_def fields by presburger
    show "ev_seq e = last_seq (w_db w) (ev_customer_id e) + 1" by (simp add: e)
    show "ev_id e \<notin> ev_id ` set (db_events (w_db w))" by (rule new)
    show "event_ok (w_db w) e" by fact
  qed
qed

section \<open>Guarded transitions and insertions\<close>

lemma map_if_none: "(\<And>x. x \<in> set xs \<Longrightarrow> \<not> P x) \<Longrightarrow> map (\<lambda>x. if P x then f x else x) xs = xs"
  by (induction xs) auto

lemma transition_run:
  assumes run: "transition_refund_status rid from_status to_status b clr w = (Inr moved, w')"
    and keys: "distinct (map rf_id (db_refunds (w_db w)))"
  shows "\<not> moved \<and> w' = w \<or>
    moved \<and> to_status \<in> allowed_refund_status_targets from_status \<and> w' = w\<lparr>w_db := w_db w'\<rparr> \<and>
    (\<exists>r. transition_matches rid from_status b r \<and>
       row_replaced (w_db w) r (set_refund_status to_status clr r) (w_db w'))"
proof -
  let ?match = "transition_matches rid from_status b" and ?set = "set_refund_status to_status clr"
  let ?rows = "db_refunds (w_db w)"
  have permitted: "to_status \<in> allowed_refund_status_targets from_status"
    and moved: "moved \<longleftrightarrow> length (filter ?match ?rows) = 1"
    and w': "w' = w\<lparr>w_db := (w_db w)\<lparr>db_refunds := map (\<lambda>r. if ?match r then ?set r else r) ?rows\<rparr>\<rparr>"
    using run
    by (auto simp: transition_refund_status_def assert_refund_status_transition_permitted_def
        split: if_splits)
  show ?thesis
  proof (cases "\<exists>r\<in>set ?rows. ?match r")
    case False
    then have "filter ?match ?rows = []" and "map (\<lambda>r. if ?match r then ?set r else r) ?rows = ?rows"
      by (auto simp: filter_empty_conv intro!: map_if_none)
    with moved w' show ?thesis by simp
  next
    case True
    then obtain r xs ys where split: "?rows = xs @ r # ys" and match: "?match r"
      by (meson split_list)
    have others: "\<not> ?match x" if "x \<in> set xs \<union> set ys" for x
    proof -
      have "rf_id x \<in> rf_id ` set xs \<union> rf_id ` set ys" using that by blast
      moreover have "rf_id r \<notin> rf_id ` set xs \<union> rf_id ` set ys"
        using keys unfolding split by simp
      ultimately have "rf_id x \<noteq> rf_id r" by metis
      with match show ?thesis by (simp add: transition_matches_def)
    qed
    then have "filter ?match ?rows = [r]"
      using match by (simp add: split filter_empty_conv)
    moreover have "map (\<lambda>r. if ?match r then ?set r else r) ?rows = xs @ ?set r # ys"
      using others match by (simp add: split map_if_none)
    ultimately show ?thesis
      using moved w' permitted match split by (auto simp: row_replaced_def)
  qed
qed

lemma insert_refund_run:
  assumes "insert_refund r w = (Inr x, w')"
  shows "w' = w\<lparr>w_db := (w_db w)\<lparr>db_refunds := db_refunds (w_db w) @ [r]\<rparr>\<rparr>"
    and "rf_id r \<notin> rf_id ` set (db_refunds (w_db w))"
    and "case_of_customer (w_db w) (rf_case_id r) (rf_customer_id r)"
    and "order_of_customer (w_db w) (rf_order_id r) (rf_customer_id r)"
  using assms by (auto simp: insert_refund_def split: if_splits)

lemma insert_case_run:
  assumes "insert_case r w = (Inr x, w')"
  shows "w' = w\<lparr>w_db := (w_db w)\<lparr>db_cases := db_cases (w_db w) @ [r]\<rparr>\<rparr>"
    and "ca_id r \<notin> ca_id ` set (db_cases (w_db w))"
    and "customer_exists (w_db w) (ca_customer_id r)"
  using assms by (auto simp: insert_case_def split: if_splits)

lemma refund_scope_run:
  assumes "validate_refund_relational_scope cs ord w = (Inr u, w')"
  shows "w' = w" and "case_of_customer (w_db w) cs u" and "order_of_customer (w_db w) ord u"
proof -
  obtain a b where "find (\<lambda>r. ca_id r = cs) (db_cases (w_db w)) = Some a"
    and "find (\<lambda>r. or_id r = ord) (db_orders (w_db w)) = Some b"
    and "w' = w" and "ca_customer_id a = u" and "or_customer_id b = u"
    using assms
    by (auto simp: validate_refund_relational_scope_def load_case_customer_id_def
        load_order_customer_id_def split: option.splits if_splits)
  then show "w' = w" and "case_of_customer (w_db w) cs u" and "order_of_customer (w_db w) ord u"
    using find_case_of_customer find_order_of_customer by metis+
qed

section \<open>Safe programs\<close>

text \<open>
  A program is safe when, from a world whose current and committed databases satisfy the
  invariant, it either returns in such a world or raises with the committed database still in
  order, which is what the enclosing session returns to.
\<close>

definition world_good :: "world \<Rightarrow> bool" where
  "world_good w \<longleftrightarrow> good (w_payment_calls w) (w_db w) \<and> good (w_payment_calls w) (w_committed w)"

definition committed_good :: "world \<Rightarrow> bool" where
  "committed_good w \<longleftrightarrow> good (w_payment_calls w) (w_committed w)"

abbreviation safe :: "'a op \<Rightarrow> bool" where
  "safe m \<equiv> hoare world_good m (\<lambda>_. world_good) committed_good"

named_theorems safe_rules \<open>safe operations\<close>

lemma world_good_committed: "world_good w \<Longrightarrow> committed_good w"
  by (simp add: world_good_def committed_good_def)

lemma world_goodD:
  "world_good w \<Longrightarrow> distinct (map fst (db_event_sequences (w_db w)))"
  "world_good w \<Longrightarrow> distinct (map rf_id (db_refunds (w_db w)))"
  by (auto simp: world_good_def good_def db_ok_def keys_ok_def)

lemma safe_returnM [safe_rules]: "safe (returnM x)"
  by (rule hoare_returnM)

lemma safe_raiseM [safe_rules]: "safe (raiseM e)"
  by (rule hoare_raiseM) (rule world_good_committed)

lemma safe_liftM [safe_rules]: "safe (liftM r)"
  by (rule hoare_liftM) (auto intro: world_good_committed)

lemma safe_getM [safe_rules]: "safe (getM f)"
  by (rule hoare_getM)

lemma safe_ensureM [safe_rules]: "safe (ensureM b e)"
  by (auto simp: hoare_def intro: world_good_committed)

lemma safe_bindM [safe_rules]: "safe m \<Longrightarrow> (\<And>x. safe (f x)) \<Longrightarrow> safe (bindM m f)"
  by (rule hoare_bindM)

lemma safe_thenM [safe_rules]: "safe m \<Longrightarrow> safe n \<Longrightarrow> safe (thenM m n)"
  by (rule hoare_thenM)

lemma safe_foldM [safe_rules]: "(\<And>b x. safe (f b x)) \<Longrightarrow> safe (foldM f b xs)"
  by (rule hoare_foldM)

lemma safe_cases [safe_rules]:
  "safe m \<Longrightarrow> safe n \<Longrightarrow> safe (if b then m else n)"
  "safe m \<Longrightarrow> (\<And>x. safe (f x)) \<Longrightarrow> safe (case r of None \<Rightarrow> m | Some x \<Rightarrow> f x)"
  "(\<And>x y. safe (g x y)) \<Longrightarrow> safe (case p of (x, y) \<Rightarrow> g x y)"
  by (simp_all split: option.splits prod.splits)

text \<open>
  The rule for programs that leave committed data and payments alone: only what they do to the
  current database when they return has to be shown.
\<close>

lemma safe_quiet:
  assumes quiet: "\<And>c k. preserves (unmoved c k) m"
    and db: "\<And>w x w'. world_good w \<Longrightarrow> m w = (Inr x, w') \<Longrightarrow> good (w_payment_calls w) (w_db w')"
  shows "safe m"
proof -
  have same: "w_committed w' = w_committed w \<and> w_payment_calls w' = w_payment_calls w"
    if "m w = (r, w')" for w r w'
    using preservesD [OF quiet [of "w_committed w" "w_payment_calls w"] _ that] by simp
  show ?thesis
  proof (rule hoareI)
    show "world_good w'" if "world_good w" "m w = (Inr x, w')" for w x w'
      using db [OF that] that(1) same [OF that(2)] by (simp add: world_good_def)
    show "committed_good w'" if "world_good w" "m w = (Inl e, w')" for w e w'
      using that(1) same [OF that(2)] by (simp add: world_good_def committed_good_def)
  qed
qed

lemma safe_modify_world [safe_rules]:
  assumes "\<And>w. w_db (f w) = w_db w \<and> w_committed (f w) = w_committed w \<and> w_payment_calls (f w) = w_payment_calls w"
  shows "safe (modifyM f)"
  using assms by (simp add: hoare_def world_good_def)

lemma safe_basic [safe_rules]:
  "safe clock_now" "safe (next_identifier p)" "safe (mailer_send a b t)"
  unfolding clock_now_def next_identifier_def mailer_send_def
  by (intro safe_rules; simp)+

lemma safe_ids [safe_rules]:
  "safe ids_case_id" "safe ids_refund_id" "safe ids_event_id" "safe ids_ticket_id"
  "safe ids_verification_token" "safe (ticketing_escalate why)"
  unfolding ids_case_id_def ids_refund_id_def ids_event_id_def ids_ticket_id_def
    ids_verification_token_def ticketing_escalate_def
  by (intro safe_rules; simp)+

lemma safe_lookups [safe_rules]:
  "safe (find_customer_by_id u)" "safe (find_case_by_id cs)" "safe (find_order_by_id ord)"
  "safe (find_refund_by_id rid)" "safe (require_refund_by_id rid)" "safe (load_customer_events u)"
  "safe (load_case_events cs)" "safe (list_orders_for_customer u)"
  "safe (list_cases_for_customer_ordered u)" "safe (find_open_refund_for_order ord)"
  "safe (lock_customer_for_update u)" "safe (find_customer_by_email m)"
  "safe (find_case_for_customer_by_opening_message_id u t)"
  unfolding find_customer_by_id_def find_case_by_id_def find_order_by_id_def find_refund_by_id_def
    require_refund_by_id_def load_customer_events_def load_case_events_def
    list_orders_for_customer_def list_cases_for_customer_ordered_def find_open_refund_for_order_def
    lock_customer_for_update_def find_customer_by_email_def
    find_case_for_customer_by_opening_message_id_def
  by (intro safe_rules)+

text \<open>Appending an event that is no move of an order's account.\<close>

lemma safe_append:
  assumes "payload_class p = payload_model_for_event_type et"
    and "et \<notin> {ET_REFUND_PROPOSED, ET_REFUND_EXECUTED, ET_REFUND_REJECTED, ET_REFUND_EXPIRED}"
  shows "safe (append_canonical_event (EvMember et) u cs ord a ch (model_dump p))"
proof (rule safe_quiet)
  show "preserves (unmoved c k) (append_canonical_event (EvMember et) u cs ord a ch (model_dump p))" for c k
    by (rule quiet_append)
  fix w e w'
  assume good: "world_good w"
    and run: "append_canonical_event (EvMember et) u cs ord a ch (model_dump p) w = (Inr e, w')"
  have "p \<noteq> RefundExecutedPayload r amt ref" for r amt ref
  proof
    assume "p = RefundExecutedPayload r amt ref"
    with assms(1) have "payload_model_for_event_type et = payload_model_for_event_type ET_REFUND_EXECUTED"
      by simp
    with assms(2) show False by (simp only: payload_model_for_event_type_inject) simp
  qed
  then have "event_appended (w_db w) e (w_db w')" and "ev_event_type e = et"
    using append_run [OF run assms(1) _ world_goodD(1) [OF good]] by blast+
  with good assms(2) show "good (w_payment_calls w) (w_db w')"
    by (auto simp: world_good_def moves_open_flag_def intro: neutral_event)
qed

end
