(* ===== verification/Safety.thy ===== *)
theory Safety
  imports Gate Storage
begin

text \<open>
  Every gate operation keeps the invariant of \<open>Ledger\<close>: the event log and the refunds table tell
  the same account, an order is never refunded beyond its total, no refund is paid twice, and
  every payment is backed by an approved row for exactly its amount.
\<close>

section \<open>What the policy sees\<close>

lemma load_customer_events_run:
  assumes "sequences_ok (w_db w)"
  shows "load_customer_events u w = (Inr (customer_events (w_db w) u), w)"
proof -
  have "sorted (map ev_seq (customer_events (w_db w) u))"
    using assms by (auto simp: sequences_ok_def)
  then show ?thesis
    by (simp add: load_customer_events_def sort_key_sorted flip: customer_events_def)
qed

lemma order_owner_unique:
  assumes "keys_ok d" and "order_of_customer d ord u" and "order_of_customer d ord v"
  shows "u = v"
  using assms distinct_map_eq [of or_id "db_orders d"]
  by (auto simp: keys_ok_def order_of_customer_def)

lemma order_scope_of_customer_events:
  assumes "db_ok d" and "order_of_customer d ord u"
  shows "order_scoped_events ord u (customer_events d u) = order_events d ord"
proof -
  have "ev_customer_id e = u" if "e \<in> set (db_events d)" and "ev_order_id e = Some ord" for e
    using assms that order_owner_unique [of d ord u "ev_customer_id e"]
    by (auto simp: db_ok_def references_ok_def event_ok_def)
  then show ?thesis
    by (auto simp: order_scoped_events_def customer_events_def order_events_def intro!: filter_cong)
qed

lemma order_events_sorted:
  assumes "db_ok d" and "order_of_customer d ord u"
  shows "sorted (map ev_seq (order_events d ord))"
proof -
  have "sorted (map ev_seq (customer_events d u))"
    using assms(1) by (auto simp: db_ok_def sequences_ok_def)
  then have "sorted (map ev_seq (order_scoped_events ord u (customer_events d u)))"
    unfolding order_scoped_events_def by (rule sorted_map_filter)
  with order_scope_of_customer_events [OF assms] show ?thesis by simp
qed

lemma money_total: "is_money d \<Longrightarrow> d = cents (dec_cents d) \<and> dec_cents d < 10 ^ 12"
  by (elim is_moneyE) (simp add: dec_cents_def cents_def)

definition order_room :: "db \<Rightarrow> pystr \<Rightarrow> pystr \<Rightarrow> order_summary option \<Rightarrow> bool" where
  "order_room d u ord s \<longleftrightarrow> (\<exists>row\<in>set (db_orders d). or_id row = ord \<and> or_customer_id row = u \<and>
     (\<exists>summary. s = Some summary \<and>
        order_account summary (dec_cents (or_total row)) (sum_list (map executed_cents (order_events d ord))) \<and>
        os_has_open_refund summary = open_refund_in_history (order_events d ord)))"

lemma project_linked_order:
  assumes db: "db_ok d" and row: "row \<in> set (db_orders d)" "or_customer_id row = u"
    and run: "project_order_summary \<lparr>oseed_order_id = or_id row, oseed_customer_id = or_customer_id row,
      oseed_total = or_total row\<rparr> (customer_events d u) now = Inr s"
  shows "order_room d u (or_id row) (Some s)"
proof -
  let ?evs = "order_events d (or_id row)"
  have owner: "order_of_customer d (or_id row) u" using row by (auto simp: order_of_customer_def)
  have scope: "?evs = order_scoped_events (or_id row) u (customer_events d u)"
    using order_scope_of_customer_events [OF db owner] by simp
  have money: "list_all executed_money ?evs"
    using db by (auto simp: list_all_iff order_events_def db_ok_def references_ok_def event_ok_def)
  have account: "account_ok ?evs (order_refunds d (or_id row)) (dec_cents (or_total row))"
    using db row by (auto simp: db_ok_def accounts_ok_def)
  have total: "or_total row = cents (dec_cents (or_total row))" "dec_cents (or_total row) < 10 ^ 12"
    using db row money_total by (auto simp: db_ok_def references_ok_def)
  have within: "sum_list (map executed_cents ?evs) \<le> dec_cents (or_total row)"
    using account by (simp add: account_ok_def)
  have "(10::nat) ^ 12 \<le> 10 ^ dec_prec" by (simp add: dec_prec_def)
  with within total(2) have "sum_list (map executed_cents ?evs) < 10 ^ dec_prec" by linarith
  with order_fold_total [OF run, of ?evs] scope money row(2)
  have "is_cents (sum_list (map executed_cents ?evs)) (os_refunded_total s) \<and>
      os_has_open_refund s = open_refund_in_history (sort_key ev_seq ?evs) \<and> os_total s = or_total row"
    by simp
  moreover have "sort_key ev_seq ?evs = ?evs"
    using order_events_sorted [OF db owner] by (rule sort_key_sorted)
  ultimately show ?thesis
    using row total within by (auto simp: order_room_def order_account_def)
qed

lemma find_unique_row:
  "distinct (map f xs) \<Longrightarrow> x \<in> set xs \<Longrightarrow> find (\<lambda>r. f r = f x) xs = Some x"
  by (rule find_key_unique)

lemma linked_order_run:
  assumes db: "db_ok d" and d: "d = w_db w" and owner: "order_of_customer d ord u"
    and run: "load_linked_order_summary (Some ord) (customer_events d u) now w = (Inr s, w')"
  shows "w' = w" and "order_room d u ord s"
proof -
  obtain row where row: "row \<in> set (db_orders d)" "or_id row = ord" "or_customer_id row = u"
    using owner by (auto simp: order_of_customer_def)
  have "find (\<lambda>r. or_id r = ord) (db_orders d) = Some row"
    using find_unique_row [of or_id "db_orders d" row] db row by (simp add: db_ok_def keys_ok_def)
  with run d obtain summary where "w' = w" and "s = Some summary"
    and "project_order_summary \<lparr>oseed_order_id = or_id row, oseed_customer_id = or_customer_id row,
      oseed_total = or_total row\<rparr> (customer_events d u) now = Inr summary"
    by (auto simp: load_linked_order_summary_def find_order_by_id_def bindM_eq_Inr liftM_def)
  with project_linked_order [OF db row(1,3)] row show "w' = w" and "order_room d u ord s" by auto
qed

definition context_ok :: "db \<Rightarrow> pystr \<Rightarrow> case_row \<Rightarrow> rule_context \<Rightarrow> bool" where
  "context_ok d case_id row ctx \<longleftrightarrow> row \<in> set (db_cases d) \<and> ca_id row = case_id \<and>
     cs_case_id (rc_case ctx) = case_id \<and>
     rc_refund_approval_threshold ctx = REFUND_APPROVAL_THRESHOLD \<and>
     (case cs_linked_order_id (rc_case ctx) of
        None \<Rightarrow> rc_linked_order ctx = None
      | Some ord \<Rightarrow> order_room d (ca_customer_id row) ord (rc_linked_order ctx))"

lemma load_rule_context_run:
  assumes db: "db_ok (w_db w)" and run: "load_rule_context_for_case case_id w = (Inr (row, ctx), w')"
  shows "w' = w" and "context_ok (w_db w) case_id row ctx"
proof -
  let ?d = "w_db w"
  have load: "load_customer_events u w = (Inr (customer_events ?d u), w)" for u
    using db by (intro load_customer_events_run) (simp add: db_ok_def)
  obtain now where now: "clock_now w = (Inr now, w)" by (simp add: clock_now_def)
  obtain customer summary linked w1 where row: "find (\<lambda>r. ca_id r = case_id) (db_cases ?d) = Some row"
    and summary: "project_case_summary case_id (ca_customer_id row) (customer_events ?d (ca_customer_id row)) now = Inr summary"
    and linked: "load_linked_order_summary (cs_linked_order_id summary)
      (customer_events ?d (ca_customer_id row)) now w = (Inr linked, w1)"
    and ctx: "rc_case ctx = summary" "rc_linked_order ctx = linked"
      "rc_refund_approval_threshold ctx = REFUND_APPROVAL_THRESHOLD" and w': "w' = w1"
    using run unfolding load_rule_context_for_case_def find_case_by_id_def find_customer_by_id_def
      list_orders_for_customer_def
    by (auto simp: bindM_eq_Inr load now liftM_def split: option.splits)
  have case_row: "row \<in> set (db_cases ?d)" "ca_id row = case_id" using find_Some_mem [OF row] by auto
  have case_id: "cs_case_id summary = case_id" by (rule project_case_summary_agrees [OF summary])
  have "w1 = w \<and> (case cs_linked_order_id summary of None \<Rightarrow> linked = None
      | Some ord \<Rightarrow> order_room ?d (ca_customer_id row) ord linked)"
  proof (cases "cs_linked_order_id summary")
    case None
    with linked show ?thesis by (simp add: load_linked_order_summary_def)
  next
    case (Some ord)
    obtain e where "e \<in> set (customer_events ?d (ca_customer_id row))" "ev_customer_id e = ca_customer_id row"
      "ev_order_id e = Some ord"
      by (rule project_case_summary_linked [OF summary Some])
    then have "order_of_customer ?d ord (ca_customer_id row)"
      using db by (auto simp: customer_events_def db_ok_def references_ok_def event_ok_def)
    with linked_order_run [OF db refl] linked Some show ?thesis by auto
  qed
  with case_row case_id ctx w' show "w' = w" and "context_ok ?d case_id row ctx"
    by (auto simp: context_ok_def)
qed

text \<open>What an allowed or an approvable proposal guarantees about the order.\<close>

definition refund_room :: "db \<Rightarrow> pystr \<Rightarrow> pystr \<Rightarrow> decimal \<Rightarrow> bool" where
  "refund_room d u ord a \<longleftrightarrow> sound_amount a \<and> amount_cents a < 10 ^ 12 \<and>
     (\<exists>row\<in>set (db_orders d). or_id row = ord \<and> or_customer_id row = u \<and>
        \<not> open_refund_in_history (order_events d ord) \<and>
        amount_cents a + sum_list (map executed_cents (order_events d ord)) \<le> dec_cents (or_total row))"

lemma admissible_room:
  assumes "order_room d u ord (Some s)" and "\<And>T R. order_account s T R \<Longrightarrow> refund_admissible ctx s T R a"
  shows "refund_room d u ord a"
proof -
  obtain row where row: "row \<in> set (db_orders d)" "or_id row = ord" "or_customer_id row = u"
    and account: "order_account s (dec_cents (or_total row)) (sum_list (map executed_cents (order_events d ord)))"
    and flag: "os_has_open_refund s = open_refund_in_history (order_events d ord)"
    using assms(1) by (auto simp: order_room_def)
  from assms(2) [OF account] account flag
  have "sound_amount a" and "\<not> open_refund_in_history (order_events d ord)"
    and "amount_cents a + sum_list (map executed_cents (order_events d ord)) \<le> dec_cents (or_total row)"
    and "amount_cents a < 10 ^ 12"
    by (auto simp: refund_admissible_def order_account_def)
  with row show ?thesis by (auto simp: refund_room_def)
qed

lemma authorised_room:
  assumes "context_ok d case_id row ctx" and "cs_linked_order_id (rc_case ctx) = Some ord"
    and "evaluate ctx (ProposeRefund a) = Inr Allow \<or>
      (\<exists>r w. evaluate ctx (ProposeRefund a) = Inr (Blocked (RequireApproval r w)))"
  shows "refund_room d (ca_customer_id row) ord a"
proof -
  obtain s where s: "rc_linked_order ctx = Some s" "order_room d (ca_customer_id row) ord (Some s)"
    using assms(1,2) by (auto simp: context_ok_def order_room_def)
  have "rc_refund_approval_threshold ctx = cents 50000"
    using assms(1) threshold_cents by (simp add: context_ok_def)
  with refund_decision [OF s(1)] assms(3) have "refund_admissible ctx s T R a" if "order_account s T R" for T R
    using that by blast
  with s(2) show ?thesis by (rule admissible_room)
qed

lemma quantize_sound:
  assumes "sound_amount a" and "amount_cents a < 10 ^ 12"
  shows "quantize_refund_amount a = Inr (cents (amount_cents a))"
proof -
  obtain c e where a: "a = Dec False c e" "e \<ge> -2" using assms(1) by (rule sound_amountE)
  have "(10::nat) ^ 12 \<le> 10 ^ dec_prec" by (simp add: dec_prec_def)
  moreover have "c * 10 ^ nat (e + 2) < 10 ^ 12" using assms(2) unfolding a(1) amount_cents.simps .
  ultimately have "c * 10 ^ nat (e + 2) < 10 ^ dec_prec" by linarith
  then have "dec_quantize_cents (Dec False c e) = Inr (Dec False (c * 10 ^ nat (e + 2)) (-2))"
    by (rule dec_quantize_cents_exact [OF a(2)])
  then show ?thesis
    unfolding quantize_refund_amount_def a(1) amount_cents.simps cents_def .
qed

section \<open>Transitions inside a program\<close>

lemma safe_transition_approve:
  "safe (transition_refund_status rid RS_PENDING_APPROVAL RS_APPROVED b clr)"
proof (rule safe_quiet)
  show "preserves (unmoved c k) (transition_refund_status rid RS_PENDING_APPROVAL RS_APPROVED b clr)" for c k
    by (rule quiet_transition)
  fix w moved w'
  assume good: "world_good w"
    and run: "transition_refund_status rid RS_PENDING_APPROVAL RS_APPROVED b clr w = (Inr moved, w')"
  from transition_run [OF run world_goodD(2) [OF good]] show "good (w_payment_calls w) (w_db w')"
  proof (elim disjE conjE exE)
    fix r
    assume match: "transition_matches rid RS_PENDING_APPROVAL b r"
      and rep: "row_replaced (w_db w) r (set_refund_status RS_APPROVED clr r) (w_db w')"
    show ?thesis
      by (rule approve_good [OF _ rep])
        (use good match in \<open>simp_all add: world_good_def transition_matches_def\<close>)
  qed (use good in \<open>simp add: world_good_def\<close>)
qed

text \<open>A transition out of a live status, followed by the event that closes the refund.\<close>

lemma close_run:
  assumes good: "world_good w"
    and move: "transition_refund_status rid from_status to_status b clr w = (Inr True, w1)"
    and event: "append_canonical_event (EvMember et) u cs (Some ord) act ch (model_dump p) w1 = (Inr e, w')"
    and model: "payload_class p = payload_model_for_event_type et"
    and edge: "(from_status, to_status, et) \<in> {(RS_PENDING_APPROVAL, RS_EXPIRED, ET_REFUND_EXPIRED),
      (RS_PENDING_APPROVAL, RS_REJECTED, ET_REFUND_REJECTED), (RS_APPROVED, RS_EXECUTED, ET_REFUND_EXECUTED)}"
    and order: "\<And>r. r \<in> set (db_refunds (w_db w)) \<Longrightarrow> transition_matches rid from_status b r \<Longrightarrow> rf_order_id r = ord"
    and amount: "\<And>r x amt ref. r \<in> set (db_refunds (w_db w)) \<Longrightarrow> transition_matches rid from_status b r \<Longrightarrow>
      p = RefundExecutedPayload x amt ref \<Longrightarrow> amt = rf_amount r"
  shows "good (w_payment_calls w) (w_db w')"
    and "map refund_intent (db_refunds (w_db w')) = map refund_intent (db_refunds (w_db w))"
proof -
  from transition_run [OF move world_goodD(2) [OF good]]
  obtain r where match: "transition_matches rid from_status b r" and w1: "w1 = w\<lparr>w_db := w_db w1\<rparr>"
    and rep: "row_replaced (w_db w) r (set_refund_status to_status clr r) (w_db w1)" by auto
  note frame = row_replaced_frame [OF rep]
  have row: "r \<in> set (db_refunds (w_db w))" using frame by simp
  have ok: "refund_ok (w_db w) r"
    using good row by (auto simp: world_good_def good_def db_ok_def references_ok_def)
  have seqs: "distinct (map fst (db_event_sequences (w_db w1)))"
    using world_goodD(1) [OF good] frame by simp
  have money: "is_money amt" if "p = RefundExecutedPayload x amt ref" for x amt ref
    using amount [OF row match that] ok by (simp add: refund_ok_def)
  note appended = append_run [OF event model money seqs]
  have executed: "executed_cents e = (if to_status = RS_EXECUTED then dec_cents (rf_amount r) else 0)"
  proof (cases "et = ET_REFUND_EXECUTED")
    case True
    then have "payload_class p = M_RefundExecuted" using model by simp
    then obtain x amt ref where p: "p = RefundExecutedPayload x amt ref" by (cases p) auto
    with amount [OF row match p] appended True edge money_total [OF money [OF p]] show ?thesis
      by (auto simp: executed_cents_def dec_cents_def split: decimal.splits)
  next
    case False
    with appended edge show ?thesis by (auto simp: executed_cents_def)
  qed
  show "map refund_intent (db_refunds (w_db w')) = map refund_intent (db_refunds (w_db w))"
    using frame(7) event_appendedD(5) [OF appended(1)] by simp
  show "good (w_payment_calls w) (w_db w')"
  proof (rule close_good [OF _ rep appended(1)])
    show "good (w_payment_calls w) (w_db w)" using good by (simp add: world_good_def)
    show "ev_order_id e = Some (rf_order_id r)" using appended(6) order [OF row match] by simp
    show "executed_cents e = (if rf_status (set_refund_status to_status clr r) = RS_EXECUTED
        then dec_cents (rf_amount r) else 0)" using executed by simp
  qed (use edge match appended(3) in \<open>auto simp: transition_matches_def moves_open_flag_def\<close>)
qed

section \<open>Expiry\<close>

lemma refund_row_unique:
  assumes "world_good w" and "r \<in> set (db_refunds (w_db w))" and "r' \<in> set (db_refunds (w_db w))"
    and "rf_id r = rf_id r'"
  shows "r = r'"
  using world_goodD(2) [OF assms(1)] assms(2-4) by (rule distinct_map_eq)

definition rows_known :: "refund_row list \<Rightarrow> world \<Rightarrow> bool" where
  "rows_known due w \<longleftrightarrow> world_good w \<and>
     (\<forall>r\<in>set due. refund_intent r \<in> set (map refund_intent (db_refunds (w_db w))))"

lemma quiet_expire_one [quiet_rules]: "preserves (unmoved c k) (expire_one_refund u acc r)"
  unfolding expire_one_refund_def by (intro preserves_rules quiet_rules)

lemma expire_one_run:
  assumes known: "rows_known due w" and r: "r \<in> set due"
    and run: "expire_one_refund u acc r w = (Inr x, w')"
  shows "rows_known due w'"
proof -
  have good: "world_good w" using known by (simp add: rows_known_def)
  obtain moved w1 where move: "transition_refund_status (rf_id r) RS_PENDING_APPROVAL RS_EXPIRED None True w = (Inr moved, w1)"
    and rest: "(if \<not> moved then returnM acc
       else bindM (append_event ET_REFUND_EXPIRED u (Some (rf_case_id r)) (Some (rf_order_id r))
              Actor_SYSTEM Channel_INTERNAL (RefundExpiredPayload (rf_id r))) (\<lambda>_.
            returnM (if rf_case_id r \<in> set acc then acc else acc @ [rf_case_id r]))) w1 = (Inr x, w')"
    using run unfolding expire_one_refund_def bindM_eq_Inr by blast
  have same: "w_committed w' = w_committed w \<and> w_payment_calls w' = w_payment_calls w"
    using preservesD [OF quiet_expire_one _ run, of "w_committed w" "w_payment_calls w"] by simp
  show ?thesis
  proof (cases moved)
    case False
    with transition_run [OF move world_goodD(2) [OF good]] rest known show ?thesis by simp
  next
    case True
    with rest obtain e where event: "append_canonical_event (EvMember ET_REFUND_EXPIRED) u (Some (rf_case_id r))
        (Some (rf_order_id r)) Actor_SYSTEM Channel_INTERNAL (model_dump (RefundExpiredPayload (rf_id r))) w1 = (Inr e, w')"
      by (auto simp: bindM_eq_Inr simp del: model_dump.simps)
    have order: "rf_order_id r' = rf_order_id r"
      if r': "r' \<in> set (db_refunds (w_db w))" "transition_matches (rf_id r) RS_PENDING_APPROVAL None r'" for r'
    proof -
      obtain r1 where r1: "r1 \<in> set (db_refunds (w_db w))" "refund_intent r1 = refund_intent r"
        using known r by (auto simp: rows_known_def)
      then have "r1 = r'"
        using r' by (intro refund_row_unique [OF good]) (auto simp: transition_matches_def refund_intent_def)
      with r1 show ?thesis by (simp add: refund_intent_def)
    qed
    have moved: "transition_refund_status (rf_id r) RS_PENDING_APPROVAL RS_EXPIRED None True w = (Inr True, w1)"
      using move True by simp
    have "good (w_payment_calls w) (w_db w')"
      and "map refund_intent (db_refunds (w_db w')) = map refund_intent (db_refunds (w_db w))"
      by (rule close_run [OF good moved event]; simp add: order)+
    with known good same show ?thesis by (simp add: rows_known_def world_good_def)
  qed
qed

lemma hoare_expire_one:
  assumes "r \<in> set due"
  shows "hoare (rows_known due) (expire_one_refund u acc r) (\<lambda>_. rows_known due) committed_good"
proof (rule hoareI)
  show "rows_known due w'" if "rows_known due w" "expire_one_refund u acc r w = (Inr x, w')" for w x w'
    using expire_one_run [OF that(1) assms that(2)] .
  show "committed_good w'" if "rows_known due w" "expire_one_refund u acc r w = (Inl e, w')" for w e w'
    using preservesD [OF quiet_expire_one _ that(2), of "w_committed w" "w_payment_calls w"] that(1)
    by (simp add: rows_known_def world_good_def committed_good_def)
qed

lemma safe_expire_due_refunds [safe_rules]: "safe (expire_due_refunds_for_customer u)"
proof -
  have due: "hoare world_good (due_refund_rows u now) (\<lambda>due. rows_known due) committed_good" for now
    by (auto simp: hoare_def due_refund_rows_def rows_known_def)
  have loop: "hoare (rows_known due) (foldM (expire_one_refund u) [] due) (\<lambda>_. world_good) committed_good" for due
    by (rule hoare_weaken [OF hoare_foldM [OF hoare_expire_one]]) (auto simp: rows_known_def)
  show ?thesis
    unfolding expire_due_refunds_for_customer_def
    by (intro hoare_bindM [OF safe_lookups(11)] hoare_bindM [OF safe_basic(1)] hoare_bindM [OF due]
        hoare_bindM [OF loop] safe_rules)
qed

section \<open>Operations that move no money\<close>

lemma safe_append_action_denied [safe_rules]: "safe (append_action_denied u cs a deny)"
  unfolding append_action_denied_def by (intro safe_rules safe_append; simp)

lemma safe_escalate_case [safe_rules]: "safe (escalate_case cs origin reason auth fe)"
  unfolding escalate_case_def append_escalated_and_case_closed_def
  by (intro safe_rules safe_append; simp)

lemma safe_load_linked_order [safe_rules]: "safe (load_linked_order_summary linked evs now)"
  unfolding load_linked_order_summary_def by (intro safe_rules)

lemma safe_load_rule_context [safe_rules]: "safe (load_rule_context_for_case cs)"
  unfolding load_rule_context_for_case_def by (intro safe_rules)

lemma safe_find_open_cases [safe_rules]: "safe (find_open_case_ids_for_customer u now)"
  unfolding find_open_case_ids_for_customer_def by (intro safe_rules)

lemma safe_effects [safe_rules]:
  "safe (allow_get_orders auth u cs p)" "safe (allow_link_order auth u cs p ord)"
  "safe (allow_send_reply auth row cs p subject body)"
  "safe (allow_request_verification auth row cs p now)" "safe (allow_finish auth u cs p summary)"
  unfolding allow_get_orders_def allow_link_order_def allow_send_reply_def
    allow_request_verification_def allow_finish_def require_case_customer_def
  by (intro safe_rules safe_append; simp)+

lemma safe_dispatch_allow [safe_rules]: "safe (dispatch_allow_verdict auth row cs p ctx)"
  unfolding dispatch_allow_verdict_def
  by (cases "snd p") (simp_all only: action.case, (rule safe_rules)+)

lemma safe_dispatch_require_approval [safe_rules]: "safe (dispatch_require_approval_verdict a)"
  unfolding dispatch_require_approval_verdict_def
  by (cases a) (simp_all only: action.case, (rule safe_rules)+)

lemma safe_finalize [safe_rules]: "safe (finalize_propose_refund_verdict cs v)"
proof -
  have "safe (thenM (escalate_case cs EO_POLICY None None (Some (rule, reason))) (returnM v))" for rule reason
    by (intro safe_rules)
  then show ?thesis
    unfolding finalize_propose_refund_verdict_def
    by (auto split: verdict.splits blocking.splits intro: safe_returnM)
qed

lemma safe_find_verification [safe_rules]: "safe (find_verification_request_by_token t)"
  unfolding find_verification_request_by_token_def
  by (intro safe_rules; simp split: payload.splits; intro allI conjI impI safe_rules)

lemma safe_confirm_verification [safe_rules]: "safe (confirm_verification t)"
  unfolding confirm_verification_def by (intro safe_rules safe_append; simp)

section \<open>Payment\<close>

text \<open>A refund that may be paid: an approved row of that amount, and no payment under its key.\<close>

definition payable :: "pystr \<Rightarrow> decimal \<Rightarrow> world \<Rightarrow> bool" where
  "payable rid amt w \<longleftrightarrow> world_good w \<and> is_money amt \<and>
     rid \<notin> pc_idempotency_key ` set (w_payment_calls w) \<and>
     (\<exists>r\<in>set (db_refunds (w_db w)). rf_id r = rid \<and> rf_amount r = amt \<and> rf_status r = RS_APPROVED)"

lemma dec_eq_money: "is_money a \<Longrightarrow> is_money b \<Longrightarrow> dec_eq a b \<Longrightarrow> a = b"
  by (elim is_moneyE) simp

lemma hoare_transition_payable:
  "hoare (\<lambda>w. world_good w \<and> is_money amt)
     (transition_refund_status rid RS_PENDING_APPROVAL RS_APPROVED
        (Some \<lparr>ib_order_id = ord, ib_case_id = cs, ib_amount = amt\<rparr>) True)
     (\<lambda>moved w. world_good w \<and> (moved \<longrightarrow> payable rid amt w)) committed_good"
  (is "hoare ?P ?m ?Q committed_good")
proof (rule hoareI)
  fix w moved w'
  assume P: "?P w" and run: "?m w = (Inr moved, w')"
  then have good: "world_good w" and money: "is_money amt" by simp_all
  have good': "world_good w'" by (rule hoareD(1) [OF safe_transition_approve good run])
  have "payable rid amt w'" if yes: moved
  proof -
    obtain r where match: "transition_matches rid RS_PENDING_APPROVAL
        (Some \<lparr>ib_order_id = ord, ib_case_id = cs, ib_amount = amt\<rparr>) r"
      and rep: "row_replaced (w_db w) r (set_refund_status RS_APPROVED True r) (w_db w')"
      and w': "w' = w\<lparr>w_db := w_db w'\<rparr>"
      using transition_run [OF run world_goodD(2) [OF good]] yes by auto
    have row: "r \<in> set (db_refunds (w_db w))" using row_replaced_frame [OF rep] by simp
    have "is_money (rf_amount r)"
      using good row by (auto simp: world_good_def good_def db_ok_def references_ok_def refund_ok_def)
    then have amount: "rf_amount r = amt"
      using match money by (intro dec_eq_money) (auto simp: transition_matches_def)
    have "rid \<notin> pc_idempotency_key ` set (w_payment_calls w)"
    proof
      assume "rid \<in> pc_idempotency_key ` set (w_payment_calls w)"
      then obtain r2 where r2: "r2 \<in> set (db_refunds (w_db w))" "rf_id r2 = rid"
          "rf_status r2 \<in> {RS_APPROVED, RS_EXECUTED}"
        using good by (auto simp: world_good_def good_def payments_ok_def)
      then have "r2 = r" using row match
        by (intro refund_row_unique [OF good]) (auto simp: transition_matches_def)
      with r2 match show False by (auto simp: transition_matches_def)
    qed
    moreover have "w_payment_calls w' = w_payment_calls w" by (subst w') simp
    moreover have "set_refund_status RS_APPROVED True r \<in> set (db_refunds (w_db w'))"
      using rep by (auto simp: row_replaced_def)
    ultimately show ?thesis
      unfolding payable_def using good' money match amount
      by (auto simp: transition_matches_def intro!: bexI [of _ "set_refund_status RS_APPROVED True r"])
  qed
  with good' show "?Q moved w'" by simp
next
  fix w e w'
  assume "?P w" and "?m w = (Inl e, w')"
  then show "committed_good w'" using hoareD(2) [OF safe_transition_approve] by blast
qed

lemma hoare_append_payable:
  assumes "payload_class p = payload_model_for_event_type et"
    and "et \<notin> {ET_REFUND_PROPOSED, ET_REFUND_EXECUTED, ET_REFUND_REJECTED, ET_REFUND_EXPIRED}"
  shows "hoare (payable rid amt) (append_canonical_event (EvMember et) u cs ord a ch (model_dump p))
    (\<lambda>_. payable rid amt) committed_good"
  (is "hoare _ ?m _ _")
proof (rule hoareI)
  fix w e w'
  assume pay: "payable rid amt w" and run: "?m w = (Inr e, w')"
  then have good: "world_good w" by (simp add: payable_def)
  have "world_good w'" by (rule hoareD(1) [OF safe_append [OF assms] good run])
  moreover have "w_payment_calls w' = w_payment_calls w"
    using preservesD [OF quiet_append _ run, of "w_committed w" "w_payment_calls w"] by simp
  moreover have "p \<noteq> RefundExecutedPayload r amt ref" for r amt ref
    using assms payload_model_for_event_type_inject [of et ET_REFUND_EXECUTED] by auto
  then have "db_refunds (w_db w') = db_refunds (w_db w)"
    using event_appendedD(5) [OF append_run(1) [OF run assms(1) _ world_goodD(1) [OF good]]] by blast
  ultimately show "payable rid amt w'" using pay by (simp add: payable_def)
next
  fix w e w'
  assume "payable rid amt w" and "?m w = (Inl e, w')"
  then show "committed_good w'"
    using hoareD(2) [OF safe_append [OF assms]] unfolding payable_def by blast
qed

definition payable_committed :: "pystr \<Rightarrow> decimal \<Rightarrow> world \<Rightarrow> bool" where
  "payable_committed rid amt w \<longleftrightarrow> payable rid amt w \<and> w_committed w = w_db w"

lemma hoare_commit: "hoare (payable rid amt) commit_session (\<lambda>_. payable_committed rid amt) committed_good"
  by (simp add: hoare_def commit_session_def payable_committed_def payable_def world_good_def)

lemma safe_commit [safe_rules]: "safe commit_session"
  by (simp add: hoare_def commit_session_def world_good_def)

lemma payments_ok_snoc:
  assumes "payments_ok calls d" and "rid \<notin> pc_idempotency_key ` set calls"
    and "\<exists>r\<in>set (db_refunds d). rf_id r = rid \<and> rf_amount r = amt \<and> rf_status r = RS_APPROVED"
  shows "payments_ok (calls @ [\<lparr>pc_idempotency_key = rid, pc_amount = amt\<rparr>]) d"
  using assms by (auto simp: payments_ok_def)

lemma hoare_payment_refund:
  "hoare (payable_committed rid amt) (payment_refund rid amt) (\<lambda>_. world_good) committed_good"
proof -
  have "world_good (w\<lparr>w_payment_calls := w_payment_calls w @ [\<lparr>pc_idempotency_key = rid, pc_amount = amt\<rparr>]\<rparr>)"
    if "payable_committed rid amt w" for w
    using that payments_ok_snoc [of "w_payment_calls w" "w_db w" rid amt]
    by (auto simp: payable_committed_def payable_def world_good_def good_def)
  then have call: "hoare (payable_committed rid amt) (modifyM (\<lambda>w. w\<lparr>w_payment_calls := w_payment_calls w @
      [\<lparr>pc_idempotency_key = rid, pc_amount = amt\<rparr>]\<rparr>)) (\<lambda>_. world_good) committed_good"
    by (simp add: hoare_def)
  show ?thesis
    unfolding payment_refund_def by (intro hoare_thenM [OF call] safe_rules; simp)
qed

lemma hoare_session_begin:
  assumes "safe m"
  shows "hoare committed_good (session_begin m) (\<lambda>_. world_good) world_good"
proof (rule hoareI)
  fix w x w'
  assume "committed_good w" and "session_begin m w = (Inr x, w')"
  then obtain w1 where "world_good (w\<lparr>w_db := w_committed w\<rparr>)"
    and "m (w\<lparr>w_db := w_committed w\<rparr>) = (Inr x, w1)" and "w' = w1\<lparr>w_committed := w_db w1\<rparr>"
    by (auto simp: session_begin_def world_good_def committed_good_def split: prod.splits sum.splits)
  with hoareD(1) [OF assms, of "w\<lparr>w_db := w_committed w\<rparr>" x w1] show "world_good w'"
    by (simp add: world_good_def)
next
  fix w e w'
  assume "committed_good w" and "session_begin m w = (Inl e, w')"
  then obtain w1 where "world_good (w\<lparr>w_db := w_committed w\<rparr>)"
    and "m (w\<lparr>w_db := w_committed w\<rparr>) = (Inl e, w1)" and "w' = w1\<lparr>w_db := w_committed w1\<rparr>"
    by (auto simp: session_begin_def world_good_def committed_good_def split: prod.splits sum.splits)
  with hoareD(2) [OF assms, of "w\<lparr>w_db := w_committed w\<rparr>" e w1] show "world_good w'"
    by (simp add: world_good_def committed_good_def)
qed

end
