(* ===== verification/Settlement.thy ===== *)
theory Settlement
  imports Safety
begin

text \<open>
  The operations that move money keep the invariant: recording an execution, paying after the
  intent is committed, proposing a refund (decided by policy or left to an operator), approving
  and rejecting it.
\<close>

section \<open>Recording an execution\<close>

lemma quiet_record_executed [quiet_rules]:
  "preserves (unmoved c k) (record_refund_executed_after_payment u cs ord rid amt pref lock)"
  unfolding record_refund_executed_after_payment_def append_refund_executed_def
  by (intro preserves_rules quiet_rules)

lemma matched_amount:
  assumes "world_good w" and "r \<in> set (db_refunds (w_db w))" and "is_money amt"
    and "transition_matches rid s (Some \<lparr>ib_order_id = ord, ib_case_id = cs, ib_amount = amt\<rparr>) r"
  shows "rf_amount r = amt"
proof -
  have "is_money (rf_amount r)"
    using assms(1,2) by (auto simp: world_good_def good_def db_ok_def references_ok_def refund_ok_def)
  with assms(3,4) show ?thesis by (intro dec_eq_money) (auto simp: transition_matches_def)
qed

lemma safe_record_executed:
  assumes money: "is_money amt"
  shows "safe (record_refund_executed_after_payment u cs ord rid amt pref False)"
proof (rule safe_quiet)
  show "preserves (unmoved c k) (record_refund_executed_after_payment u cs ord rid amt pref False)" for c k
    by (rule quiet_record_executed)
  fix w e w'
  assume good: "world_good w"
    and run: "record_refund_executed_after_payment u cs ord rid amt pref False w = (Inr e, w')"
  let ?b = "Some \<lparr>ib_order_id = ord, ib_case_id = cs, ib_amount = amt\<rparr>"
  obtain w1 where move: "transition_refund_status rid RS_APPROVED RS_EXECUTED ?b True w = (Inr True, w1)"
    and event: "append_canonical_event (EvMember ET_REFUND_EXECUTED) u (Some cs) (Some ord) Actor_SYSTEM
      Channel_INTERNAL (model_dump (RefundExecutedPayload rid amt pref)) w1 = (Inr e, w')"
    using run
    by (auto simp: record_refund_executed_after_payment_def append_refund_executed_def bindM_eq_Inr
        thenM_eq_Inr find_refund_by_id_def simp del: model_dump.simps split: if_splits)
  show "good (w_payment_calls w) (w_db w')"
    by (rule close_run(1) [OF good move event])
      (use matched_amount [OF good _ money] in \<open>auto simp: transition_matches_def\<close>)
qed

section \<open>Paying a committed intent\<close>

lemma hoare_execute_payment:
  "hoare (payable_committed rid amt) (execute_payment_after_committed_intent u cs ord rid amt)
     (\<lambda>_. world_good) committed_good"
proof (cases "is_money amt")
  case True
  have safe: "safe (bindM (lock_customer_for_update u) (\<lambda>_.
      record_refund_executed_after_payment u cs ord rid amt pref False))" for pref
    by (intro safe_rules safe_record_executed True)
  have "hoare world_good (session_begin (bindM (lock_customer_for_update u) (\<lambda>_.
      record_refund_executed_after_payment u cs ord rid amt pref False))) (\<lambda>_. world_good) committed_good" for pref
    by (rule hoare_weaken [OF hoare_session_begin [OF safe]]) (simp_all add: world_good_committed)
  then show ?thesis
    unfolding execute_payment_after_committed_intent_def
    by (intro hoare_bindM [OF hoare_payment_refund])
next
  case False
  then show ?thesis by (simp add: hoare_def payable_committed_def payable_def)
qed

text \<open>An approval that has been made is committed, then paid and recorded.\<close>

lemma hoare_commit_and_pay:
  "hoare (payable rid amt) (thenM commit_refund_intent_before_payment
     (thenM (execute_payment_after_committed_intent u cs ord rid amt) (returnM x)))
     (\<lambda>_. world_good) committed_good"
  unfolding commit_refund_intent_before_payment_def
  by (intro hoare_thenM [OF hoare_commit] hoare_thenM [OF hoare_execute_payment] hoare_returnM)

section \<open>Persisting a proposal\<close>

definition roomy :: "pystr \<Rightarrow> pystr \<Rightarrow> decimal \<Rightarrow> world \<Rightarrow> bool" where
  "roomy u ord a w \<longleftrightarrow> world_good w \<and> refund_room (w_db w) u ord a"

definition inserted :: "refund_row \<Rightarrow> world \<Rightarrow> bool" where
  "inserted r w \<longleftrightarrow> (\<exists>d. good (w_payment_calls w) d \<and> good (w_payment_calls w) (w_committed w) \<and>
     w_db w = d\<lparr>db_refunds := db_refunds d @ [r]\<rparr> \<and> rf_id r \<notin> rf_id ` set (db_refunds d) \<and>
     refund_ok d r \<and> rf_status r = RS_PENDING_APPROVAL \<and>
     (\<forall>x\<in>set (db_orders d). or_id x = rf_order_id r \<longrightarrow>
        \<not> open_refund_in_history (order_events d (or_id x)) \<and>
        dec_cents (rf_amount r) + sum_list (map executed_cents (order_events d (or_id x)))
          \<le> dec_cents (or_total x)))"

lemma roomy_committed: "roomy u ord a w \<Longrightarrow> committed_good w"
  by (simp add: roomy_def world_good_committed)

lemma hoare_quantize:
  "hoare (roomy u ord a) (liftM (quantize_refund_amount a))
     (\<lambda>amount w. roomy u ord a w \<and> amount = cents (amount_cents a) \<and> amount_cents a < 10 ^ 12) committed_good"
  using quantize_sound
  by (intro hoare_liftM) (auto simp: roomy_def refund_room_def world_good_committed)

lemma order_room_unique:
  assumes "db_ok d" and "refund_room d u ord a" and "x \<in> set (db_orders d)" and "or_id x = ord"
  shows "\<not> open_refund_in_history (order_events d ord) \<and>
    amount_cents a + sum_list (map executed_cents (order_events d ord)) \<le> dec_cents (or_total x)"
proof -
  obtain row where row: "row \<in> set (db_orders d)" "or_id row = ord"
    "\<not> open_refund_in_history (order_events d ord)"
    "amount_cents a + sum_list (map executed_cents (order_events d ord)) \<le> dec_cents (or_total row)"
    using assms(2) by (auto simp: refund_room_def)
  have "x = row"
    using assms(1,3,4) row distinct_map_eq [of or_id "db_orders d" x row]
    by (auto simp: db_ok_def keys_ok_def)
  with row show ?thesis by simp
qed

lemma hoare_insert_refund:
  assumes "rf_customer_id r = u" and "rf_order_id r = ord" and "rf_status r = RS_PENDING_APPROVAL"
    and "rf_amount r = cents (amount_cents a)" and "amount_cents a < 10 ^ 12"
  shows "hoare (roomy u ord a) (insert_refund r) (\<lambda>_. inserted r) committed_good"
proof (rule hoareI)
  fix w x w'
  assume room: "roomy u ord a w" and run: "insert_refund r w = (Inr x, w')"
  note ins = insert_refund_run [OF run]
  have good: "good (w_payment_calls w) (w_db w)" "good (w_payment_calls w) (w_committed w)"
    using room by (simp_all add: roomy_def world_good_def)
  have "is_money (rf_amount r)" using assms(4,5) by (auto simp: is_money_def cents_def)
  then have "refund_ok (w_db w) r" using ins assms by (simp add: refund_ok_def)
  moreover have "dec_cents (rf_amount r) = amount_cents a" using assms(4) by (simp add: dec_cents_def cents_def)
  moreover have "db_ok (w_db w)" "refund_room (w_db w) u ord a"
    using room good by (simp_all add: roomy_def good_def)
  ultimately show "inserted r w'"
    unfolding inserted_def using ins good assms order_room_unique [of "w_db w" u ord a]
    by (intro exI [of _ "w_db w"]) auto
next
  fix w e w'
  assume room: "roomy u ord a w" and run: "insert_refund r w = (Inl e, w')"
  have "w_committed w' = w_committed w \<and> w_payment_calls w' = w_payment_calls w"
    using preservesD [OF quiet_inserts(3) _ run, of "w_committed w" "w_payment_calls w"] by simp
  with room show "committed_good w'" by (simp add: roomy_def world_good_def committed_good_def)
qed

lemma hoare_append_proposed:
  assumes "rf_id r = rid" and "rf_customer_id r = u" and "rf_case_id r = cs" and "rf_order_id r = ord"
    and "rf_amount r = amt"
  shows "hoare (inserted r) (append_refund_proposed u cs ord rid amt)
    (\<lambda>_ w. world_good w \<and> is_money amt) committed_good"
  unfolding append_refund_proposed_def
proof (rule hoareI)
  fix w e w'
  assume ins: "inserted r w" and run: "append_event ET_REFUND_PROPOSED u (Some cs) (Some ord) Actor_AGENT
    Channel_INTERNAL (RefundProposedPayload rid amt) w = (Inr e, w')"
  have same: "w_committed w' = w_committed w \<and> w_payment_calls w' = w_payment_calls w"
    using preservesD [OF quiet_append _ run, of "w_committed w" "w_payment_calls w"] by simp
  obtain d where d: "good (w_payment_calls w) d" "w_db w = d\<lparr>db_refunds := db_refunds d @ [r]\<rparr>"
    "rf_id r \<notin> rf_id ` set (db_refunds d)" "refund_ok d r" "rf_status r = RS_PENDING_APPROVAL"
    and com: "good (w_payment_calls w) (w_committed w)"
    and room: "\<And>x. x \<in> set (db_orders d) \<Longrightarrow> or_id x = rf_order_id r \<Longrightarrow>
      \<not> open_refund_in_history (order_events d (or_id x)) \<and>
      dec_cents (rf_amount r) + sum_list (map executed_cents (order_events d (or_id x))) \<le> dec_cents (or_total x)"
    using ins by (auto simp: inserted_def)
  have "distinct (map fst (db_event_sequences (w_db w)))"
    using d(1,2) by (simp add: good_def db_ok_def keys_ok_def)
  note app = append_run [OF run _ _ this, simplified]
  have "proposal_intent e = refund_intent r"
    using app assms by (simp add: proposal_intent_def refund_intent_def)
  then have "good (w_payment_calls w) (w_db w')"
    using propose_good [OF d(1,2) app(1) d(5,3,4) _ _ _ room] app assms by simp
  with same com d(4) assms show "world_good w' \<and> is_money amt" by (simp add: world_good_def refund_ok_def)
next
  fix w e w'
  assume ins: "inserted r w" and run: "append_event ET_REFUND_PROPOSED u (Some cs) (Some ord) Actor_AGENT
    Channel_INTERNAL (RefundProposedPayload rid amt) w = (Inl e, w')"
  have "w_committed w' = w_committed w \<and> w_payment_calls w' = w_payment_calls w"
    using preservesD [OF quiet_append _ run, of "w_committed w" "w_payment_calls w"] by simp
  with ins show "committed_good w'" by (auto simp: inserted_def committed_good_def)
qed


text \<open>What a persisted proposal leaves behind: if it was approved at once, it may be paid.\<close>

definition settled :: "verdict \<times> bool \<times> pystr \<times> decimal \<times> pystr \<Rightarrow> world \<Rightarrow> bool" where
  "settled x w \<longleftrightarrow> (case x of (v, auto_approved, rid, amt, ord) \<Rightarrow>
     world_good w \<and> (auto_approved \<longrightarrow> payable rid amt w))"

lemma settledI:
  "payable rid amt w \<Longrightarrow> settled (v, b, rid, amt, ord) w"
  "world_good w \<Longrightarrow> settled (v, False, rid, amt, ord) w"
  by (simp_all add: settled_def payable_def)

lemma hoare_ensureM: "(\<And>w. P w \<Longrightarrow> b \<Longrightarrow> Q w) \<Longrightarrow> (\<And>w. P w \<Longrightarrow> R w) \<Longrightarrow> hoare P (ensureM b e) (\<lambda>_. Q) R"
  by (simp add: hoare_def)

lemma hoare_ids_roomy: "hoare (roomy u ord a) ids_refund_id (\<lambda>_. roomy u ord a) committed_good"
  by (auto simp: hoare_def ids_refund_id_def next_identifier_def roomy_def world_good_def)

lemma hoare_clock_roomy: "hoare (roomy u ord a) clock_now (\<lambda>_. roomy u ord a) committed_good"
  by (simp add: hoare_def clock_now_def)

lemma hoare_scope_roomy:
  "hoare (roomy u ord a) (validate_refund_relational_scope cs ord') (\<lambda>_. roomy u ord a) committed_good"
proof (rule hoareI)
  fix w x w'
  assume "roomy u ord a w" and "validate_refund_relational_scope cs ord' w = (Inr x, w')"
  then show "roomy u ord a w'" using refund_scope_run(1) by blast
next
  fix w e w'
  assume room: "roomy u ord a w" and run: "validate_refund_relational_scope cs ord' w = (Inl e, w')"
  have "w_committed w' = w_committed w \<and> w_payment_calls w' = w_payment_calls w"
    using preservesD [OF quiet_scope(2) _ run, of "w_committed w" "w_payment_calls w"] by simp
  with room show "committed_good w'" by (simp add: roomy_def world_good_def committed_good_def)
qed

lemma hoare_decide:
  assumes "amount = amt"
  shows "hoare (\<lambda>w. world_good w \<and> is_money amt)
    (case decision of
       None \<Rightarrow>
         bindM (transition_refund_status rid RS_PENDING_APPROVAL RS_APPROVED
             (Some \<lparr>ib_order_id = ord, ib_case_id = cs, ib_amount = amount\<rparr>) True)
           (\<lambda>moved. thenM (ensureM moved (RuntimeError msg))
              (thenM (append_refund_auto_approved u cs ord rid)
                 (returnM (Allow, True, rid, amount, ord))))
     | Some b \<Rightarrow>
         thenM (append_refund_approval_required u cs ord rid amount (approval_rule b))
           (returnM (Blocked b, False, rid, amount, ord)))
    settled committed_good"
proof (cases decision)
  case None
  have "hoare (\<lambda>w. world_good w \<and> (moved \<longrightarrow> payable rid amt w)) (ensureM moved (RuntimeError msg))
      (\<lambda>_. payable rid amt) committed_good" for moved
    by (rule hoare_ensureM) (simp_all add: world_good_committed)
  moreover have "hoare (payable rid amt) (append_refund_auto_approved u cs ord rid)
      (\<lambda>_. payable rid amt) committed_good"
    unfolding append_refund_auto_approved_def by (rule hoare_append_payable) simp_all
  moreover have "hoare (payable rid amt) (returnM (Allow, True, rid, amt, ord)) settled committed_good"
    by (rule hoare_returnM) (rule settledI)
  ultimately show ?thesis
    unfolding None option.case assms
    by (intro hoare_bindM [OF hoare_transition_payable] hoare_thenM)
next
  case (Some b)
  have "hoare world_good (append_refund_approval_required u cs ord rid amt (approval_rule b))
      (\<lambda>_. world_good) committed_good"
    unfolding append_refund_approval_required_def by (rule safe_append) simp_all
  moreover have "hoare world_good (returnM (Blocked b, False, rid, amt, ord)) settled committed_good"
    by (rule hoare_returnM) (rule settledI)
  ultimately show ?thesis
    unfolding Some option.case assms
    by (rule hoare_pre [OF hoare_thenM]) simp
qed

lemma hoare_persist_decided:
  "hoare (roomy u ord a) (persist_decided_refund u cs ord a decision) settled committed_good"
proof -
  have row: "hoare (roomy u ord a) (thenM (ensureM (v = u) err)
      (thenM (insert_refund \<lparr>rf_id = rid, rf_customer_id = v, rf_order_id = ord, rf_case_id = cs,
          rf_amount = amt, rf_status = RS_PENDING_APPROVAL, rf_approval_expires_at = x, rf_created_at = now\<rparr>)
      (thenM (append_refund_proposed u cs ord rid amt) n))) settled committed_good"
    if amt: "amt = cents (amount_cents a)" "amount_cents a < 10 ^ 12"
      and n: "hoare (\<lambda>w. world_good w \<and> is_money amt) n settled committed_good"
    for rid v amt x now n err
  proof (cases "v = u")
    case True
    let ?r = "\<lparr>rf_id = rid, rf_customer_id = v, rf_order_id = ord, rf_case_id = cs,
          rf_amount = amt, rf_status = RS_PENDING_APPROVAL, rf_approval_expires_at = x, rf_created_at = now\<rparr>"
    have "hoare (roomy u ord a) (insert_refund ?r) (\<lambda>_. inserted ?r) committed_good"
      by (rule hoare_insert_refund [OF _ _ _ _ amt(2)]) (simp_all add: True amt(1))
    moreover have "hoare (inserted ?r) (append_refund_proposed u cs ord rid amt)
        (\<lambda>_ w. world_good w \<and> is_money amt) committed_good"
      by (rule hoare_append_proposed) (simp_all add: True)
    moreover have "hoare (roomy u ord a) (ensureM (v = u) err) (\<lambda>_. roomy u ord a) committed_good"
      by (rule hoare_ensureM) (simp_all add: roomy_committed)
    ultimately show ?thesis using n by (intro hoare_thenM)
  next
    case False
    then show ?thesis by (simp add: hoare_def roomy_committed)
  qed
  have rest: "hoare (\<lambda>w. roomy u ord a w \<and> amount = cents (amount_cents a) \<and> amount_cents a < 10 ^ 12)
      m settled committed_good"
    if "amount = cents (amount_cents a) \<Longrightarrow> amount_cents a < 10 ^ 12 \<Longrightarrow>
      hoare (roomy u ord a) m settled committed_good" for m amount
    using that by (auto simp: hoare_def)
  show ?thesis
    unfolding persist_decided_refund_def
    by (rule hoare_bindM [OF hoare_quantize], rule rest)
      (intro hoare_bindM [OF hoare_ids_roomy] hoare_bindM [OF hoare_clock_roomy]
        hoare_bindM [OF hoare_scope_roomy] row hoare_decide refl; assumption)
qed


section \<open>Proposing a refund\<close>

definition case_known :: "pystr \<Rightarrow> pystr \<Rightarrow> world \<Rightarrow> bool" where
  "case_known cs u w \<longleftrightarrow> world_good w \<and> case_of_customer (w_db w) cs u"

lemma case_known_good: "case_known cs u w \<Longrightarrow> world_good w" "case_known cs u w \<Longrightarrow> committed_good w"
  by (simp_all add: case_known_def world_good_committed)

definition context_known :: "pystr \<Rightarrow> pystr \<Rightarrow> case_row \<times> rule_context \<Rightarrow> world \<Rightarrow> bool" where
  "context_known cs u x w \<longleftrightarrow> case_known cs u w \<and> (case x of (row, ctx) \<Rightarrow>
     context_ok (w_db w) cs row ctx \<and> ca_customer_id row = u)"

lemma case_owner_unique:
  "db_ok d \<Longrightarrow> case_of_customer d cs u \<Longrightarrow> row \<in> set (db_cases d) \<Longrightarrow> ca_id row = cs \<Longrightarrow>
   ca_customer_id row = u"
  unfolding case_of_customer_def db_ok_def keys_ok_def by (metis distinct_map_eq)

lemma hoare_load_rule_context:
  "hoare (case_known cs u) (load_rule_context_for_case cs) (context_known cs u) committed_good"
proof (rule hoareI)
  fix w x w'
  assume known: "case_known cs u w" and run: "load_rule_context_for_case cs w = (Inr x, w')"
  obtain row ctx where x: "x = (row, ctx)" by (cases x)
  have db: "db_ok (w_db w)" using known by (simp add: case_known_def world_good_def good_def)
  note loaded = load_rule_context_run [OF db run [unfolded x]]
  have "ca_customer_id row = u"
    using known loaded(2) by (intro case_owner_unique [OF db]) (auto simp: case_known_def context_ok_def)
  with known loaded show "context_known cs u x w'" by (simp add: context_known_def x)
next
  fix w e w'
  assume "case_known cs u w" and run: "load_rule_context_for_case cs w = (Inl e, w')"
  then show "committed_good w'"
    using hoareD(2) [OF safe_load_rule_context _ run] by (simp add: case_known_def)
qed

definition decided :: "pystr \<Rightarrow> pystr option \<Rightarrow> decimal \<Rightarrow> authorisation + blocking \<Rightarrow> world \<Rightarrow> bool" where
  "decided u linked a v w \<longleftrightarrow> world_good w \<and>
     ((\<exists>auth. v = Inl auth) \<or> (\<exists>r t. v = Inr (RequireApproval r t)) \<longrightarrow>
        (\<forall>ord. linked = Some ord \<longrightarrow> refund_room (w_db w) u ord a))"

lemma hoare_authorise:
  assumes "snd p = ProposeRefund a"
  shows "hoare (context_known cs u (row, ctx)) (liftM (authorise ctx p))
    (decided u (cs_linked_order_id (rc_case ctx)) a) committed_good"
proof (rule hoare_liftM)
  fix w v
  assume known: "context_known cs u (row, ctx) w" and run: "authorise ctx p = Inr v"
  have "evaluate ctx (ProposeRefund a) = Inr Allow \<or>
      (\<exists>r w. evaluate ctx (ProposeRefund a) = Inr (Blocked (RequireApproval r w)))"
    if "(\<exists>auth. v = Inl auth) \<or> (\<exists>r t. v = Inr (RequireApproval r t))"
  proof -
    obtain vd where vd: "evaluate ctx (ProposeRefund a) = Inr vd"
      using run assms by (cases "evaluate ctx (ProposeRefund a)") (simp_all add: authorise_def)
    show ?thesis
    proof (cases vd)
      case (Blocked b)
      then show ?thesis using run that assms vd by (auto simp: authorise_def)
    qed (simp add: vd)
  qed
  with known authorised_room [of "w_db w" cs row ctx] show "decided u (cs_linked_order_id (rc_case ctx)) a v w"
    by (auto simp: decided_def context_known_def case_known_def)
next
  fix w assume "context_known cs u (row, ctx) w"
  then show "committed_good w" by (auto simp: context_known_def case_known_good)
qed

lemma quiet_load_rule_context [quiet_rules]: "preserves (unmoved c k) (load_rule_context_for_case cs)"
  unfolding load_rule_context_for_case_def load_linked_order_summary_def
  by (intro preserves_rules quiet_rules)

lemma preserves_case_blocking [preserves_rules]:
  "(\<And>a b c. preserves I (f a b c)) \<Longrightarrow> (\<And>a b. preserves I (g a b)) \<Longrightarrow> (\<And>a b. preserves I (h a b)) \<Longrightarrow>
   preserves I (case x of Deny a b c \<Rightarrow> f a b c | RequireApproval a b \<Rightarrow> g a b | ForceEscalate a b \<Rightarrow> h a b)"
  by (cases x) simp_all

lemma quiet_persist_decided [quiet_rules]:
  "preserves (unmoved c k) (persist_decided_refund u cs ord a decision)"
  unfolding persist_decided_refund_def append_refund_proposed_def append_refund_auto_approved_def
    append_refund_approval_required_def
  by (intro preserves_rules quiet_rules)

lemma quiet_persist_proposal [quiet_rules]: "preserves (unmoved c k) (persist_refund_proposal u cs p a)"
  unfolding persist_refund_proposal_def append_action_denied_def
  by (intro preserves_rules quiet_rules)

lemma hoare_persist_proposal:
  assumes p: "snd p = ProposeRefund a"
  shows "hoare (case_known cs u) (persist_refund_proposal u cs p a) settled committed_good"
proof -
  have lock: "hoare (case_known cs u) (lock_customer_for_update u) (\<lambda>_. case_known cs u) committed_good"
  proof (rule hoareI)
    show "case_known cs u w'" if "case_known cs u w" "lock_customer_for_update u w = (Inr x, w')" for w x w'
      using that lock_customer_run(1) by blast
    show "committed_good w'" if "case_known cs u w" "lock_customer_for_update u w = (Inl e, w')" for w e w'
      using hoareD(2) [OF safe_lookups(11) _ that(2)] that(1) by (simp add: case_known_good)
  qed
  have pay: "hoare (decided u linked a v)
      (case linked of None \<Rightarrow> raiseM e | Some ord \<Rightarrow> persist_decided_refund u cs ord a (decision ord))
      settled committed_good"
    if "(\<exists>auth. v = Inl auth) \<or> (\<exists>r t. v = Inr (RequireApproval r t))" for v linked e decision
    using that
    by (cases linked)
      (auto simp: decided_def roomy_def world_good_committed
        intro!: hoare_raiseM hoare_pre [OF hoare_persist_decided])
  have spent: "hoare (decided u linked a v)
      (case linked of None \<Rightarrow> raiseM e
        | Some ord \<Rightarrow> bindM (liftM sp) (\<lambda>_. persist_decided_refund u cs ord a (decision ord)))
      settled committed_good"
    if "\<exists>auth. v = Inl auth" for v linked e decision and sp :: "error + authorisation"
    using pay [of v linked e decision] that
    by (cases linked; cases sp) (auto simp: hoare_def decided_def world_good_committed)
  have none: "hoare (decided u linked a v) m settled committed_good"
    if "hoare world_good m settled committed_good" for m linked v
    using that by (rule hoare_pre) (simp add: decided_def)
  have deny: "hoare world_good (thenM (append_action_denied u cs act d) (returnM (vd, False, x, y, z)))
      settled committed_good" for act d vd x y z
    by (intro hoare_thenM [OF safe_append_action_denied] hoare_returnM settledI)
  have escalate: "hoare world_good (returnM (vd, False, x, y, z)) settled committed_good" for vd x y z
    by (intro hoare_returnM settledI)
  have body: "hoare (context_known cs u (row, ctx)) (bindM (liftM (authorise ctx p)) (\<lambda>verdict_or_auth.
       case verdict_or_auth of
         Inr (Deny rule agent_reason customer_reason) \<Rightarrow>
           thenM (append_action_denied u cs (snd p) (rule, agent_reason, customer_reason))
             (returnM (Blocked (Deny rule agent_reason customer_reason), False, [], Dec False 0 0, []))
       | Inr (ForceEscalate rule reason) \<Rightarrow>
           returnM (Blocked (ForceEscalate rule reason), False, [], Dec False 0 0, [])
       | Inr (RequireApproval rule reason) \<Rightarrow>
           (case cs_linked_order_id (rc_case ctx) of
              None \<Rightarrow> raiseM (RuntimeError (lit ''Refund proposal requires a linked order.''))
            | Some order_id \<Rightarrow> persist_decided_refund u cs order_id a (Some (RequireApproval rule reason)))
       | Inl auth \<Rightarrow>
           (case cs_linked_order_id (rc_case ctx) of
              None \<Rightarrow> raiseM (RuntimeError (lit ''Refund proposal requires a linked order.''))
            | Some order_id \<Rightarrow>
                bindM (liftM (spend auth cs p)) (\<lambda>_. persist_decided_refund u cs order_id a None))))
      settled committed_good" for row ctx
  proof (rule hoare_bindM [OF hoare_authorise [OF p]])
    fix v
    show "hoare (decided u (cs_linked_order_id (rc_case ctx)) a v) (case v of
         Inr (Deny rule agent_reason customer_reason) \<Rightarrow>
           thenM (append_action_denied u cs (snd p) (rule, agent_reason, customer_reason))
             (returnM (Blocked (Deny rule agent_reason customer_reason), False, [], Dec False 0 0, []))
       | Inr (ForceEscalate rule reason) \<Rightarrow>
           returnM (Blocked (ForceEscalate rule reason), False, [], Dec False 0 0, [])
       | Inr (RequireApproval rule reason) \<Rightarrow>
           (case cs_linked_order_id (rc_case ctx) of
              None \<Rightarrow> raiseM (RuntimeError (lit ''Refund proposal requires a linked order.''))
            | Some order_id \<Rightarrow> persist_decided_refund u cs order_id a (Some (RequireApproval rule reason)))
       | Inl auth \<Rightarrow>
           (case cs_linked_order_id (rc_case ctx) of
              None \<Rightarrow> raiseM (RuntimeError (lit ''Refund proposal requires a linked order.''))
            | Some order_id \<Rightarrow>
                bindM (liftM (spend auth cs p)) (\<lambda>_. persist_decided_refund u cs order_id a None)))
      settled committed_good"
    proof (cases v)
      case (Inl auth)
      then show ?thesis by (simp only: sum.case) (rule spent, simp)
    next
      case (Inr b)
      then show ?thesis
        by (cases b; simp only: sum.case blocking.case)
          (rule none [OF deny] none [OF escalate] pay; simp)+
    qed
  qed
  show ?thesis
    unfolding persist_refund_proposal_def
    by (intro hoare_bindM [OF lock] hoare_bindM [OF hoare_load_rule_context])
      (clarsimp simp only: prod.case split_paired_all, rule body)
qed


text \<open>A savepoint whose failure is caught: the rows are those before it.\<close>

lemma hoare_savepoint:
  assumes m: "hoare P m Q committed_good" and quiet: "\<And>c k. preserves (unmoved c k) m"
    and good: "\<And>w. P w \<Longrightarrow> world_good w"
  shows "hoare P (tryM (begin_nested m)) (\<lambda>r w. case r of Inl e \<Rightarrow> world_good w | Inr x \<Rightarrow> Q x w) committed_good"
proof (rule hoareI)
  fix w r w'
  assume P: "P w" and run: "tryM (begin_nested m) w = (Inr r, w')"
  obtain r1 w1 where m1: "m w = (r1, w1)" by (cases "m w")
  show "case r of Inl e \<Rightarrow> world_good w' | Inr x \<Rightarrow> Q x w'"
  proof (cases r1)
    case (Inr x)
    then show ?thesis using run m1 hoareD(1) [OF m P] by (auto simp: tryM_def begin_nested_def)
  next
    case (Inl e)
    have "w_committed w1 = w_committed w \<and> w_payment_calls w1 = w_payment_calls w"
      using preservesD [OF quiet _ m1, of "w_committed w" "w_payment_calls w"] by simp
    moreover have "r = Inl e" and "w' = w1\<lparr>w_db := w_db w\<rparr>"
      using run m1 Inl by (simp_all add: tryM_def begin_nested_def)
    ultimately show ?thesis using good [OF P] by (simp add: world_good_def)
  qed
qed (simp add: tryM_def split: prod.splits)

lemma safe_race_denial [safe_rules]: "safe (append_open_refund_race_denial u cs a)"
  unfolding append_open_refund_race_denial_def by (intro safe_rules)

lemma hoare_execute_propose:
  assumes p: "snd p = ProposeRefund a"
  shows "hoare (case_known cs (ca_customer_id row)) (execute_propose_refund row cs p a)
    (\<lambda>_. world_good) committed_good"
proof -
  let ?u = "ca_customer_id row"
  have known: "hoare (context_known cs ?u x) m Q committed_good"
    if "hoare (case_known cs ?u) m Q committed_good" for x Q and m :: "'a op"
    using that by (rule hoare_pre) (simp add: context_known_def)
  have attempt: "hoare (case_known cs ?u) (tryM (begin_nested (persist_refund_proposal ?u cs p a)))
      (\<lambda>r w. case r of Inl e \<Rightarrow> world_good w | Inr x \<Rightarrow> settled x w) committed_good"
    by (rule hoare_savepoint [OF hoare_persist_proposal [OF p] quiet_persist_proposal])
      (simp add: case_known_def)
  have failed: "safe (case e of
         IntegrityError name \<Rightarrow>
           (case linked of
              None \<Rightarrow> raiseM (IntegrityError name)
            | Some order_id \<Rightarrow>
                bindM (find_open_refund_for_order order_id) (\<lambda>open_refund.
                  if open_refund = None then raiseM (IntegrityError name)
                  else bindM (append_open_refund_race_denial ?u cs (snd p))
                         (\<lambda>deny. returnM (Blocked deny))))
       | _ \<Rightarrow> raiseM e)" for e linked
    by (cases e; simp only: error.case) (intro safe_rules)+
  have paid: "hoare (settled (v, auto_approved, rid, amount, ord)) (thenM commit_refund_intent_before_payment
      (if auto_approved then
         thenM (execute_payment_after_committed_intent ?u cs ord rid amount) (returnM Allow)
       else returnM v)) (\<lambda>_. world_good) committed_good" for v auto_approved rid amount ord
  proof (cases auto_approved)
    case True
    have "hoare (settled (v, auto_approved, rid, amount, ord)) (thenM commit_refund_intent_before_payment
        (thenM (execute_payment_after_committed_intent ?u cs ord rid amount) (returnM Allow)))
        (\<lambda>_. world_good) committed_good"
      by (rule hoare_pre [OF hoare_commit_and_pay]) (simp add: settled_def True)
    with True show ?thesis by simp
  next
    case False
    have "safe (thenM commit_refund_intent_before_payment (returnM v))"
      unfolding commit_refund_intent_before_payment_def by (intro safe_rules)
    then have "hoare (settled (v, auto_approved, rid, amount, ord)) (thenM commit_refund_intent_before_payment
        (returnM v)) (\<lambda>_. world_good) committed_good"
      by (rule hoare_pre) (simp add: settled_def)
    with False show ?thesis by simp
  qed
  have returned: "hoare (settled (v, auto_approved, rid, amount, ord)) (returnM v) (\<lambda>_. world_good) committed_good"
    for v :: verdict and auto_approved rid amount ord
    by (rule hoare_returnM) (simp add: settled_def)
  have finished: "hoare (settled (v, auto_approved, rid, amount, ord)) (case v of
              Blocked (Deny _ _ _) \<Rightarrow> returnM v
            | Blocked (ForceEscalate _ _) \<Rightarrow> returnM v
            | _ \<Rightarrow>
                thenM commit_refund_intent_before_payment
                  (if auto_approved then
                     thenM (execute_payment_after_committed_intent ?u cs ord rid amount)
                       (returnM Allow)
                   else returnM v)) (\<lambda>_. world_good) committed_good" for v auto_approved rid amount ord
  proof (cases v)
    case Allow
    show ?thesis unfolding Allow verdict.case by (rule paid)
  next
    case (Blocked b)
    show ?thesis
      unfolding Blocked verdict.case by (cases b; simp only: blocking.case) (rule returned paid)+
  qed
  show ?thesis
    unfolding execute_propose_refund_def
    apply (intro hoare_bindM [OF hoare_load_rule_context])
    apply (clarsimp simp only: prod.case split_paired_all)
    apply (rule known)
    apply (rule hoare_bindM [OF attempt])
    subgoal for row' ctx r
      apply (cases r)
      subgoal for e by (cases e; simp only: sum.case error.case; intro safe_rules)
      subgoal for x by (cases x) (simp only: sum.case prod.case finished)
      done
    done
qed


section \<open>Agent actions\<close>

lemma hoare_find_case:
  "hoare world_good (find_case_by_id cs) (\<lambda>found w. case found of None \<Rightarrow> world_good w
     | Some row \<Rightarrow> case_known cs (ca_customer_id row) w) committed_good"
  by (auto simp: hoare_def find_case_by_id_def case_known_def case_of_customer_def
      split: option.split dest: find_Some_mem)

theorem safe_execute_agent_action [safe_rules]: "safe (execute_agent_action cs p)"
proof -
  have escalate: "safe (case a of Escalate _ \<Rightarrow> escalate_case cs EO_AGENT None (Some auth) None
      | _ \<Rightarrow> dispatch_allow_verdict auth row cs p ctx)" for a auth row ctx
    by (cases a; simp only: action.case; rule safe_rules)
  have blocked: "safe (case x of
        Inr (Deny rule agent_reason customer_reason) \<Rightarrow>
          thenM (append_action_denied (ca_customer_id row) cs a (rule, agent_reason, customer_reason))
            (returnM (Blocked (Deny rule agent_reason customer_reason)))
      | Inr (ForceEscalate rule reason) \<Rightarrow>
          thenM (escalate_case cs EO_POLICY None None (Some (rule, reason)))
            (returnM (Blocked (ForceEscalate rule reason)))
      | Inr (RequireApproval rule reason) \<Rightarrow> dispatch_require_approval_verdict a
      | Inl auth \<Rightarrow>
          thenM (case a of
                   Escalate _ \<Rightarrow> escalate_case cs EO_AGENT None (Some auth) None
                 | _ \<Rightarrow> dispatch_allow_verdict auth row cs p ctx)
            (returnM Allow))" for x row ctx a
  proof (cases x)
    case (Inl auth)
    then show ?thesis unfolding Inl sum.case by (intro safe_thenM escalate safe_returnM)
  next
    case (Inr b)
    then show ?thesis unfolding Inr sum.case by (cases b; simp only: blocking.case; intro safe_rules)
  qed
  have plain: "safe (bindM (load_rule_context_for_case cs) (\<lambda>(row, ctx).
      bindM (liftM (authorise ctx p)) (\<lambda>x. case x of
        Inr (Deny rule agent_reason customer_reason) \<Rightarrow>
          thenM (append_action_denied (ca_customer_id row) cs a (rule, agent_reason, customer_reason))
            (returnM (Blocked (Deny rule agent_reason customer_reason)))
      | Inr (ForceEscalate rule reason) \<Rightarrow>
          thenM (escalate_case cs EO_POLICY None None (Some (rule, reason)))
            (returnM (Blocked (ForceEscalate rule reason)))
      | Inr (RequireApproval rule reason) \<Rightarrow> dispatch_require_approval_verdict a
      | Inl auth \<Rightarrow>
          thenM (case a of
                   Escalate _ \<Rightarrow> escalate_case cs EO_AGENT None (Some auth) None
                 | _ \<Rightarrow> dispatch_allow_verdict auth row cs p ctx)
            (returnM Allow))))" for a
    by (intro safe_bindM safe_load_rule_context safe_cases safe_liftM blocked)
  have propose: "safe (bindM (find_case_by_id cs) (\<lambda>found. case found of
            None \<Rightarrow> raiseM (CaseNotFoundError cs)
          | Some row \<Rightarrow>
              bindM (execute_propose_refund row cs p a) (finalize_propose_refund_verdict cs)))"
    if "snd p = ProposeRefund a" for a
  proof (rule hoare_bindM [OF hoare_find_case])
    fix found
    show "hoare (\<lambda>w. case found of None \<Rightarrow> world_good w | Some row \<Rightarrow> case_known cs (ca_customer_id row) w)
        (case found of None \<Rightarrow> raiseM (CaseNotFoundError cs)
          | Some row \<Rightarrow> bindM (execute_propose_refund row cs p a) (finalize_propose_refund_verdict cs))
        (\<lambda>_. world_good) committed_good"
      by (cases found)
        (simp_all add: safe_raiseM hoare_bindM [OF hoare_execute_propose [OF that] safe_finalize])
  qed
  from plain [of "snd p"] propose show ?thesis
    unfolding execute_agent_action_def by (cases "snd p") (simp_all only: action.case)
qed

section \<open>Operators\<close>

lemma safe_customer_id_for_case [safe_rules]: "safe (customer_id_for_case cs)"
  unfolding customer_id_for_case_def by (intro safe_rules)

lemma matching_proposals_mem:
  assumes "matching_proposals rid evs = Inr ms" and "e \<in> set ms"
  shows "e \<in> set evs \<and> ev_event_type e = ET_REFUND_PROPOSED"
proof -
  have "\<forall>e\<in>set ms. e \<in> set evs \<and> ev_event_type e = ET_REFUND_PROPOSED"
    using assms(1) unfolding matching_proposals_def
    by (rule foldE_invariant) (auto simp: bindE_eq_Inr split: if_splits)
  with assms(2) show ?thesis by blast
qed

lemma evidence_run:
  assumes run: "validate_refund_intent_against_proposed_evidence r u w = (Inr (rid, amt), w')"
  shows "w' = w" and "\<exists>e\<in>set (proposals (w_db w)). proposal_intent e =
    (rf_id r, rf_customer_id r, Some (rf_case_id r), Some (rf_order_id r), amt)"
    and "dec_eq amt (rf_amount r)" and "u = rf_customer_id r"
proof -
  let ?evs = "sort_key ev_seq (filter (\<lambda>e. ev_case_id e = Some (rf_case_id r)) (db_events (w_db w)))"
  obtain e w1 where load: "load_canonical_refund_proposed_event (rf_case_id r) (rf_id r) w = (Inr e, w1)"
    and check: "bindM (liftM (proposed_payload e)) (\<lambda>(refund_id, amount).
       let mismatches = evidence_mismatches r u e refund_id amount in
       if mismatches \<noteq> []
       then raiseM (RefundIntentIntegrityError
              (lit ''refund intent integrity failure: refund row disagrees with refund_proposed evidence ('' @
               comma_separated (sort mismatches) @ lit '') for '' @ rf_id r))
       else returnM (refund_id, amount)) w1 = (Inr (rid, amt), w')"
    using run unfolding validate_refund_intent_against_proposed_evidence_def bindM_eq_Inr by blast
  obtain ms where ms: "matching_proposals (rf_id r) ?evs = Inr ms"
    and pick: "(case ms of [] \<Rightarrow> raiseM (intent_error ''no refund_proposed evidence'' (rf_id r))
       | [e] \<Rightarrow> returnM e
       | _ \<Rightarrow> raiseM (intent_error ''ambiguous refund_proposed evidence'' (rf_id r))) w = (Inr e, w1)"
    using load unfolding load_canonical_refund_proposed_event_def load_case_events_def
    by (cases "matching_proposals (rf_id r) ?evs") simp_all
  have one: "ms = [e]" "w1 = w" using pick by (auto split: list.splits)
  have payload: "proposed_payload e = Inr (rid, amt)" and same: "w' = w"
    and agree: "ev_customer_id e = u" "ev_customer_id e = rf_customer_id r"
      "ev_case_id e = Some (rf_case_id r)" "ev_order_id e = Some (rf_order_id r)"
      "rid = rf_id r" "dec_eq amt (rf_amount r)"
    using check one(2) by (cases "proposed_payload e"; auto simp: Let_def evidence_agrees split: if_splits)+
  have e: "e \<in> set (proposals (w_db w))"
    using matching_proposals_mem [OF ms, of e] one by (simp add: proposals_def)
  moreover have "proposal_intent e = (rf_id r, rf_customer_id r, Some (rf_case_id r), Some (rf_order_id r), amt)"
  proof -
    obtain p where p: "model_validate M_RefundProposed (ev_payload e) = Inr p"
      and "(case p of RefundProposedPayload refund_id amount \<Rightarrow> Inr (refund_id, amount)
       | _ \<Rightarrow> Inl ValidationError) = Inr (rid, amt)"
      using payload unfolding proposed_payload_def bindE_eq_Inr by blast
    then have "p = RefundProposedPayload rid amt" by (cases p) simp_all
    with p e agree show ?thesis
      by (simp add: proposal_intent_def proposals_def event_payload_def validate_payload_def del: model_validate.simps)
  qed
  ultimately show "\<exists>e\<in>set (proposals (w_db w)). proposal_intent e =
    (rf_id r, rf_customer_id r, Some (rf_case_id r), Some (rf_order_id r), amt)" by blast
  show "w' = w" by (rule same)
  show "dec_eq amt (rf_amount r)" by (rule agree)
  show "u = rf_customer_id r" using agree by simp
qed


lemma quiet_evidence:
  "preserves (unmoved c k) (validate_refund_intent_against_proposed_evidence r u)"
  unfolding validate_refund_intent_against_proposed_evidence_def Let_def
    load_canonical_refund_proposed_event_def load_case_events_def
  by (intro preserves_rules) (simp split: list.split; intro conjI allI impI preserves_rules)

lemma hoare_evidence:
  "hoare world_good (validate_refund_intent_against_proposed_evidence r u)
     (\<lambda>x w. world_good w \<and> is_money (snd x)) committed_good"
proof (rule hoareI)
  fix w x w'
  assume good: "world_good w"
    and run: "validate_refund_intent_against_proposed_evidence r u w = (Inr x, w')"
  obtain rid amt where x: "x = (rid, amt)" by (cases x)
  note evidence = evidence_run [OF run [unfolded x]]
  have "map proposal_intent (proposals (w_db w)) = map refund_intent (db_refunds (w_db w))"
    using good by (simp add: world_good_def good_def db_ok_def evidence_ok_def)
  then have "proposal_intent ` set (proposals (w_db w)) = refund_intent ` set (db_refunds (w_db w))"
    by (metis set_map)
  moreover obtain e where "e \<in> set (proposals (w_db w))"
    "proposal_intent e = (rf_id r, rf_customer_id r, Some (rf_case_id r), Some (rf_order_id r), amt)"
    using evidence(2) by blast
  ultimately have "(rf_id r, rf_customer_id r, Some (rf_case_id r), Some (rf_order_id r), amt)
      \<in> refund_intent ` set (db_refunds (w_db w))" by (metis imageI)
  then obtain row where "row \<in> set (db_refunds (w_db w))" "rf_amount row = amt"
    unfolding image_iff refund_intent_def by (elim bexE) simp
  then have "is_money amt"
    using good by (auto simp: world_good_def good_def db_ok_def references_ok_def refund_ok_def)
  with good evidence(1) x show "world_good w' \<and> is_money (snd x)" by simp
next
  fix w e w'
  assume good: "world_good w"
    and run: "validate_refund_intent_against_proposed_evidence r u w = (Inl e, w')"
  have "w_committed w' = w_committed w \<and> w_payment_calls w' = w_payment_calls w"
    using preservesD [OF quiet_evidence _ run, of "w_committed w" "w_payment_calls w"] by simp
  with good show "committed_good w'" by (simp add: world_good_def committed_good_def)
qed

theorem safe_approve_refund [safe_rules]: "safe (approve_refund rid oper)"
proof -
  have approved: "hoare (payable rid amt) (append_refund_approved u cs ord rid oper)
      (\<lambda>_. payable rid amt) committed_good" for amt u cs ord
    unfolding append_refund_approved_def by (rule hoare_append_payable) simp_all
  have pay: "hoare (\<lambda>w. world_good w \<and> is_money amt)
      (bindM (transition_refund_status rid RS_PENDING_APPROVAL RS_APPROVED
             (Some \<lparr>ib_order_id = ord, ib_case_id = cs, ib_amount = amt\<rparr>) True)
           (\<lambda>moved.
           if \<not> moved then
             bindM (require_refund_by_id rid) (\<lambda>fresh.
               returnM (operator_conflict cs rid (rf_status fresh) reopened))
           else
             thenM (append_refund_approved u cs ord rid oper)
            (thenM commit_refund_intent_before_payment
            (thenM (execute_payment_after_committed_intent u cs ord rid amt) (returnM out)))))
      (\<lambda>_. world_good) committed_good" for amt ord cs reopened u out
  proof (rule hoare_bindM [OF hoare_transition_payable])
    fix moved
    show "hoare (\<lambda>w. world_good w \<and> (moved \<longrightarrow> payable rid amt w))
      (if \<not> moved then
             bindM (require_refund_by_id rid) (\<lambda>fresh.
               returnM (operator_conflict cs rid (rf_status fresh) reopened))
           else
             thenM (append_refund_approved u cs ord rid oper)
            (thenM commit_refund_intent_before_payment
            (thenM (execute_payment_after_committed_intent u cs ord rid amt) (returnM out))))
      (\<lambda>_. world_good) committed_good"
    proof (cases moved)
      case True
      have "hoare (payable rid amt) (thenM (append_refund_approved u cs ord rid oper)
            (thenM commit_refund_intent_before_payment
            (thenM (execute_payment_after_committed_intent u cs ord rid amt) (returnM out))))
            (\<lambda>_. world_good) committed_good"
        by (intro hoare_thenM [OF approved] hoare_commit_and_pay)
      with True show ?thesis by (simp add: hoare_pre)
    next
      case False
      have "safe (bindM (require_refund_by_id rid) (\<lambda>fresh.
          returnM (operator_conflict cs rid (rf_status fresh) reopened)))"
        by (intro safe_rules)
      with False show ?thesis by simp
    qed
  qed
  have pay': "hoare (\<lambda>w. world_good w \<and> is_money (snd x)) (case x of (_, amt) \<Rightarrow> m amt) Q R"
    if "\<And>amt. hoare (\<lambda>w. world_good w \<and> is_money amt) (m amt) Q R" for x m Q R
    using that [of "snd x"] by (cases x) simp
  show ?thesis
    unfolding approve_refund_def Let_def transition_pending_refund_status_def
    by (intro safe_bindM safe_lookups safe_customer_id_for_case safe_expire_due_refunds safe_cases(1)
        safe_returnM hoare_bindM [OF hoare_evidence] pay' pay)
qed

lemma quiet_require [quiet_rules]: "preserves (unmoved c k) (require_refund_by_id rid)"
  by (rule quiet_lookups)

definition settle_rejection ::
  "pystr \<Rightarrow> pystr \<Rightarrow> pystr \<Rightarrow> pystr \<Rightarrow> pystr \<Rightarrow> pystr \<Rightarrow> decimal \<Rightarrow> pystr list \<Rightarrow> operator_outcome \<Rightarrow> operator_outcome op" where
  "settle_rejection rid oper reason u cs ord amt reopened out =
     bindM (transition_refund_status rid RS_PENDING_APPROVAL RS_REJECTED
             (Some \<lparr>ib_order_id = ord, ib_case_id = cs, ib_amount = amt\<rparr>) True)
           (\<lambda>moved.
           if \<not> moved then
             bindM (require_refund_by_id rid) (\<lambda>fresh.
               returnM (operator_conflict cs rid (rf_status fresh) reopened))
           else thenM (append_refund_rejected u cs ord rid oper reason) (returnM out))"

lemma quiet_settle_rejection [quiet_rules]:
  "preserves (unmoved c k) (settle_rejection rid oper reason u cs ord amt reopened out)"
  unfolding settle_rejection_def append_refund_rejected_def by (intro preserves_rules quiet_rules)

lemma safe_settle_rejection: "safe (settle_rejection rid oper reason u cs ord amt reopened out)"
proof (rule safe_quiet)
  show "preserves (unmoved c k) (settle_rejection rid oper reason u cs ord amt reopened out)" for c k
    by (rule quiet_settle_rejection)
  fix w x w'
  assume good: "world_good w" and run: "settle_rejection rid oper reason u cs ord amt reopened out w = (Inr x, w')"
  obtain moved w1 where move: "transition_refund_status rid RS_PENDING_APPROVAL RS_REJECTED
      (Some \<lparr>ib_order_id = ord, ib_case_id = cs, ib_amount = amt\<rparr>) True w = (Inr moved, w1)"
    and rest: "(if \<not> moved then
           bindM (require_refund_by_id rid) (\<lambda>fresh.
             returnM (operator_conflict cs rid (rf_status fresh) reopened))
         else thenM (append_refund_rejected u cs ord rid oper reason) (returnM out)) w1 = (Inr x, w')"
    using run unfolding settle_rejection_def bindM_eq_Inr by blast
  show "good (w_payment_calls w) (w_db w')"
  proof (cases moved)
    case True
    then obtain e where event: "append_canonical_event (EvMember ET_REFUND_REJECTED) u (Some cs) (Some ord)
        Actor_OPERATOR Channel_OPERATOR_API (model_dump (RefundRejectedPayload rid oper reason)) w1 = (Inr e, w')"
      using rest by (auto simp: append_refund_rejected_def thenM_eq_Inr simp del: model_dump.simps)
    show ?thesis
      by (rule close_run(1) [OF good move [unfolded eqTrueI [OF True]] event])
        (auto simp: transition_matches_def)
  next
    case False
    with move transition_run [OF move world_goodD(2) [OF good]] have "w1 = w" by simp
    moreover have "w' = w1"
      using rest False by (auto simp: bindM_eq_Inr require_refund_by_id_def find_refund_by_id_def split: option.splits)
    ultimately show ?thesis using good by (simp add: world_good_def)
  qed
qed

theorem safe_reject_refund [safe_rules]: "safe (reject_refund rid oper reason)"
  unfolding reject_refund_def Let_def transition_pending_refund_status_def
  by (intro safe_bindM safe_lookups safe_customer_id_for_case safe_expire_due_refunds safe_cases(1)
      safe_returnM safe_settle_rejection [unfolded settle_rejection_def])

end
