(* ===== verification/Loop_Safety.thy ===== *)
theory Loop_Safety
  imports Loop Settlement
begin

text \<open>
  The loop keeps the invariant of the ledger whatever the model answers: it acts only through
  gate operations.
\<close>

lemma safe_tryM_pure:
  assumes "\<And>w. snd (m w) = w"
  shows "safe (tryM m)"
  using assms by (auto simp: hoare_def tryM_def split: prod.splits) (metis snd_conv)

lemma safe_call_and_parse: "safe (tryM (call_and_parse h prompt))"
  by (rule safe_tryM_pure) (metis call_and_parse_pure snd_conv)

lemma safe_case_sum [safe_rules]:
  "(\<And>x. safe (f x)) \<Longrightarrow> (\<And>y. safe (g y)) \<Longrightarrow> safe (case r of Inl x \<Rightarrow> f x | Inr y \<Rightarrow> g y)"
  by (simp split: sum.splits)

lemma safe_invoke_model_boundary [safe_rules]: "safe (invoke_model_boundary h case_id prompt)"
  unfolding invoke_model_boundary_def by (intro safe_rules safe_call_and_parse)

lemma safe_load_disclosed [safe_rules]: "safe (load_disclosed_order_rows u ids)"
  unfolding load_disclosed_order_rows_def by (intro safe_rules)

lemma safe_load_loop_prompt_context [safe_rules]: "safe (load_loop_prompt_context case_id)"
  unfolding load_loop_prompt_context_def Let_def by (intro safe_rules)

lemma safe_append_invalid_output [safe_rules]: "safe (append_invalid_output u cs raw err)"
  unfolding append_invalid_output_def by (intro safe_rules safe_append) simp_all

lemma safe_loop_terminates_at_entry [safe_rules]: "safe (loop_terminates_at_entry case_id summary)"
  unfolding loop_terminates_at_entry_def by (intro safe_rules)

lemma safe_call_model [safe_rules]: "safe (call_model h case_id ctx)"
  unfolding call_model_def by (intro safe_rules)

lemma safe_handle_outcome [safe_rules]: "safe (handle_outcome case_id ctx result)"
  unfolding handle_outcome_def by (cases "mb_outcome result") (simp_all, (intro safe_rules)+)

lemma safe_loop_turn [safe_rules]: "safe (loop_turn h case_id accumulated)"
  unfolding loop_turn_def Let_def by (intro safe_rules)

lemma safe_loop_turns [safe_rules]: "safe (loop_turns turns h case_id accumulated)"
proof (induction turns arbitrary: accumulated)
  case 0
  show ?case unfolding loop_turns.simps by (rule safe_returnM)
next
  case (Suc turns)
  have "safe (case outcome of Finished peers \<Rightarrow> returnM (Some peers) | Continue peers \<Rightarrow> loop_turns turns h case_id peers)"
    for outcome by (cases outcome) (simp_all only: turn.case Suc safe_returnM)
  then show ?case unfolding loop_turns.simps by (intro safe_bindM safe_loop_turn)
qed

lemma safe_run_agent_loop [safe_rules]: "safe (run_agent_loop turns h case_id)"
  unfolding run_agent_loop_def by (rule safe_loop_turns)

end
