(* ===== verification/Loop_Progress.thy ===== *)
theory Loop_Progress
  imports Loop_Safety
begin

text \<open>
  Every turn of the loop that asks for another one records an attempt of the agent, and a turn is
  only begun below the step limit, so the number of turns is bounded by \<open>MAX_AGENT_STEPS + 1\<close>.
  \<open>adds n cs m\<close> says that program \<open>m\<close>, when it returns, has added at least \<open>n\<close> attempt events to
  case \<open>cs\<close> and removed none.
\<close>

section \<open>Counting attempts\<close>

definition counted :: "pystr \<Rightarrow> stored_event \<Rightarrow> bool" where
  "counted cs e \<longleftrightarrow> ev_case_id e = Some cs \<and> event_counts_as_agent_step e = Inr True"

definition agent_steps :: "pystr \<Rightarrow> db \<Rightarrow> nat" where
  "agent_steps cs d = length (filter (counted cs) (db_events d))"

definition adds :: "nat \<Rightarrow> pystr \<Rightarrow> 'a op \<Rightarrow> bool" where
  "adds n cs m \<longleftrightarrow>
     (\<forall>w x w'. m w = (Inr x, w') \<longrightarrow> n + agent_steps cs (w_db w) \<le> agent_steps cs (w_db w'))"

named_theorems adds_rules \<open>attempts that operations record\<close>

lemma addsI: "(\<And>w x w'. m w = (Inr x, w') \<Longrightarrow> n + agent_steps cs (w_db w) \<le> agent_steps cs (w_db w')) \<Longrightarrow> adds n cs m"
  by (simp add: adds_def)

lemma addsD: "adds n cs m \<Longrightarrow> m w = (Inr x, w') \<Longrightarrow> n + agent_steps cs (w_db w) \<le> agent_steps cs (w_db w')"
  by (simp add: adds_def)

lemma adds_weaken: "adds n cs m \<Longrightarrow> k \<le> n \<Longrightarrow> adds k cs m"
  by (meson addsI addsD add_le_mono1 le_trans)

lemma adds_bindM:
  assumes "adds a cs m" and "\<And>x. adds b cs (f x)"
  shows "adds (a + b) cs (bindM m f)"
proof (rule addsI)
  fix w y w' assume "bindM m f w = (Inr y, w')"
  then obtain x w1 where "m w = (Inr x, w1)" and "f x w1 = (Inr y, w')" by (auto simp: bindM_eq_Inr)
  with addsD [OF assms(1)] addsD [OF assms(2)]
  show "a + b + agent_steps cs (w_db w) \<le> agent_steps cs (w_db w')" by fastforce
qed

lemma adds_first: "adds n cs m \<Longrightarrow> (\<And>x. adds 0 cs (f x)) \<Longrightarrow> adds n cs (bindM m f)"
  using adds_bindM [of n cs m 0 f] by simp

lemma adds_second: "adds 0 cs m \<Longrightarrow> (\<And>x. adds n cs (f x)) \<Longrightarrow> adds n cs (bindM m f)"
  using adds_bindM [of 0 cs m n f] by simp

lemma adds_then:
  "adds n cs m \<Longrightarrow> adds 0 cs k \<Longrightarrow> adds n cs (thenM m k)"
  "adds 0 cs m \<Longrightarrow> adds n cs k \<Longrightarrow> adds n cs (thenM m k)"
  by (simp_all add: thenM_def adds_first adds_second)

lemma adds_raiseM [adds_rules]: "adds n cs (raiseM e)"
  by (simp add: adds_def)

lemma adds_zero_basic [adds_rules]:
  "adds 0 cs (returnM x)" "adds 0 cs (getM f)" "adds 0 cs (liftM r)" "adds 0 cs (ensureM b e)"
  by (auto simp: adds_def)

lemma adds_zero_seq [adds_rules]:
  "adds 0 cs m \<Longrightarrow> (\<And>x. adds 0 cs (f x)) \<Longrightarrow> adds 0 cs (bindM m f)"
  "adds 0 cs m' \<Longrightarrow> adds 0 cs k \<Longrightarrow> adds 0 cs (thenM m' k)"
  by (simp_all add: adds_first adds_then(1))

lemma adds_cases [adds_rules]:
  "adds n cs m \<Longrightarrow> adds n cs k \<Longrightarrow> adds n cs (if b then m else k)"
  "adds n cs m \<Longrightarrow> (\<And>x. adds n cs (f x)) \<Longrightarrow> adds n cs (case r of None \<Rightarrow> m | Some x \<Rightarrow> f x)"
  "(\<And>x y. adds n cs (g x y)) \<Longrightarrow> adds n cs (case p of (x, y) \<Rightarrow> g x y)"
  by (simp_all split: option.splits prod.splits)

lemma adds_foldM [adds_rules]:
  assumes "\<And>b x. adds 0 cs (f b x)"
  shows "adds 0 cs (foldM f b xs)"
  by (induction xs arbitrary: b) (simp_all add: adds_zero_basic adds_zero_seq assms)

text \<open>Programs that keep the events as they are.\<close>

lemma adds_same_events:
  assumes "\<And>es. preserves (\<lambda>w. db_events (w_db w) = es) m"
  shows "adds 0 cs m"
proof (rule addsI)
  fix w x w' assume "m w = (Inr x, w')"
  from preservesD [OF assms [of "db_events (w_db w)"] refl this]
  show "0 + agent_steps cs (w_db w) \<le> agent_steps cs (w_db w')" by (simp add: agent_steps_def)
qed

named_theorems still_rules \<open>operations that leave the events alone\<close>

abbreviation still :: "stored_event list \<Rightarrow> 'a op \<Rightarrow> bool" where
  "still es \<equiv> preserves (\<lambda>w. db_events (w_db w) = es)"

lemma still_basic [still_rules]:
  "still es clock_now" "still es (next_identifier p)" "still es (mailer_send a b t)" "still es (ticketing_escalate why)"
  "still es ids_refund_id" "still es ids_verification_token" "still es (payment_refund k amt)" "still es commit_session"
  unfolding clock_now_def next_identifier_def mailer_send_def ticketing_escalate_def ids_refund_id_def
    ids_verification_token_def payment_refund_def commit_session_def ids_ticket_id_def
  by (intro preserves_rules preserves_modifyM; simp)+

lemma still_lookups [still_rules]:
  "still es (find_customer_by_id u)" "still es (find_case_by_id cs)" "still es (find_order_by_id ord)" "still es (find_refund_by_id rid)"
  "still es (load_customer_events u)" "still es (load_case_events cs)" "still es (list_orders_for_customer u)"
  "still es (lock_customer_for_update u)" "still es (find_open_refund_for_order ord)"
  "still es (load_linked_order_summary linked evs now)" "still es (load_rule_context_for_case cs)"
  "still es (require_case_customer row)" "still es (due_refund_rows u now)"
  "still es (load_disclosed_order_rows u ids)" "still es (load_loop_prompt_context cs)"
  unfolding find_customer_by_id_def find_case_by_id_def find_order_by_id_def find_refund_by_id_def load_customer_events_def
    load_case_events_def list_orders_for_customer_def lock_customer_for_update_def
    find_open_refund_for_order_def load_linked_order_summary_def load_rule_context_for_case_def
    require_case_customer_def due_refund_rows_def load_disclosed_order_rows_def load_loop_prompt_context_def
    Let_def clock_now_def
  by (intro preserves_rules)+

lemma still_writes [still_rules]:
  "still es (insert_refund r)" "still es (transition_refund_status rid s t b clr)"
  "still es (validate_refund_relational_scope cs ord)"
  unfolding insert_refund_def transition_refund_status_def validate_refund_relational_scope_def
    load_case_customer_id_def load_order_customer_id_def modify_db_def
  by (intro preserves_rules preserves_modifyM; simp)+

lemmas adds_still [adds_rules] = still_rules [THEN adds_same_events]

section \<open>Appending\<close>

lemma append_counts:
  assumes "append_canonical_event (EvMember et) u cs ord a ch (model_dump p) w = (Inr e, w')"
    and "payload_class p = payload_model_for_event_type et"
  shows "agent_steps c (w_db w') = agent_steps c (w_db w) + (if counted c e then 1 else 0)"
    and "ev_case_id e = cs" and "ev_event_type e = et" and "event_payload e = Inr p"
  by (rule append_steps [OF assms]; simp add: agent_steps_def)+

lemma adds_append:
  assumes "payload_class p = payload_model_for_event_type et"
  shows "adds 0 c (append_canonical_event (EvMember et) u cs ord a ch (model_dump p))"
  by (rule addsI) (use append_counts [OF _ assms] in simp)

lemma attempt_types: "et \<in> AGENT_ATTEMPT_OUTCOME_TYPES \<Longrightarrow> ev_event_type e = et \<Longrightarrow> event_counts_as_agent_step e = Inr True"
  by (simp add: event_counts_as_agent_step_def)

lemma adds_attempt:
  assumes "payload_class p = payload_model_for_event_type et" and "et \<in> AGENT_ATTEMPT_OUTCOME_TYPES"
  shows "adds 1 c (append_canonical_event (EvMember et) u (Some c) ord a ch (model_dump p))"
  by (rule addsI) (use append_counts [OF _ assms(1)] attempt_types [OF assms(2)] in \<open>auto simp: counted_def\<close>)

lemma adds_finished:
  "adds 1 c (append_canonical_event (EvMember ET_CASE_CLOSED) u (Some c) None a ch
     (model_dump (CaseClosedPayload CO_FINISHED summary)))"
proof (rule addsI)
  fix w e w'
  assume "append_canonical_event (EvMember ET_CASE_CLOSED) u (Some c) None a ch
     (model_dump (CaseClosedPayload CO_FINISHED summary)) w = (Inr e, w')"
  note run = append_counts [OF this]
  have "case_closed_outcome e = Inr CO_FINISHED"
    using run(4) model_validate_dump [of "CaseClosedPayload CO_FINISHED summary"]
    by (simp add: case_closed_outcome_def del: model_validate.simps model_dump.simps)
  then have "counted c e"
    using run(2,3) by (simp add: counted_def event_counts_as_agent_step_def AGENT_ATTEMPT_OUTCOME_TYPES_def)
  with run(1) show "1 + agent_steps c (w_db w) \<le> agent_steps c (w_db w')" by simp
qed

lemma adds_escalated:
  assumes "origin \<in> {EO_AGENT, EO_POLICY}"
  shows "adds 1 c (append_canonical_event (EvMember ET_ESCALATED) u (Some c) None a ch
     (model_dump (EscalatedPayload why origin tkt)))"
proof (rule addsI)
  fix w e w'
  assume "append_canonical_event (EvMember ET_ESCALATED) u (Some c) None a ch
     (model_dump (EscalatedPayload why origin tkt)) w = (Inr e, w')"
  note run = append_counts [OF this]
  have "event_escalation_origin e = Inr origin"
    using run(4) model_validate_dump [of "EscalatedPayload why origin tkt"]
    by (simp add: event_escalation_origin_def del: model_validate.simps model_dump.simps)
  then have "counted c e"
    using run(2,3) assms
    by (auto simp: counted_def event_counts_as_agent_step_def AGENT_ATTEMPT_OUTCOME_TYPES_def
        AGENT_STEP_ESCALATION_ORIGINS_def)
  with run(1) show "1 + agent_steps c (w_db w) \<le> agent_steps c (w_db w')" by simp
qed

section \<open>Gate operations\<close>

lemma adds_expire [adds_rules]: "adds 0 c (expire_due_refunds_for_customer u)"
  unfolding expire_due_refunds_for_customer_def expire_one_refund_def
  by (intro adds_rules adds_append; simp)

lemma adds_closing [adds_rules]:
  "adds 0 c (append_escalated_and_case_closed u cs origin why tkt)"
  unfolding append_escalated_and_case_closed_def by (intro adds_rules adds_append; simp)

lemma adds_escalate_case:
  "adds 0 c (escalate_case cs origin reason auth fe)"
  "origin \<in> {EO_AGENT, EO_POLICY} \<Longrightarrow> adds 1 c (escalate_case c origin reason auth fe)"
proof -
  show "adds 0 c (escalate_case cs origin reason auth fe)"
    unfolding escalate_case_def by (intro adds_rules)
  show "adds 1 c (escalate_case c origin reason auth fe)" if "origin \<in> {EO_AGENT, EO_POLICY}"
    unfolding escalate_case_def append_escalated_and_case_closed_def
    by (intro adds_second adds_still adds_zero_basic adds_cases adds_raiseM adds_then(1) adds_escalated that adds_append)
      simp
qed

lemma adds_denied: "adds 1 c (append_action_denied u c a deny)"
  unfolding append_action_denied_def
  by (intro adds_rules adds_attempt) (simp_all add: AGENT_ATTEMPT_OUTCOME_TYPES_def)

lemma adds_effects:
  "adds 1 c (allow_get_orders auth u c p)" "adds 1 c (allow_link_order auth u c p ord)"
  "adds 1 c (allow_send_reply auth row c p s b)" "adds 1 c (allow_request_verification auth row c p now)"
  "adds 1 c (allow_finish auth u c p s)"
  unfolding allow_get_orders_def allow_link_order_def allow_send_reply_def allow_request_verification_def
    allow_finish_def
  by (intro adds_second adds_zero_basic adds_still adds_then(2) adds_attempt adds_finished;
      simp add: AGENT_ATTEMPT_OUTCOME_TYPES_def)+

lemma adds_dispatch_allow: "adds 1 c (dispatch_allow_verdict auth row c p ctx)"
  unfolding dispatch_allow_verdict_def
  by (cases "snd p"; simp only: action.case; intro adds_raiseM adds_effects)

section \<open>Refund proposals\<close>

text \<open>
  A forced escalation has recorded nothing yet when the proposal returns it; the caller escalates.
\<close>

fun owed :: "verdict \<Rightarrow> nat" where
  "owed (Blocked (ForceEscalate _ _)) = 0"
| "owed _ = 1"

definition adds_by :: "('a \<Rightarrow> nat) \<Rightarrow> pystr \<Rightarrow> 'a op \<Rightarrow> bool" where
  "adds_by f cs m \<longleftrightarrow>
     (\<forall>w x w'. m w = (Inr x, w') \<longrightarrow> f x + agent_steps cs (w_db w) \<le> agent_steps cs (w_db w'))"

lemma adds_byI: "(\<And>w x w'. m w = (Inr x, w') \<Longrightarrow> f x + agent_steps cs (w_db w) \<le> agent_steps cs (w_db w')) \<Longrightarrow> adds_by f cs m"
  by (simp add: adds_by_def)

lemma adds_byD: "adds_by f cs m \<Longrightarrow> m w = (Inr x, w') \<Longrightarrow> f x + agent_steps cs (w_db w) \<le> agent_steps cs (w_db w')"
  by (simp add: adds_by_def)

lemma adds_by_adds: "adds n cs m \<Longrightarrow> (\<And>x. f x \<le> n) \<Longrightarrow> adds_by f cs m"
  by (meson adds_byI addsD add_le_mono1 le_trans)

lemma adds_by_bindM:
  assumes "adds_by f cs m" and "\<And>x. adds_by (\<lambda>y. g y - f x) cs (k x)"
  shows "adds_by g cs (bindM m k)"
proof (rule adds_byI)
  fix w y w' assume "bindM m k w = (Inr y, w')"
  then obtain x w1 where "m w = (Inr x, w1)" and "k x w1 = (Inr y, w')" by (auto simp: bindM_eq_Inr)
  with adds_byD [OF assms(1)] adds_byD [OF assms(2)]
  show "g y + agent_steps cs (w_db w) \<le> agent_steps cs (w_db w')" by fastforce
qed

lemma adds_by_second: "adds 0 cs m \<Longrightarrow> (\<And>x. adds_by g cs (k x)) \<Longrightarrow> adds_by g cs (bindM m k)"
  by (rule adds_by_bindM [where f = "\<lambda>_. 0", OF adds_by_adds]) simp_all

lemma adds_by_savepoint:
  assumes "adds_by f cs m"
  shows "adds_by (\<lambda>r. case r of Inl e \<Rightarrow> 0 | Inr x \<Rightarrow> f x) cs (tryM (begin_nested m))"
proof (rule adds_byI)
  fix w r w' assume "tryM (begin_nested m) w = (Inr r, w')"
  with adds_byD [OF assms] show "(case r of Inl e \<Rightarrow> 0 | Inr x \<Rightarrow> f x) + agent_steps cs (w_db w) \<le> agent_steps cs (w_db w')"
    by (auto simp: tryM_def begin_nested_def split: prod.splits sum.splits)
qed

lemma adds_proposed: "adds 1 c (append_refund_proposed u c ord rid amount)"
  unfolding append_refund_proposed_def by (intro adds_attempt) (simp_all add: AGENT_ATTEMPT_OUTCOME_TYPES_def)

lemma adds_decision: "adds 0 c (append_refund_auto_approved u cs ord rid)"
  "adds 0 c (append_refund_approval_required u cs ord rid amount rule)"
  unfolding append_refund_auto_approved_def append_refund_approval_required_def
  by (intro adds_append; simp)+

lemma adds_persist_decided: "adds 1 c (persist_decided_refund u c ord amount decision)"
proof -
  have tail: "adds 0 c (case decision of
          None \<Rightarrow>
            bindM (transition_refund_status rid RS_PENDING_APPROVAL RS_APPROVED b True)
              (\<lambda>moved. thenM (ensureM moved e)
                (thenM (append_refund_auto_approved u c ord rid) (returnM v)))
        | Some d \<Rightarrow>
            thenM (append_refund_approval_required u c ord rid amt (approval_rule d)) (returnM (v' d)))" for rid b e v v' amt
    by (intro adds_cases adds_zero_seq adds_still adds_zero_basic adds_decision)
  show ?thesis
    unfolding persist_decided_refund_def
    by (rule adds_second adds_then(2), rule adds_still adds_zero_basic)+
      (rule adds_then(1) [OF adds_proposed tail])
qed

lemma adds_persist_proposal: "adds_by (\<lambda>x. owed (fst x)) c (persist_refund_proposal u c p amount)"
proof -
  have whole: "adds_by (\<lambda>x. owed (fst x)) c m" if "adds 1 c m" for m :: "(verdict \<times> 'x) op"
  proof (rule adds_by_adds [OF that])
    show "owed (fst x) \<le> 1" for x :: "verdict \<times> 'x" by (cases "fst x" rule: owed.cases) simp_all
  qed
  have decided: "adds_by (\<lambda>x. owed (fst x)) c (case linked of None \<Rightarrow> raiseM e
      | Some ord \<Rightarrow> persist_decided_refund u c ord amount d)" for linked d e
    by (rule whole, cases linked; simp only: option.case adds_raiseM adds_persist_decided)
  have spent: "adds_by (\<lambda>x. owed (fst x)) c (case linked of None \<Rightarrow> raiseM e
      | Some ord \<Rightarrow> bindM (liftM r) (\<lambda>_. persist_decided_refund u c ord amount d))" for linked r d e
    by (rule whole, cases linked; simp only: option.case adds_raiseM adds_second [OF adds_zero_basic(3) adds_persist_decided])
  have denied: "adds_by (\<lambda>x. owed (fst x)) c (thenM (append_action_denied u c (snd p) (rule, agent_reason, customer_reason))
      (returnM (Blocked (Deny rule agent_reason customer_reason), b, q)))" for rule agent_reason customer_reason b q
    by (rule whole, rule adds_then(1) [OF adds_denied adds_zero_basic(1)])
  have forced: "adds_by (\<lambda>x. owed (fst x)) c (returnM (Blocked (ForceEscalate rule reason), b, q))" for rule reason b q
    by (simp add: adds_by_def)
  have body: "adds_by (\<lambda>x. owed (fst x)) c (case x of
         Inr (Deny rule agent_reason customer_reason) \<Rightarrow>
           thenM (append_action_denied u c (snd p) (rule, agent_reason, customer_reason))
             (returnM (Blocked (Deny rule agent_reason customer_reason), False, [], Dec False 0 0, []))
       | Inr (ForceEscalate rule reason) \<Rightarrow>
           returnM (Blocked (ForceEscalate rule reason), False, [], Dec False 0 0, [])
       | Inr (RequireApproval rule reason) \<Rightarrow>
           (case linked of
              None \<Rightarrow> raiseM e
            | Some ord \<Rightarrow> persist_decided_refund u c ord amount (Some (RequireApproval rule reason)))
       | Inl auth \<Rightarrow>
           (case linked of
              None \<Rightarrow> raiseM e
            | Some ord \<Rightarrow>
                bindM (liftM (spend auth c p)) (\<lambda>_. persist_decided_refund u c ord amount None)))" for x linked e
  proof (cases x)
    case (Inl auth)
    then show ?thesis by (simp only: sum.case spent)
  next
    case (Inr b)
    then show ?thesis by (cases b; simp only: sum.case blocking.case denied decided forced)
  qed
  have pair: "adds_by g c (case x of (a, b) \<Rightarrow> k a b)" if "\<And>a b. adds_by g c (k a b)" for g x and k :: "'x \<Rightarrow> 'y \<Rightarrow> 'z op"
    using that by (cases x) simp
  show ?thesis
    unfolding persist_refund_proposal_def
    by (intro adds_by_second adds_still adds_zero_basic pair body)
qed

text \<open>After the intent is committed, the payment's own session starts from the same events.\<close>

lemma adds_record_executed: "adds 0 c (record_refund_executed_after_payment u cs ord rid amt ref lock)"
  unfolding record_refund_executed_after_payment_def append_refund_executed_def
  by (intro adds_rules adds_append; simp)

lemma adds_pay:
  "adds 0 c (thenM commit_refund_intent_before_payment
     (if auto then thenM (execute_payment_after_committed_intent u cs ord rid amt) (returnM v) else returnM v'))"
proof (rule addsI)
  fix w x w'
  assume run: "thenM commit_refund_intent_before_payment
     (if auto then thenM (execute_payment_after_committed_intent u cs ord rid amt) (returnM v) else returnM v') w = (Inr x, w')"
  define w0 where "w0 = w\<lparr>w_committed := w_db w\<rparr>"
  have rest: "(if auto then thenM (execute_payment_after_committed_intent u cs ord rid amt) (returnM v)
      else returnM v') w0 = (Inr x, w')"
    using run by (simp add: commit_refund_intent_before_payment_def commit_session_def w0_def)
  show "0 + agent_steps c (w_db w) \<le> agent_steps c (w_db w')"
  proof (cases auto)
    case True
    with rest obtain e where "execute_payment_after_committed_intent u cs ord rid amt w0 = (Inr e, w')"
      by (auto simp: thenM_eq_Inr)
    then obtain ref w1 where pay: "payment_refund rid amt w0 = (Inr ref, w1)"
      and rec: "session_begin (bindM (lock_customer_for_update u) (\<lambda>_.
         record_refund_executed_after_payment u cs ord rid amt ref False)) w1 = (Inr e, w')"
      unfolding execute_payment_after_committed_intent_def bindM_eq_Inr by blast
    have "preserves (\<lambda>v. w_committed v = w_db w) (payment_refund rid amt)"
      unfolding payment_refund_def by (intro preserves_rules preserves_modifyM) simp_all
    from preservesD [OF this _ pay] have "w_committed w1 = w_db w" by (simp add: w0_def)
    moreover obtain w2 where "bindM (lock_customer_for_update u) (\<lambda>_.
         record_refund_executed_after_payment u cs ord rid amt ref False) (w1\<lparr>w_db := w_committed w1\<rparr>) = (Inr e, w2)"
      and "w_db w' = w_db w2"
      using rec by (auto simp: session_begin_def split: prod.splits sum.splits)
    moreover have "adds 0 c (bindM (lock_customer_for_update u) (\<lambda>_.
         record_refund_executed_after_payment u cs ord rid amt ref False))"
      by (intro adds_zero_seq adds_still adds_record_executed)
    ultimately show ?thesis using addsD by fastforce
  qed (use rest in \<open>auto simp: w0_def\<close>)
qed

lemma adds_execute_proposal: "adds_by owed c (execute_propose_refund row c p amount)"
proof -
  let ?attempt = "tryM (begin_nested (persist_refund_proposal (ca_customer_id row) c p amount))"
  have final: "adds_by (\<lambda>v. owed v - (case r of Inl e \<Rightarrow> 0 | Inr x \<Rightarrow> owed (fst x))) c
      (case r of
         Inl (IntegrityError name) \<Rightarrow>
           (case linked of
              None \<Rightarrow> raiseM (IntegrityError name)
            | Some order_id \<Rightarrow>
                bindM (find_open_refund_for_order order_id) (\<lambda>open_refund.
                  if open_refund = None then raiseM (IntegrityError name)
                  else bindM (append_open_refund_race_denial (ca_customer_id row) c (snd p))
                         (\<lambda>deny. returnM (Blocked deny))))
       | Inl e \<Rightarrow> raiseM e
       | Inr (verdict, auto_approved, refund_id, amount, order_id) \<Rightarrow>
           (case verdict of
              Blocked (Deny _ _ _) \<Rightarrow> returnM verdict
            | Blocked (ForceEscalate _ _) \<Rightarrow> returnM verdict
            | _ \<Rightarrow>
                thenM commit_refund_intent_before_payment
                  (if auto_approved then
                     thenM (execute_payment_after_committed_intent (ca_customer_id row) c order_id refund_id amount)
                       (returnM Allow)
                   else returnM verdict)))" for r linked
  proof (cases r)
    case (Inl e)
    have race: "adds 1 c (bindM (append_open_refund_race_denial (ca_customer_id row) c (snd p)) (\<lambda>deny. returnM (Blocked deny)))"
      unfolding append_open_refund_race_denial_def
      by (intro adds_first adds_then(1) adds_denied adds_zero_basic)
    have le: "owed v - 0 \<le> 1" for v by (cases v rule: owed.cases) simp_all
    show ?thesis
      unfolding Inl sum.case
      by (rule adds_by_adds [OF _ le], cases e; simp only: error.case)
        (intro adds_raiseM adds_cases adds_second adds_still race)+
  next
    case (Inr x)
    obtain v auto rid amt ord where x: "x = (v, auto, rid, amt, ord)" by (cases x)
    have pay: "adds_by (\<lambda>z. owed z - 1) c (thenM commit_refund_intent_before_payment
       (if auto then thenM (execute_payment_after_committed_intent (ca_customer_id row) c ord rid amt) (returnM Allow)
        else returnM v))"
    proof (rule adds_by_adds [OF adds_pay])
      show "owed z - 1 \<le> 0" for z by (cases z rule: owed.cases) simp_all
    qed
    have stop: "adds_by (\<lambda>z. owed z - owed v) c (returnM v)" by (simp add: adds_by_def)
    show ?thesis
    proof (cases v)
      case Allow
      with pay show ?thesis unfolding Inr x by (cases auto) simp_all
    next
      case (Blocked b)
      with pay stop show ?thesis unfolding Inr x by (cases b; cases auto) (simp_all add: adds_by_def)
    qed
  qed
  have pair: "adds_by g c (case x of (a, b) \<Rightarrow> k a b)" if "\<And>a b. adds_by g c (k a b)" for g x and k :: "'x \<Rightarrow> 'y \<Rightarrow> 'z op"
    using that by (cases x) simp
  show ?thesis
    unfolding execute_propose_refund_def
    by (rule adds_by_second, rule adds_still, rule pair,
        rule adds_by_bindM [OF adds_by_savepoint [OF adds_persist_proposal] final])
qed

section \<open>Actions and turns\<close>

lemma adds_finalize: "adds (1 - owed v) c (finalize_propose_refund_verdict c v)"
  unfolding finalize_propose_refund_verdict_def
proof (cases v rule: owed.cases)
  case (1 rule reason)
  have "adds 1 c (thenM (escalate_case c EO_POLICY None None (Some (rule, reason))) (returnM v))" for v
    by (intro adds_then(1) adds_escalate_case(2) adds_zero_basic) simp
  with 1 show "adds (1 - owed v) c (case v of
        Blocked (ForceEscalate rule reason) \<Rightarrow>
          thenM (escalate_case c EO_POLICY None None (Some (rule, reason))) (returnM v)
      | _ \<Rightarrow> returnM v)" by simp
qed (simp_all add: adds_zero_basic)

lemma adds_from_owed:
  assumes "adds_by owed c m" and "\<And>v. adds (1 - owed v) c (k v)"
  shows "adds 1 c (bindM m k)"
proof (rule addsI)
  fix w y w' assume "bindM m k w = (Inr y, w')"
  then obtain v w1 where "m w = (Inr v, w1)" and "k v w1 = (Inr y, w')" by (auto simp: bindM_eq_Inr)
  with adds_byD [OF assms(1)] addsD [OF assms(2)]
  show "1 + agent_steps c (w_db w) \<le> agent_steps c (w_db w')" by fastforce
qed

lemma adds_execute_agent_action: "adds 1 c (execute_agent_action c p)"
proof -
  have denied: "adds 1 c (thenM (append_action_denied u c a d) (returnM v))" for u a d v
    by (intro adds_then(1) adds_denied adds_zero_basic)
  have forced: "adds 1 c (thenM (escalate_case c EO_POLICY None None fe) (returnM v))" for fe v
    by (intro adds_then(1) adds_escalate_case(2) adds_zero_basic) simp
  have approval: "adds 1 c (dispatch_require_approval_verdict a)" for a
    unfolding dispatch_require_approval_verdict_def by (cases a) (simp_all add: adds_raiseM)
  have allowed: "adds 1 c (thenM (case a of Escalate _ \<Rightarrow> escalate_case c EO_AGENT None (Some auth) None
      | _ \<Rightarrow> dispatch_allow_verdict auth row c p ctx) (returnM Allow))" for a auth row ctx
    by (intro adds_then(1) adds_zero_basic, cases a; simp only: action.case adds_dispatch_allow)
      (rule adds_escalate_case(2), simp)
  have other: "adds 1 c (bindM (load_rule_context_for_case c) (\<lambda>(row, ctx).
      bindM (liftM (authorise ctx p)) (\<lambda>r. case r of
          Inr (Deny rule agent_reason customer_reason) \<Rightarrow>
            thenM (append_action_denied (ca_customer_id row) c (snd p) (rule, agent_reason, customer_reason))
              (returnM (Blocked (Deny rule agent_reason customer_reason)))
        | Inr (ForceEscalate rule reason) \<Rightarrow>
            thenM (escalate_case c EO_POLICY None None (Some (rule, reason)))
              (returnM (Blocked (ForceEscalate rule reason)))
        | Inr (RequireApproval rule reason) \<Rightarrow> dispatch_require_approval_verdict (snd p)
        | Inl auth \<Rightarrow>
            thenM (case snd p of Escalate _ \<Rightarrow> escalate_case c EO_AGENT None (Some auth) None
                     | _ \<Rightarrow> dispatch_allow_verdict auth row c p ctx) (returnM Allow))))"
  proof (intro adds_second adds_still adds_cases(3) adds_zero_basic)
    show "adds 1 c (case r of
          Inr (Deny rule agent_reason customer_reason) \<Rightarrow>
            thenM (append_action_denied (ca_customer_id row) c (snd p) (rule, agent_reason, customer_reason))
              (returnM (Blocked (Deny rule agent_reason customer_reason)))
        | Inr (ForceEscalate rule reason) \<Rightarrow>
            thenM (escalate_case c EO_POLICY None None (Some (rule, reason)))
              (returnM (Blocked (ForceEscalate rule reason)))
        | Inr (RequireApproval rule reason) \<Rightarrow> dispatch_require_approval_verdict (snd p)
        | Inl auth \<Rightarrow>
            thenM (case snd p of Escalate _ \<Rightarrow> escalate_case c EO_AGENT None (Some auth) None
                     | _ \<Rightarrow> dispatch_allow_verdict auth row c p ctx) (returnM Allow))" for r row ctx
    proof (cases r)
      case (Inr b)
      show ?thesis unfolding Inr by (cases b; simp only: sum.case blocking.case denied forced approval)
    qed (simp only: sum.case allowed)
  qed
  have refund: "adds 1 c (bindM (find_case_by_id c) (\<lambda>found. case found of
            None \<Rightarrow> raiseM (CaseNotFoundError c)
          | Some row \<Rightarrow> bindM (execute_propose_refund row c p amount) (finalize_propose_refund_verdict c)))" for amount
    by (intro adds_second adds_still adds_cases adds_raiseM adds_from_owed adds_execute_proposal adds_finalize)
  show ?thesis
    unfolding execute_agent_action_def
  proof (cases "snd p")
    case (ProposeRefund amount)
    then show "adds 1 c (case snd p of
        ProposeRefund amount \<Rightarrow>
          bindM (find_case_by_id c) (\<lambda>found. case found of
            None \<Rightarrow> raiseM (CaseNotFoundError c)
          | Some row \<Rightarrow> bindM (execute_propose_refund row c p amount) (finalize_propose_refund_verdict c))
      | _ \<Rightarrow> bindM (load_rule_context_for_case c) (\<lambda>(row, ctx).
          bindM (liftM (authorise ctx p)) (\<lambda>r. case r of
            Inr (Deny rule agent_reason customer_reason) \<Rightarrow>
              thenM (append_action_denied (ca_customer_id row) c (snd p) (rule, agent_reason, customer_reason))
                (returnM (Blocked (Deny rule agent_reason customer_reason)))
          | Inr (ForceEscalate rule reason) \<Rightarrow>
              thenM (escalate_case c EO_POLICY None None (Some (rule, reason)))
                (returnM (Blocked (ForceEscalate rule reason)))
          | Inr (RequireApproval rule reason) \<Rightarrow> dispatch_require_approval_verdict (snd p)
          | Inl auth \<Rightarrow>
              thenM (case snd p of Escalate _ \<Rightarrow> escalate_case c EO_AGENT None (Some auth) None
                       | _ \<Rightarrow> dispatch_allow_verdict auth row c p ctx) (returnM Allow))))"
      by (simp only: action.case refund)
  qed (use other in \<open>simp_all only: action.case\<close>)
qed

lemma adds_handle_outcome: "adds 1 c (handle_outcome c ctx result)"
proof -
  have "adds 1 c (append_invalid_output u c raw err)" for u raw err
    unfolding append_invalid_output_def
    by (intro adds_second adds_zero_basic adds_cases(3) adds_attempt)
      (simp_all add: AGENT_ATTEMPT_OUTCOME_TYPES_def)
  then show ?thesis
    unfolding handle_outcome_def
    by (cases "mb_outcome result"; simp only: parse_outcome.case)
      (intro adds_then(1) adds_execute_agent_action adds_zero_basic)+
qed

lemma adds_sum: "(\<And>x. adds n c (f x)) \<Longrightarrow> (\<And>y. adds n c (g y)) \<Longrightarrow> adds n c (case r of Inl x \<Rightarrow> f x | Inr y \<Rightarrow> g y)"
  by (simp split: sum.splits)

lemma adds_call_model: "adds 0 c (call_model h c ctx)"
proof -
  have "adds 0 c (tryM (call_and_parse h prompt))" for prompt
  proof (rule addsI)
    fix w x w' assume run: "tryM (call_and_parse h prompt) w = (Inr x, w')"
    obtain r where "call_and_parse h prompt w = (r, w)" using call_and_parse_pure by blast
    with run show "0 + agent_steps c (w_db w) \<le> agent_steps c (w_db w')" by (simp add: tryM_def)
  qed
  then show ?thesis
    unfolding call_model_def invoke_model_boundary_def by (intro adds_rules adds_sum adds_escalate_case(1))
qed

text \<open>The step count the loop reads is the number of attempts in the log.\<close>

lemma agent_steps_counted:
  assumes "db_ok d" and "find (\<lambda>r. ca_id r = c) (db_cases d) = Some row"
    and "project_case_summary c (ca_customer_id row)
      (sort_key ev_seq (filter (\<lambda>e. ev_customer_id e = ca_customer_id row) (db_events d))) now = Inr s"
  shows "agent_steps c d \<le> cs_step_count s"
proof -
  let ?u = "ca_customer_id row"
  let ?P = "\<lambda>e. event_counts_as_agent_step e = Inr True"
  obtain st where "fold_state_agrees (case_fold_events c ?u
      (sort_key ev_seq (filter (\<lambda>e. ev_customer_id e = ?u) (db_events d)))) st" and "cs_step_count s = step_count st"
    by (rule project_case_summary_agrees [OF assms(3)])
  then have "cs_step_count s = length (filter (\<lambda>e. ?P e \<and> in_case_scope c ?u e \<and> ev_customer_id e = ?u) (db_events d))"
    by (simp add: fold_state_agrees_def case_fold_events_def filter_sort conj_commute conj_left_commute)
  moreover have "length (filter (counted c) xs) \<le>
      length (filter (\<lambda>e. ?P e \<and> in_case_scope c ?u e \<and> ev_customer_id e = ?u) xs)" if "set xs \<subseteq> set (db_events d)" for xs
    using that
  proof (induction xs)
    case (Cons e xs)
    have "ev_customer_id e = ?u" if "ev_case_id e = Some c"
    proof -
      have "event_ok d e" and unique: "distinct (map ca_id (db_cases d))"
        using assms(1) Cons.prems by (auto simp: db_ok_def references_ok_def keys_ok_def)
      with that obtain r where "r \<in> set (db_cases d)" "ca_id r = c" "ca_customer_id r = ev_customer_id e"
        by (auto simp: event_ok_def case_of_customer_def)
      moreover have "row \<in> set (db_cases d)" "ca_id row = c"
        using find_Some_mem [OF assms(2)] by simp_all
      ultimately show ?thesis using unique by (metis distinct_map inj_onD)
    qed
    with Cons show ?case by (auto simp: counted_def in_case_scope_def)
  qed simp
  ultimately show ?thesis by (simp add: agent_steps_def)
qed

lemma context_step_count:
  assumes "load_loop_prompt_context c w = (Inr ctx, w')" and "db_ok (w_db w)"
  shows "agent_steps c (w_db w) \<le> cs_step_count (lc_case_summary ctx)" and "w_db w' = w_db w"
proof -
  note load = assms(1) [unfolded load_loop_prompt_context_def]
  obtain row where row: "find (\<lambda>r. ca_id r = c) (db_cases (w_db w)) = Some row"
    using load by (auto simp: bindM_eq_Inr find_case_by_id_def split: option.splits)
  have quiet: "w_db w' = w_db w" if "load_disclosed_order_rows u ids w = (Inr rows, w')" for u ids rows
  proof -
    have "preserves (\<lambda>v. w_db v = w_db w) (load_disclosed_order_rows u ids)"
      unfolding load_disclosed_order_rows_def find_order_by_id_def by (intro preserves_rules)
    from preservesD [OF this refl that] show ?thesis .
  qed
  obtain now summary where "project_case_summary c (ca_customer_id row)
      (sort_key ev_seq (filter (\<lambda>e. ev_customer_id e = ca_customer_id row) (db_events (w_db w)))) now = Inr summary"
    and "lc_case_summary ctx = summary" and "w_db w' = w_db w"
    using load row
    by (auto simp: bindM_eq_Inr find_case_by_id_def find_customer_by_id_def load_customer_events_def clock_now_def
        Let_def split: option.splits dest: quiet)
  with agent_steps_counted [OF assms(2) row] show "agent_steps c (w_db w) \<le> cs_step_count (lc_case_summary ctx)"
    and "w_db w' = w_db w" by auto
qed

lemma continues_below_limit:
  assumes "loop_terminates_at_entry c s w = (Inr False, w')"
  shows "cs_step_count s < MAX_AGENT_STEPS" and "w' = w"
  using assms by (auto simp: loop_terminates_at_entry_def thenM_eq_Inr split: if_splits)

lemma loop_turn_progress:
  assumes "loop_turn h c acc w = (Inr (Continue peers), w')" and "world_good w"
  shows "agent_steps c (w_db w) < agent_steps c (w_db w')" and "agent_steps c (w_db w) < MAX_AGENT_STEPS"
    and "world_good w'"
proof -
  show "world_good w'" using hoareD(1) [OF safe_loop_turn assms(2,1)] .
  from assms(1) obtain row w0 where "find_case_by_id c w = (Inr (Some row), w0)"
    and run: "bindM (expire_due_refunds_for_customer (ca_customer_id row)) (\<lambda>reopened.
       let peers = accumulate_peer_case_ids c reopened acc in
       bindM (load_loop_prompt_context c) (\<lambda>ctx.
       bindM (loop_terminates_at_entry c (lc_case_summary ctx)) (\<lambda>terminates.
         if terminates then returnM (Finished peers)
         else bindM (call_model h c ctx) (\<lambda>boundary_result.
           case boundary_result of
             None \<Rightarrow> returnM (Finished peers)
           | Some result \<Rightarrow> thenM (handle_outcome c ctx result) (returnM (Continue peers)))))) w0
      = (Inr (Continue peers), w')"
    unfolding loop_turn_def by (auto simp: bindM_eq_Inr split: option.splits)
  moreover have "w0 = w" using calculation(1) by (simp add: find_case_by_id_def)
  ultimately obtain reopened w1 ctx w2 b w3 where
      expire: "expire_due_refunds_for_customer (ca_customer_id row) w = (Inr reopened, w1)"
    and ctx: "load_loop_prompt_context c w1 = (Inr ctx, w2)"
    and entry: "loop_terminates_at_entry c (lc_case_summary ctx) w2 = (Inr b, w3)"
    and rest: "(if b then returnM (Finished (accumulate_peer_case_ids c reopened acc))
         else bindM (call_model h c ctx) (\<lambda>boundary_result.
           case boundary_result of
             None \<Rightarrow> returnM (Finished (accumulate_peer_case_ids c reopened acc))
           | Some result \<Rightarrow> thenM (handle_outcome c ctx result)
               (returnM (Continue (accumulate_peer_case_ids c reopened acc))))) w3 = (Inr (Continue peers), w')"
    unfolding Let_def bindM_eq_Inr by blast
  have not: "b = False" using rest by (cases b) auto
  with rest obtain r result w4 w5 where model: "call_model h c ctx w3 = (Inr (Some result), w4)"
    and effect: "handle_outcome c ctx result w4 = (Inr r, w')"
    by (auto simp: bindM_eq_Inr thenM_eq_Inr split: option.splits)
  have "world_good w1" using hoareD(1) [OF safe_expire_due_refunds assms(2) expire] .
  then have "db_ok (w_db w1)" by (simp add: world_good_def good_def)
  note steps = context_step_count [OF ctx this]
  note entered = continues_below_limit [OF entry [unfolded not]]
  show "agent_steps c (w_db w) < MAX_AGENT_STEPS"
    using addsD [OF adds_expire expire, of c] steps(1) entered(1) by linarith
  show "agent_steps c (w_db w) < agent_steps c (w_db w')"
    using addsD [OF adds_expire expire, of c] steps(2) entered(2) addsD [OF adds_call_model model]
      addsD [OF adds_handle_outcome effect] by simp
qed

text \<open>Turns that do not suffice leave at least as many attempts as there were turns.\<close>

lemma loop_turns_bound:
  assumes "loop_turns turns h c acc w = (Inr None, w')" and "world_good w" and "0 < turns"
  shows "agent_steps c (w_db w) + turns \<le> MAX_AGENT_STEPS"
  using assms
proof (induction turns arbitrary: acc w)
  case (Suc turns)
  from Suc.prems(1) obtain peers w1 where turn: "loop_turn h c acc w = (Inr (Continue peers), w1)"
    and rest: "loop_turns turns h c peers w1 = (Inr None, w')"
    by (auto simp: bindM_eq_Inr split: turn.splits) (metis turn.exhaust)
  note progress = loop_turn_progress [OF turn Suc.prems(2)]
  show ?case
  proof (cases turns)
    case (Suc k)
    with Suc.IH [OF rest progress(3)] progress(1) show ?thesis by simp
  qed (use progress(2) in simp)
qed simp

text \<open>Further turns change nothing once a run has ended.\<close>

lemma loop_turns_more:
  assumes "fst (loop_turns turns h c acc w) \<noteq> Inr None" and "turns \<le> turns'"
  shows "loop_turns turns' h c acc w = loop_turns turns h c acc w"
  using assms
proof (induction turns arbitrary: turns' acc w)
  case (Suc turns)
  from Suc.prems(2) obtain k where k: "turns' = Suc k" "turns \<le> k" by (cases turns') auto
  show ?case
  proof (cases "loop_turn h c acc w")
    case (Pair r w1)
    show ?thesis
    proof (cases "\<exists>peers. r = Inr (Continue peers)")
      case True
      then obtain peers where "r = Inr (Continue peers)" by blast
      with Pair k Suc.IH [of peers w1 k] Suc.prems(1) show ?thesis by (simp add: bindM_def)
    next
      case False
      with Pair k show ?thesis by (auto simp: bindM_def split: sum.splits turn.splits)
    qed
  qed
qed simp

lemma run_agent_loop_ends:
  assumes "world_good w" and "MAX_AGENT_STEPS < turns"
  shows "fst (run_agent_loop turns h c w) \<noteq> Inr None"
proof
  assume "fst (run_agent_loop turns h c w) = Inr None"
  then obtain w' where "loop_turns turns h c [] w = (Inr None, w')"
    by (cases "run_agent_loop turns h c w") (auto simp: run_agent_loop_def)
  from loop_turns_bound [OF this assms(1)] assms(2) show False by simp
qed

lemma run_agent_loop_fuel:
  assumes "world_good w" and "MAX_AGENT_STEPS < turns" and "turns \<le> turns'"
  shows "run_agent_loop turns' h c w = run_agent_loop turns h c w"
  using loop_turns_more [OF run_agent_loop_ends [OF assms(1,2), unfolded run_agent_loop_def] assms(3)]
  by (simp add: run_agent_loop_def)

end
