(* ===== verification/Routes.thy ===== *)
theory Routes
  imports Loop
begin

text \<open>
  The HTTP layer: request and response models (\<open>api/schemas.py\<close>) and the routes
  (\<open>api/routes.py\<close>).  A handler's answer is an \<open>http_response\<close>; \<open>HTTPException\<close> is an answer
  with its status code, every other exception (status 500) stays an exception.  \<open>fuel\<close> bounds the
  turns of each loop run and the runs of a queue; \<open>None\<close> is a handler that ran out of it.
\<close>

section \<open>Schemas\<close>

definition HTTP_ENVELOPE_FROM_MAX_LENGTH :: nat where "HTTP_ENVELOPE_FROM_MAX_LENGTH = 320"
definition HTTP_MESSAGE_ID_MAX_LENGTH :: nat where "HTTP_MESSAGE_ID_MAX_LENGTH = 998"
definition HTTP_INBOUND_SUBJECT_MAX_LENGTH :: nat where "HTTP_INBOUND_SUBJECT_MAX_LENGTH = 998"
definition HTTP_INBOUND_BODY_MAX_LENGTH :: nat where "HTTP_INBOUND_BODY_MAX_LENGTH = 100000"
definition HTTP_REFUND_ID_MAX_LENGTH :: nat where "HTTP_REFUND_ID_MAX_LENGTH = 64"
definition HTTP_OPERATOR_ID_MAX_LENGTH :: nat where "HTTP_OPERATOR_ID_MAX_LENGTH = 128"
definition HTTP_OPERATOR_REASON_MAX_LENGTH :: nat where "HTTP_OPERATOR_REASON_MAX_LENGTH = 2000"
definition HTTP_VERIFICATION_TOKEN_MAX_LENGTH :: nat where "HTTP_VERIFICATION_TOKEN_MAX_LENGTH = 256"

record inbound_email_request =
  ie_envelope_from :: pystr
  ie_message_id :: pystr
  ie_subject :: pystr
  ie_body :: pystr

record operator_approve_request =
  oa_refund_id :: pystr
  oa_operator_id :: pystr

record operator_reject_request =
  oj_refund_id :: pystr
  oj_operator_id :: pystr
  oj_reason :: pystr

definition inbound_email_request_valid :: "inbound_email_request \<Rightarrow> bool" where
  "inbound_email_request_valid r \<longleftrightarrow>
     length_between 1 HTTP_ENVELOPE_FROM_MAX_LENGTH (ie_envelope_from r) \<and>
     length_between 1 HTTP_MESSAGE_ID_MAX_LENGTH (ie_message_id r) \<and>
     length_between 1 HTTP_INBOUND_SUBJECT_MAX_LENGTH (ie_subject r) \<and>
     length_between 1 HTTP_INBOUND_BODY_MAX_LENGTH (ie_body r)"

definition operator_approve_request_valid :: "operator_approve_request \<Rightarrow> bool" where
  "operator_approve_request_valid r \<longleftrightarrow>
     length_between 1 HTTP_REFUND_ID_MAX_LENGTH (oa_refund_id r) \<and>
     length_between 1 HTTP_OPERATOR_ID_MAX_LENGTH (oa_operator_id r)"

definition operator_reject_request_valid :: "operator_reject_request \<Rightarrow> bool" where
  "operator_reject_request_valid r \<longleftrightarrow>
     length_between 1 HTTP_REFUND_ID_MAX_LENGTH (oj_refund_id r) \<and>
     length_between 1 HTTP_OPERATOR_ID_MAX_LENGTH (oj_operator_id r) \<and>
     length_between 1 HTTP_OPERATOR_REASON_MAX_LENGTH (oj_reason r)"

definition verification_confirm_request_valid :: "pystr \<Rightarrow> bool" where
  "verification_confirm_request_valid token = length_between 1 HTTP_VERIFICATION_TOKEN_MAX_LENGTH token"

record case_event_response =
  ce_resp_seq :: int
  ce_resp_type :: pystr
  ce_resp_actor :: pystr
  ce_resp_channel :: pystr

record operator_pending_refund_response =
  op_refund_id :: pystr
  op_case_id :: pystr
  op_order_id :: pystr
  op_amount :: decimal
  op_approval_expires_at :: datetime

datatype http_response =
    InboundEmailResponse pystr case_status "case_event_response list"
  | UnknownSenderResponse pystr
  | OperatorActionResponse pystr pystr refund_status
  | OperatorConflictResponse pystr refund_status
  | OperatorPendingResponse "operator_pending_refund_response list"
  | VerificationConfirmResponse pystr "pystr list"
  | VerificationExpiredResponse pystr pystr
  | VerificationNotFound

fun http_status :: "http_response \<Rightarrow> nat" where
  "http_status (UnknownSenderResponse _) = 202"
| "http_status (OperatorConflictResponse _ _) = 409"
| "http_status (VerificationExpiredResponse _ _) = 400"
| "http_status VerificationNotFound = 404"
| "http_status _ = 200"

section \<open>Running case loops\<close>

definition case_status_now :: "pystr \<Rightarrow> pystr \<Rightarrow> case_status op" where
  "case_status_now case_id customer_id =
     bindM (load_customer_events customer_id) (\<lambda>events.
     bindM clock_now (\<lambda>now.
     bindM (liftM (project_case_summary case_id customer_id events now)) (\<lambda>summary.
       returnM (cs_status summary))))"

definition case_may_run_agent_loop :: "pystr \<Rightarrow> pystr \<Rightarrow> bool op" where
  "case_may_run_agent_loop case_id customer_id =
     bindM (case_status_now case_id customer_id) (\<lambda>status. returnM (status \<noteq> CS_CLOSED))"

definition case_is_open :: "pystr \<Rightarrow> pystr \<Rightarrow> bool op" where
  "case_is_open case_id customer_id =
     bindM (case_status_now case_id customer_id) (\<lambda>status. returnM (status = CS_OPEN))"

text \<open>Appending the identifiers that have not been seen; \<open>seen\<close> is a list used as a set.\<close>

definition enqueue :: "pystr list \<Rightarrow> pystr list \<times> pystr list \<Rightarrow> pystr list \<times> pystr list" where
  "enqueue case_ids queue =
     foldl (\<lambda>(pending, seen) case_id. if case_id \<in> set seen then (pending, seen)
         else (pending @ [case_id], seen @ [case_id])) queue case_ids"

text \<open>The guard of one queue entry, in a session of its own.\<close>

definition queued_case_runs :: "pystr \<Rightarrow> bool op" where
  "queued_case_runs case_id =
     session_scope (bindM (find_case_by_id case_id) (\<lambda>found. case found of
       None \<Rightarrow> returnM False
     | Some case_row \<Rightarrow> case_may_run_agent_loop case_id (ca_customer_id case_row)))"

definition run_queued_case :: "nat \<Rightarrow> host \<Rightarrow> pystr \<Rightarrow> pystr list option op" where
  "run_queued_case turns h case_id =
     session_scope (bindM (run_agent_loop turns h case_id) (\<lambda>peers.
       thenM commit_session (returnM peers)))"

text \<open>
  The \<open>while\<close> loop over the queue.  The code keeps an index into a list that only grows; here
  the entries before the index are dropped.
\<close>

primrec drain_queue :: "nat \<Rightarrow> nat \<Rightarrow> host \<Rightarrow> pystr list \<times> pystr list \<Rightarrow> unit option op" where
  "drain_queue 0 turns h queue = (if fst queue = [] then returnM (Some ()) else returnM None)"
| "drain_queue (Suc runs) turns h queue =
     (case fst queue of
        [] \<Rightarrow> returnM (Some ())
      | case_id # rest \<Rightarrow>
          bindM (queued_case_runs case_id) (\<lambda>may_run.
            if \<not> may_run then drain_queue runs turns h (rest, snd queue)
            else bindM (run_queued_case turns h case_id) (\<lambda>peers. case peers of
                None \<Rightarrow> returnM None
              | Some peer_ids \<Rightarrow> drain_queue runs turns h (enqueue peer_ids (rest, snd queue)))))"

definition drain_agent_loop_queue :: "nat \<times> nat \<Rightarrow> host \<Rightarrow> pystr list \<Rightarrow> unit option op" where
  "drain_agent_loop_queue fuel h initial_case_ids =
     drain_queue (fst fuel) (snd fuel) h (enqueue initial_case_ids ([], []))"

definition resume_cases_in_order :: "nat \<times> nat \<Rightarrow> host \<Rightarrow> pystr list \<Rightarrow> pystr option \<Rightarrow> unit option op" where
  "resume_cases_in_order fuel h reopened_case_ids also_resume =
     drain_agent_loop_queue fuel h
       (case also_resume of
          Some case_id \<Rightarrow>
            (if case_id \<in> set reopened_case_ids then reopened_case_ids else reopened_case_ids @ [case_id])
        | None \<Rightarrow> reopened_case_ids)"

definition resume_open_case :: "nat \<times> nat \<Rightarrow> host \<Rightarrow> pystr \<Rightarrow> unit option op" where
  "resume_open_case fuel h case_id = drain_agent_loop_queue fuel h [case_id]"

definition answered :: "http_response \<Rightarrow> unit option \<Rightarrow> http_response option" where
  "answered response finished = map_option (\<lambda>_. response) finished"

section \<open>Inbound email\<close>

definition create_case_for_inbound_email :: "pystr \<Rightarrow> pystr \<Rightarrow> pystr \<Rightarrow> pystr \<Rightarrow> pystr op" where
  "create_case_for_inbound_email customer_id message_id subject body =
     bindM ids_case_id (\<lambda>new_case_id.
     bindM clock_now (\<lambda>now.
     thenM (insert_case \<lparr>ca_id = new_case_id, ca_customer_id = customer_id,
              ca_opening_message_id = message_id, ca_created_at = now\<rparr>)
    (thenM (append_event ET_CASE_OPENED customer_id (Some new_case_id) None Actor_SYSTEM Channel_INTERNAL
              (CaseOpenedPayload message_id))
    (thenM (append_event ET_EMAIL_RECEIVED customer_id (Some new_case_id) None Actor_CUSTOMER Channel_EMAIL
              (EmailReceivedPayload message_id subject body))
       (returnM new_case_id)))))"

definition resolve_inbound_case :: "pystr \<Rightarrow> pystr \<Rightarrow> pystr \<Rightarrow> pystr \<Rightarrow> (pystr \<times> bool) op" where
  "resolve_inbound_case customer_id message_id subject body =
     bindM (find_case_for_customer_by_opening_message_id customer_id message_id) (\<lambda>existing.
       case existing of
         Some existing_case \<Rightarrow>
           bindM (case_is_open (ca_id existing_case) customer_id) (\<lambda>is_open.
             returnM (ca_id existing_case, is_open))
       | None \<Rightarrow>
           bindM (tryM (begin_nested (create_case_for_inbound_email customer_id message_id subject body)))
             (\<lambda>attempt. case attempt of
               Inr new_case_id \<Rightarrow> returnM (new_case_id, True)
             | Inl (IntegrityError name) \<Rightarrow>
                 bindM (find_case_for_customer_by_opening_message_id customer_id message_id) (\<lambda>raced.
                   case raced of
                     None \<Rightarrow> raiseM (IntegrityError name)
                   | Some raced_case \<Rightarrow>
                       bindM (case_is_open (ca_id raced_case) customer_id) (\<lambda>is_open.
                         returnM (ca_id raced_case, is_open)))
             | Inl e \<Rightarrow> raiseM e))"

definition case_event_response_of :: "stored_event \<Rightarrow> case_event_response" where
  "case_event_response_of e =
     \<lparr>ce_resp_seq = ev_seq e, ce_resp_type = event_type_value (ev_event_type e),
      ce_resp_actor = actor_value (ev_actor e), ce_resp_channel = channel_value (ev_channel e)\<rparr>"

definition build_inbound_email_response :: "pystr \<Rightarrow> pystr \<Rightarrow> http_response op" where
  "build_inbound_email_response case_id customer_id =
     bindM (load_case_events case_id) (\<lambda>case_events.
     bindM (case_status_now case_id customer_id) (\<lambda>status.
       returnM (InboundEmailResponse case_id status (map case_event_response_of case_events))))"

text \<open>The transaction of the handler: the customer, the case and what to resume, or no customer.\<close>

definition route_inbound_email ::
  "inbound_email_request \<Rightarrow> (pystr \<times> pystr \<times> bool \<times> pystr list) option op" where
  "route_inbound_email request =
     session_begin (bindM (find_customer_by_email (ie_envelope_from request)) (\<lambda>found. case found of
       None \<Rightarrow> thenM (send_unknown_sender_reply (ie_envelope_from request)) (returnM None)
     | Some customer_row \<Rightarrow>
         bindM (expire_due_refunds_for_customer (cu_id customer_row)) (\<lambda>reopened_case_ids.
         bindM (resolve_inbound_case (cu_id customer_row) (ie_message_id request) (ie_subject request)
                  (ie_body request)) (\<lambda>(case_id, should_run_loop).
           returnM (Some (cu_id customer_row, case_id, should_run_loop, reopened_case_ids))))))"

definition post_inbound_email :: "nat \<times> nat \<Rightarrow> host \<Rightarrow> inbound_email_request \<Rightarrow> http_response option op" where
  "post_inbound_email fuel h request =
     bindM (route_inbound_email request) (\<lambda>routed. case routed of
       None \<Rightarrow> returnM (Some (UnknownSenderResponse (lit ''unknown_sender'')))
     | Some (customer_id, case_id, should_run_loop, reopened_case_ids) \<Rightarrow>
         bindM (drain_agent_loop_queue fuel h
                  (if should_run_loop \<and> case_id \<notin> set reopened_case_ids
                   then reopened_case_ids @ [case_id] else reopened_case_ids)) (\<lambda>finished.
         bindM (session_scope (build_inbound_email_response case_id customer_id)) (\<lambda>response.
           returnM (answered response finished))))"

section \<open>Operators\<close>

definition operator_pending_refund_of :: "refund_row \<Rightarrow> operator_pending_refund_response list" where
  "operator_pending_refund_of r =
     (case rf_approval_expires_at r of
        None \<Rightarrow> []
      | Some expires_at \<Rightarrow>
          [\<lparr>op_refund_id = rf_id r, op_case_id = rf_case_id r, op_order_id = rf_order_id r,
            op_amount = rf_amount r, op_approval_expires_at = expires_at\<rparr>])"

definition get_operator_pending :: "http_response op" where
  "get_operator_pending =
     bindM clock_now (\<lambda>now.
     bindM (session_scope (list_active_pending_refunds now)) (\<lambda>rows.
       returnM (OperatorPendingResponse (concat (map operator_pending_refund_of rows)))))"

text \<open>What both decisions do with their outcome, after their transaction has committed.\<close>

definition answer_operator_decision ::
  "nat \<times> nat \<Rightarrow> host \<Rightarrow> operator_outcome \<Rightarrow> http_response option op" where
  "answer_operator_decision fuel h outcome =
     (if oo_kind outcome = OR_CONFLICT then
        bindM (resume_cases_in_order fuel h (oo_reopened_case_ids outcome) None) (\<lambda>finished.
          returnM (answered (OperatorConflictResponse (oo_refund_id outcome) (oo_refund_status outcome)) finished))
      else
        bindM (resume_cases_in_order fuel h (oo_reopened_case_ids outcome) (Some (oo_case_id outcome)))
          (\<lambda>finished. returnM (answered (OperatorActionResponse (oo_case_id outcome) (oo_refund_id outcome)
               (oo_refund_status outcome)) finished)))"

definition post_operator_approve ::
  "nat \<times> nat \<Rightarrow> host \<Rightarrow> operator_approve_request \<Rightarrow> http_response option op" where
  "post_operator_approve fuel h request =
     bindM (session_begin (approve_refund (oa_refund_id request) (oa_operator_id request)))
       (answer_operator_decision fuel h)"

definition post_operator_reject ::
  "nat \<times> nat \<Rightarrow> host \<Rightarrow> operator_reject_request \<Rightarrow> http_response option op" where
  "post_operator_reject fuel h request =
     bindM (session_begin (reject_refund (oj_refund_id request) (oj_operator_id request) (oj_reason request)))
       (answer_operator_decision fuel h)"

section \<open>Verification\<close>

definition post_verification_confirm :: "nat \<times> nat \<Rightarrow> host \<Rightarrow> pystr \<Rightarrow> http_response option op" where
  "post_verification_confirm fuel h token =
     bindM (session_begin (confirm_verification token)) (\<lambda>outcome.
       case vo_kind outcome of
         VR_NOT_FOUND \<Rightarrow> returnM (Some VerificationNotFound)
       | VR_EXPIRED \<Rightarrow>
           bindM (case vo_issuing_case_id outcome of
               None \<Rightarrow> returnM (Some ())
             | Some issuing_case_id \<Rightarrow> resume_open_case fuel h issuing_case_id) (\<lambda>finished.
             case (vo_customer_id outcome, vo_issuing_case_id outcome) of
               (Some customer_id, Some issuing_case_id) \<Rightarrow>
                 returnM (answered (VerificationExpiredResponse customer_id issuing_case_id) finished)
             | _ \<Rightarrow> raiseM (RuntimeError (lit ''Expired verification outcome missing resume identifiers.'')))
       | VR_VERIFIED \<Rightarrow>
           (case vo_customer_id outcome of
              None \<Rightarrow> raiseM (RuntimeError (lit ''Verified outcome missing customer identifier.''))
            | Some customer_id \<Rightarrow>
                bindM (drain_agent_loop_queue fuel h (vo_open_case_ids outcome)) (\<lambda>finished.
                  returnM (answered (VerificationConfirmResponse customer_id (vo_open_case_ids outcome)) finished))))"

end
