(* ===== verification/System.thy ===== *)
theory System
  imports Loop_Safety Routes Seed
begin

text \<open>
  The whole system as a transition relation: a step is one HTTP request handled from beginning to
  end with any model behind the gateway, or the passing of time.  The invariant holds in every
  state reachable from the seeded database.
\<close>

section \<open>Requests end between transactions\<close>

text \<open>
  A request starts and ends with no open session, so an exception leaves the same invariant as a
  normal return.
\<close>

abbreviation sound :: "'a op \<Rightarrow> bool" where
  "sound m \<equiv> hoare world_good m (\<lambda>_. world_good) world_good"

named_theorems sound_rules \<open>operations that keep the invariant whether they return or raise\<close>

lemma sound_returnM [sound_rules]: "sound (returnM x)"
  by (rule hoare_returnM)

lemma sound_raiseM [sound_rules]: "sound (raiseM e)"
  by (rule hoare_raiseM)

lemma sound_bindM [sound_rules]: "sound m \<Longrightarrow> (\<And>x. sound (f x)) \<Longrightarrow> sound (bindM m f)"
  by (rule hoare_bindM)

lemma sound_cases [sound_rules]:
  "sound m \<Longrightarrow> sound n \<Longrightarrow> sound (if b then m else n)"
  "sound m \<Longrightarrow> (\<And>x. sound (f x)) \<Longrightarrow> sound (case r of None \<Rightarrow> m | Some x \<Rightarrow> f x)"
  "(\<And>x y. sound (g x y)) \<Longrightarrow> sound (case p of (x, y) \<Rightarrow> g x y)"
  "sound m \<Longrightarrow> (\<And>c cs. sound (k c cs)) \<Longrightarrow> sound (case xs of [] \<Rightarrow> m | c # cs \<Rightarrow> k c cs)"
  by (simp_all split: option.splits prod.splits list.splits)

lemma sound_clock [sound_rules]: "sound clock_now"
  by (simp add: clock_now_def hoare_getM)

lemma sound_session_begin [sound_rules]: "safe m \<Longrightarrow> sound (session_begin m)"
  by (rule hoare_pre [OF hoare_session_begin]) (auto intro: world_good_committed)

lemma sound_session_scope [sound_rules]:
  assumes "safe m"
  shows "sound (session_scope m)"
proof -
  have start: "world_good (w\<lparr>w_db := w_committed w\<rparr>)" if "world_good w" for w
    using that by (simp add: world_good_def)
  have final: "world_good (w\<lparr>w_db := w_committed w\<rparr>)" if "committed_good w" for w
    using that by (simp add: world_good_def committed_good_def)
  show ?thesis
  proof (rule hoareI)
    fix w x w'
    assume "world_good w" and "session_scope m w = (Inr x, w')"
    then show "world_good w'"
      using hoareD(1) [OF assms start] final world_good_committed
      by (fastforce simp: session_scope_def split: prod.splits)
  next
    fix w e w'
    assume "world_good w" and "session_scope m w = (Inl e, w')"
    then show "world_good w'"
      using hoareD(2) [OF assms start] final
      by (fastforce simp: session_scope_def split: prod.splits)
  qed
qed

section \<open>The handlers keep the invariant\<close>

lemma safe_case_status_now [safe_rules]: "safe (case_status_now case_id u)"
  unfolding case_status_now_def by (intro safe_rules)

lemma safe_case_checks [safe_rules]:
  "safe (case_may_run_agent_loop case_id u)" "safe (case_is_open case_id u)"
  unfolding case_may_run_agent_loop_def case_is_open_def by (intro safe_rules)+

lemma sound_queued_case_runs [sound_rules]: "sound (queued_case_runs case_id)"
  unfolding queued_case_runs_def by (intro sound_rules safe_rules)

lemma sound_run_queued_case [sound_rules]: "sound (run_queued_case turns h case_id)"
  unfolding run_queued_case_def by (intro sound_rules safe_rules)

lemma sound_drain_queue [sound_rules]: "sound (drain_queue runs turns h queue)"
proof (induction runs arbitrary: queue)
  case 0
  show ?case unfolding drain_queue.simps by (intro sound_rules)
next
  case (Suc runs)
  show ?case unfolding drain_queue.simps by (intro sound_rules Suc)
qed

lemma sound_drain_agent_loop_queue [sound_rules]: "sound (drain_agent_loop_queue fuel h ids)"
  unfolding drain_agent_loop_queue_def by (rule sound_drain_queue)

lemma sound_resume [sound_rules]:
  "sound (resume_cases_in_order fuel h ids also)" "sound (resume_open_case fuel h case_id)"
  unfolding resume_cases_in_order_def resume_open_case_def by (rule sound_drain_agent_loop_queue)+

lemma quiet_create_case: "preserves (unmoved c k) (create_case_for_inbound_email u mid subject body)"
  unfolding create_case_for_inbound_email_def by (intro preserves_rules quiet_rules)

lemma safe_create_case [safe_rules]: "safe (create_case_for_inbound_email u mid subject body)"
  unfolding create_case_for_inbound_email_def by (intro safe_rules safe_append) simp_all

lemma safe_resolve_inbound_case [safe_rules]: "safe (resolve_inbound_case u mid subject body)"
proof -
  have attempt: "safe (tryM (begin_nested (create_case_for_inbound_email u mid subject body)))"
    by (rule hoare_weaken [OF hoare_savepoint [OF safe_create_case quiet_create_case]])
      (auto split: sum.splits)
  have continue: "safe (case attempt of
               Inr new_case_id \<Rightarrow> returnM (new_case_id, True)
             | Inl (IntegrityError name) \<Rightarrow>
                 bindM (find_case_for_customer_by_opening_message_id u mid) (\<lambda>raced.
                   case raced of
                     None \<Rightarrow> raiseM (IntegrityError name)
                   | Some raced_case \<Rightarrow>
                       bindM (case_is_open (ca_id raced_case) u) (\<lambda>is_open.
                         returnM (ca_id raced_case, is_open)))
             | Inl e \<Rightarrow> raiseM e)" for attempt
  proof (cases attempt)
    case (Inl e)
    then show ?thesis by (cases e; simp only: sum.case error.case; intro safe_rules)
  next
    case (Inr x)
    then show ?thesis by (simp only: sum.case) (rule safe_returnM)
  qed
  show ?thesis
    unfolding resolve_inbound_case_def by (intro safe_bindM safe_cases safe_lookups safe_case_checks safe_returnM attempt continue)
qed

lemma safe_unknown_sender [safe_rules]: "safe (send_unknown_sender_reply email)"
  unfolding send_unknown_sender_reply_def by (rule safe_basic)

lemma sound_route_inbound_email [sound_rules]: "sound (route_inbound_email request)"
  unfolding route_inbound_email_def by (intro sound_rules safe_rules)

lemma safe_build_response [safe_rules]: "safe (build_inbound_email_response case_id u)"
  unfolding build_inbound_email_response_def by (intro safe_rules)

lemma safe_list_pending [safe_rules]: "safe (list_active_pending_refunds now)"
  unfolding list_active_pending_refunds_def by (intro safe_rules)

lemma sound_answer_operator_decision [sound_rules]: "sound (answer_operator_decision fuel h outcome)"
  unfolding answer_operator_decision_def by (intro sound_rules)

lemma sound_handlers [sound_rules]:
  "sound (post_inbound_email fuel h inbound)" "sound get_operator_pending"
  "sound (post_operator_approve fuel h approval)" "sound (post_operator_reject fuel h rejection)"
proof -
  show "sound (post_inbound_email fuel h inbound)"
    unfolding post_inbound_email_def by (intro sound_rules safe_rules)
  show "sound get_operator_pending"
    unfolding get_operator_pending_def by (intro sound_rules safe_rules)
  show "sound (post_operator_approve fuel h approval)"
    unfolding post_operator_approve_def by (intro sound_rules safe_rules)
  show "sound (post_operator_reject fuel h rejection)"
    unfolding post_operator_reject_def by (intro sound_rules safe_rules)
qed

lemma sound_post_verification_confirm [sound_rules]: "sound (post_verification_confirm fuel h token)"
proof -
  have "sound (case vo_kind outcome of
         VR_NOT_FOUND \<Rightarrow> returnM (Some VerificationNotFound)
       | VR_EXPIRED \<Rightarrow>
           bindM (case vo_issuing_case_id outcome of
               None \<Rightarrow> returnM (Some ())
             | Some issuing_case_id \<Rightarrow> resume_open_case fuel h issuing_case_id) (\<lambda>finished.
             case (vo_customer_id outcome, vo_issuing_case_id outcome) of
               (Some customer_id, Some issuing_case_id) \<Rightarrow>
                 returnM (answered (VerificationExpiredResponse customer_id issuing_case_id) finished)
             | _ \<Rightarrow> raiseM (RuntimeError (lit ''Expired verification outcome missing resume identifiers.'')))
       | VR_VERIFIED \<Rightarrow>
           (case vo_customer_id outcome of
              None \<Rightarrow> raiseM (RuntimeError (lit ''Verified outcome missing customer identifier.''))
            | Some customer_id \<Rightarrow>
                bindM (drain_agent_loop_queue fuel h (vo_open_case_ids outcome)) (\<lambda>finished.
                  returnM (answered (VerificationConfirmResponse customer_id (vo_open_case_ids outcome)) finished))))"
    for outcome
    by (cases "vo_kind outcome"; cases "vo_customer_id outcome"; cases "vo_issuing_case_id outcome")
      (simp_all only: verification_result_kind.case option.case prod.case, (intro sound_rules)+)
  then show ?thesis
    unfolding post_verification_confirm_def by (intro sound_bindM sound_session_begin safe_confirm_verification)
qed

section \<open>Steps\<close>

text \<open>
  The state after a request; what is answered does not matter here.  Time only moves forward or
  is overridden by a test clock, which may set it freely.
\<close>

inductive step :: "world \<Rightarrow> world \<Rightarrow> bool" where
  inbound: "post_inbound_email fuel h request w = (result, w') \<Longrightarrow> step w w'"
| pending: "get_operator_pending w = (shown, w') \<Longrightarrow> step w w'"
| approve: "post_operator_approve fuel h approval w = (result, w') \<Longrightarrow> step w w'"
| reject: "post_operator_reject fuel h rejection w = (result, w') \<Longrightarrow> step w w'"
| confirm: "post_verification_confirm fuel h token w = (result, w') \<Longrightarrow> step w w'"
| clock: "step w (w\<lparr>w_override_now := t, w_utc_now := u\<rparr>)"

text \<open>A fresh process over an empty database, seeded in one transaction.\<close>

definition fresh_world :: "datetime \<Rightarrow> world" where
  "fresh_world now = \<lparr>w_db = empty_db, w_committed = empty_db, w_override_now = None, w_utc_now = now,
     w_counter = 1, w_outbox = [], w_payment_calls = [], w_provider_refs = [], w_escalations = []\<rparr>"

inductive reachable :: "world \<Rightarrow> bool" where
  seeded: "session_begin (seed_database profile) (fresh_world now) = (Inr (), w) \<Longrightarrow> reachable w"
| stepped: "reachable w \<Longrightarrow> step w w' \<Longrightarrow> reachable w'"

inductive_cases reachable_cases: "reachable w"

lemma fresh_good: "world_good (fresh_world now)"
  by (simp add: world_good_def fresh_world_def good_empty)

lemma sound_run: "sound m \<Longrightarrow> world_good w \<Longrightarrow> m w = (r, w') \<Longrightarrow> world_good w'"
  by (cases r) (auto dest: hoareD)

lemma step_good:
  assumes "step w w'" and "world_good w"
  shows "world_good w'"
  using assms
proof (cases rule: step.cases)
  case (clock t u)
  with assms(2) show ?thesis by (simp add: world_good_def)
qed (auto intro: sound_run [OF sound_handlers(1)] sound_run [OF sound_handlers(2)]
    sound_run [OF sound_handlers(3)] sound_run [OF sound_handlers(4)]
    sound_run [OF sound_post_verification_confirm])

lemma reachable_good: "reachable w \<Longrightarrow> world_good w"
proof (induction rule: reachable.induct)
  case (seeded profile now w)
  then show ?case
    using sound_run [OF sound_session_begin [OF safe_seed_database] fresh_good] by blast
next
  case (stepped w w')
  then show ?case by (blast intro: step_good)
qed

section \<open>What holds in every reachable state\<close>

lemma reachable_db_ok: "reachable w \<Longrightarrow> db_ok (w_db w) \<and> payments_ok (w_payment_calls w) (w_db w)"
  using reachable_good by (auto simp: world_good_def good_def)

text \<open>The refund of an order that a payment belongs to, and what has been paid for an order.\<close>

definition pays_for :: "db \<Rightarrow> pystr \<Rightarrow> refund_call \<Rightarrow> bool" where
  "pays_for d ord c \<longleftrightarrow> (\<exists>r\<in>set (db_refunds d). rf_id r = pc_idempotency_key c \<and> rf_order_id r = ord)"

definition paid_for_order :: "world \<Rightarrow> pystr \<Rightarrow> rat" where
  "paid_for_order w ord =
     sum_list (map (\<lambda>c. dec_val (pc_amount c)) (filter (pays_for (w_db w) ord) (w_payment_calls w)))"

lemma status_cents_set:
  "distinct (map rf_id rs) \<Longrightarrow>
   status_cents P rs = (\<Sum>r\<in>{r\<in>set rs. P (rf_status r)}. dec_cents (rf_amount r))"
  by (simp add: status_cents_def sum_list_distinct_conv_sum_set distinct_map)

lemma paid_within_rows:
  assumes "db_ok d" and "payments_ok calls d"
  shows "sum_list (map (\<lambda>c. dec_cents (pc_amount c)) (filter (pays_for d ord) calls)) \<le>
    status_cents (\<lambda>s. s = RS_EXECUTED) (order_refunds d ord) + status_cents live_refund_status (order_refunds d ord)"
proof -
  let ?rows = "{r \<in> set (order_refunds d ord). rf_status r \<in> {RS_APPROVED, RS_EXECUTED}}"
  define row where "row = (\<lambda>c::refund_call. THE r. r \<in> set (db_refunds d) \<and> rf_id r = pc_idempotency_key c)"
  have keys: "distinct (map rf_id (db_refunds d))" using assms(1) by (simp add: db_ok_def keys_ok_def)
  have row: "row c \<in> set (db_refunds d) \<and> rf_id (row c) = pc_idempotency_key c \<and>
      rf_amount (row c) = pc_amount c \<and> rf_status (row c) \<in> {RS_APPROVED, RS_EXECUTED}" if c: "c \<in> set calls" for c
  proof -
    obtain r where r: "r \<in> set (db_refunds d)" "rf_id r = pc_idempotency_key c"
      "rf_amount r = pc_amount c" "rf_status r \<in> {RS_APPROVED, RS_EXECUTED}"
      using assms(2) c by (auto simp: payments_ok_def)
    moreover have "row c = r"
      unfolding row_def using r distinct_map_eq [OF keys] by (intro the_equality) auto
    ultimately show ?thesis by simp
  qed
  let ?calls = "filter (pays_for d ord) calls"
  have inj: "inj_on row (set ?calls)"
  proof (rule inj_onI)
    fix c c' assume "c \<in> set ?calls" "c' \<in> set ?calls" "row c = row c'"
    then have "pc_idempotency_key c = pc_idempotency_key c'" using row [of c] row [of c'] by simp
    then show "c = c'"
      using assms(2) \<open>c \<in> set ?calls\<close> \<open>c' \<in> set ?calls\<close> distinct_map_eq [of pc_idempotency_key calls]
      by (auto simp: payments_ok_def)
  qed
  have sub: "row ` set ?calls \<subseteq> ?rows"
  proof
    fix r assume "r \<in> row ` set ?calls"
    then obtain c where c: "c \<in> set calls" "pays_for d ord c" "r = row c" by auto
    obtain r' where "r' \<in> set (db_refunds d)" "rf_id r' = pc_idempotency_key c" "rf_order_id r' = ord"
      using c(2) by (auto simp: pays_for_def)
    then have "r' = r" using row [OF c(1)] c(3) distinct_map_eq [OF keys] by metis
    then show "r \<in> ?rows" using row [OF c(1)] c(3) \<open>rf_order_id r' = ord\<close> by (simp add: order_refunds_def)
  qed
  have "distinct ?calls" using assms(2) by (auto simp: payments_ok_def distinct_map)
  then have "sum_list (map (\<lambda>c. dec_cents (pc_amount c)) ?calls) = (\<Sum>c\<in>set ?calls. dec_cents (pc_amount c))"
    by (rule sum_list_distinct_conv_sum_set)
  also have "\<dots> = (\<Sum>c\<in>set ?calls. dec_cents (rf_amount (row c)))" using row by (intro sum.cong) auto
  also have "\<dots> = (\<Sum>r\<in>row ` set ?calls. dec_cents (rf_amount r))" by (rule sum.reindex [OF inj, unfolded o_def, symmetric])
  also have "\<dots> \<le> (\<Sum>r\<in>?rows. dec_cents (rf_amount r))" using sub by (intro sum_mono2) auto
  also have "\<dots> \<le> (\<Sum>r\<in>{r \<in> set (order_refunds d ord). rf_status r = RS_EXECUTED} \<union>
      {r \<in> set (order_refunds d ord). live_refund_status (rf_status r)}. dec_cents (rf_amount r))"
    by (intro sum_mono2) auto
  also have "\<dots> \<le> (\<Sum>r\<in>{r \<in> set (order_refunds d ord). rf_status r = RS_EXECUTED}. dec_cents (rf_amount r)) +
      (\<Sum>r\<in>{r \<in> set (order_refunds d ord). live_refund_status (rf_status r)}. dec_cents (rf_amount r))"
    by (simp add: sum_Un_nat)
  also have "\<dots> = status_cents (\<lambda>s. s = RS_EXECUTED) (order_refunds d ord) + status_cents live_refund_status (order_refunds d ord)"
    using keys by (simp add: status_cents_set order_refunds_def distinct_map inj_on_def)
  finally show ?thesis .
qed

lemma sum_list_dec_val:
  assumes "\<And>x. x \<in> set xs \<Longrightarrow> is_money (f x)"
  shows "sum_list (map (\<lambda>x. dec_val (f x)) xs) = of_nat (sum_list (map (\<lambda>x. dec_cents (f x)) xs)) / 100"
  using assms
proof (induction xs)
  case Nil
  then show ?case by simp
next
  case (Cons x xs)
  from money_total [OF Cons.prems [of x]] have "dec_val (f x) = of_nat (dec_cents (f x)) / 100"
    using dec_val_cents [of "dec_cents (f x)"] by simp
  with Cons show ?case by (simp add: add_divide_distrib)
qed

text \<open>The proposal of a refund row in the log.\<close>

lemma refund_evidence:
  assumes ok: "db_ok d" and r: "r \<in> set (db_refunds d)"
  obtains e where "e \<in> set (db_events d)" and "ev_event_type e = ET_REFUND_PROPOSED"
    and "event_payload e = Inr (RefundProposedPayload (rf_id r) (rf_amount r))"
    and "ev_case_id e = Some (rf_case_id r)" and "ev_order_id e = Some (rf_order_id r)"
    and "ev_customer_id e = rf_customer_id r"
proof -
  have "proposal_intent ` set (proposals d) = refund_intent ` set (db_refunds d)"
    using ok unfolding db_ok_def evidence_ok_def by (metis set_map)
  then have "refund_intent r \<in> proposal_intent ` set (proposals d)" using imageI [OF r, of refund_intent] by simp
  then obtain e where e: "e \<in> set (proposals d)" "proposal_intent e = refund_intent r"
    by (elim imageE) simp
  have "event_ok d e" using ok e(1) by (simp add: proposals_def db_ok_def references_ok_def)
  then obtain p where p: "event_payload e = Inr p" by (cases "event_payload e") (auto simp: event_ok_def)
  with e(2) have "p = RefundProposedPayload (rf_id r) (rf_amount r)" "ev_case_id e = Some (rf_case_id r)"
    "ev_order_id e = Some (rf_order_id r)" "ev_customer_id e = rf_customer_id r"
    by (cases p; auto simp: proposal_intent_def refund_intent_def)+
  with that e(1) p show thesis by (auto simp: proposals_def)
qed

lemma payments_backed:
  assumes "reachable w" and "c \<in> set (w_payment_calls w)"
  shows "\<exists>r\<in>set (db_refunds (w_db w)). \<exists>e\<in>set (db_events (w_db w)).
    rf_id r = pc_idempotency_key c \<and> rf_amount r = pc_amount c \<and> rf_status r \<in> {RS_APPROVED, RS_EXECUTED} \<and>
    is_money (pc_amount c) \<and> ev_event_type e = ET_REFUND_PROPOSED \<and>
    event_payload e = Inr (RefundProposedPayload (rf_id r) (rf_amount r)) \<and>
    ev_case_id e = Some (rf_case_id r) \<and> ev_order_id e = Some (rf_order_id r) \<and>
    ev_customer_id e = rf_customer_id r"
proof -
  have ok: "db_ok (w_db w)" "payments_ok (w_payment_calls w) (w_db w)"
    using reachable_db_ok [OF assms(1)] by auto
  obtain r where r: "r \<in> set (db_refunds (w_db w))" "rf_id r = pc_idempotency_key c"
    "rf_amount r = pc_amount c" "rf_status r \<in> {RS_APPROVED, RS_EXECUTED}"
    using ok(2) assms(2) by (auto simp: payments_ok_def)
  have "is_money (rf_amount r)" using ok(1) r(1) by (auto simp: db_ok_def references_ok_def refund_ok_def)
  moreover obtain e where "e \<in> set (db_events (w_db w))" "ev_event_type e = ET_REFUND_PROPOSED"
    "event_payload e = Inr (RefundProposedPayload (rf_id r) (rf_amount r))" "ev_case_id e = Some (rf_case_id r)"
    "ev_order_id e = Some (rf_order_id r)" "ev_customer_id e = rf_customer_id r"
    by (rule refund_evidence [OF ok(1) r(1)])
  ultimately show ?thesis using r by (intro bexI [of _ r] bexI [of _ e]) simp_all
qed

end
