(* ===== verification/World_Invariants.thy ===== *)
theory World_Invariants
  imports Loop_Progress System
begin

text \<open>
  Invariants of the world that hold at every point of every operation, also inside a transaction
  and after an exception.  The locale asks for laws about single updates and gives preservation by
  each operation, by every request and in every reachable state.  The predicate is indexed by a
  number that an identifier drawn in the program may be compared with.
\<close>

named_theorems keeps_rules \<open>operations that keep an invariant of the world\<close>

locale world_invariant =
  fixes I :: "nat \<Rightarrow> world \<Rightarrow> bool"
  assumes restart: "I k w \<Longrightarrow> I k (w\<lparr>w_db := w_committed w\<rparr>)"
    and committed: "I k w \<Longrightarrow> I k (w\<lparr>w_committed := w_db w\<rparr>)"
    and current: "I k w \<Longrightarrow> I (w_counter w) w"
    and restored: "I k w \<Longrightarrow> I (w_counter w) w' \<Longrightarrow> I k (w'\<lparr>w_db := w_db w\<rparr>)"
    and effect: "I k w \<Longrightarrow> w_db w' = w_db w \<Longrightarrow> w_committed w' = w_committed w \<Longrightarrow>
      w_counter w \<le> w_counter w' \<Longrightarrow> I k w'"
    and drawn: "I k w \<Longrightarrow> I (Suc (w_counter w)) (w\<lparr>w_counter := Suc (w_counter w)\<rparr>)"
    and later: "I k w \<Longrightarrow> I j w' \<Longrightarrow> w_counter w < j \<Longrightarrow> I k w'"
    and rows: "I k w \<Longrightarrow> db_events d = db_events (w_db w) \<Longrightarrow> db_cases d = db_cases (w_db w) \<Longrightarrow>
      map rf_id (db_refunds d) = map rf_id (db_refunds (w_db w)) \<Longrightarrow> I k (w\<lparr>w_db := d\<rparr>)"
    and event: "I k w \<Longrightarrow> ev_id e = lit ''evt_'' @ nat_str n \<Longrightarrow> n < k \<Longrightarrow>
      I k (w\<lparr>w_db := (w_db w)\<lparr>db_events := db_events (w_db w) @ [e]\<rparr>\<rparr>)"
    and refund: "I k w \<Longrightarrow> rf_id r = lit ''rfnd_'' @ nat_str n \<Longrightarrow> n < k \<Longrightarrow>
      I k (w\<lparr>w_db := (w_db w)\<lparr>db_refunds := db_refunds (w_db w) @ [r]\<rparr>\<rparr>)"
begin

abbreviation keeps :: "nat \<Rightarrow> 'a op \<Rightarrow> bool" where
  "keeps k m \<equiv> preserves (I k) m"

section \<open>Sessions\<close>

lemma keeps_session [keeps_rules]:
  assumes "\<And>k. keeps k m"
  shows "keeps k (session_begin m)" and "keeps k (session_scope m)" and "keeps k (begin_nested m)"
proof -
  have inner: "I k w'" if "I k w" "m w = (r, w')" for w r w' k
    using preservesD [OF assms] that .
  show "keeps k (session_begin m)"
  proof (rule preservesI)
    fix w r w' assume w: "I k w" and run: "session_begin m w = (r, w')"
    obtain q v where m: "m (w\<lparr>w_db := w_committed w\<rparr>) = (q, v)" by fastforce
    from inner [OF restart [OF w] m] run m show "I k w'"
      by (cases q) (auto simp: session_begin_def intro: restart committed)
  qed
  show "keeps k (session_scope m)"
  proof (rule preservesI)
    fix w r w' assume w: "I k w" and run: "session_scope m w = (r, w')"
    obtain q v where m: "m (w\<lparr>w_db := w_committed w\<rparr>) = (q, v)" by fastforce
    from inner [OF restart [OF w] m] run m show "I k w'"
      by (auto simp: session_scope_def intro: restart)
  qed
  show "keeps k (begin_nested m)"
  proof (rule preservesI)
    fix w r w' assume w: "I k w" and run: "begin_nested m w = (r, w')"
    obtain q v where m: "m w = (q, v)" by fastforce
    from inner [OF w m] inner [OF current [OF w] m] w run m show "I k w'"
      by (cases q) (auto simp: begin_nested_def intro: restored)
  qed
qed

lemma keeps_effect: "(\<And>w. w_db (f w) = w_db w \<and> w_committed (f w) = w_committed w \<and> w_counter w \<le> w_counter (f w)) \<Longrightarrow>
    keeps k (modifyM f)"
  by (rule preserves_modifyM) (auto intro: effect)

lemma keeps_rows: "(\<And>d. db_events (f d) = db_events d \<and> db_cases (f d) = db_cases d \<and>
    map rf_id (db_refunds (f d)) = map rf_id (db_refunds d)) \<Longrightarrow> keeps k (modify_db f)"
  unfolding modify_db_def by (rule preserves_modifyM) (auto intro: rows)

text \<open>An identifier that is drawn is smaller than the index under which the program goes on.\<close>

lemma keeps_drawn:
  assumes "\<And>n. keeps (Suc n) (f (lit p @ nat_str n))"
  shows "keeps k (bindM (next_identifier p) f)"
proof (rule preservesI)
  fix w r w' assume w: "I k w" and run: "bindM (next_identifier p) f w = (r, w')"
  let ?n = "w_counter w"
  have "next_identifier p w = (Inr (lit p @ nat_str ?n), w\<lparr>w_counter := Suc ?n\<rparr>)"
    by (simp add: next_identifier_def)
  with run have "f (lit p @ nat_str ?n) (w\<lparr>w_counter := Suc ?n\<rparr>) = (r, w')" by (simp add: bindM_def)
  from preservesD [OF assms drawn [OF w] this] later [OF w] show "I k w'" by simp
qed

lemma keeps_next_identifier [keeps_rules]: "keeps k (next_identifier p)"
  by (rule preservesI) (auto simp: next_identifier_def intro: effect)

section \<open>Operations\<close>

lemma keeps_basic [keeps_rules]:
  "keeps k clock_now" "keeps k (mailer_send a b t)" "keeps k (ticketing_escalate why)"
  "keeps k ids_verification_token" "keeps k (payment_refund key amt)" "keeps k commit_session"
  "keeps k (ensureM ok e)"
  unfolding clock_now_def mailer_send_def ticketing_escalate_def ids_verification_token_def
    payment_refund_def commit_session_def ids_ticket_id_def
  by (intro preserves_rules keeps_rules keeps_effect preserves_modifyM committed; simp)+

lemma keeps_lookups [keeps_rules]:
  "keeps k (find_customer_by_id u)" "keeps k (find_case_by_id cs)" "keeps k (find_order_by_id ord)"
  "keeps k (find_refund_by_id rid)" "keeps k (require_refund_by_id rid)" "keeps k (find_customer_by_email em)"
  "keeps k (load_customer_events u)" "keeps k (load_case_events cs)" "keeps k (list_orders_for_customer u)"
  "keeps k (lock_customer_for_update u)" "keeps k (find_open_refund_for_order ord)"
  "keeps k (load_linked_order_summary linked evs now)" "keeps k (load_rule_context_for_case cs)"
  "keeps k (require_case_customer row)" "keeps k (due_refund_rows u now)"
  "keeps k (load_disclosed_order_rows u ids)" "keeps k (load_loop_prompt_context cs)"
  "keeps k (customer_id_for_case cs)" "keeps k (case_status_now cs u)" "keeps k (case_may_run_agent_loop cs u)"
  "keeps k (case_is_open cs u)" "keeps k (list_active_pending_refunds now)"
  "keeps k (find_case_for_customer_by_opening_message_id u m)" "keeps k (list_cases_for_customer_ordered u)"
  unfolding find_customer_by_id_def find_case_by_id_def find_order_by_id_def find_refund_by_id_def require_refund_by_id_def
    find_customer_by_email_def load_customer_events_def load_case_events_def list_orders_for_customer_def
    lock_customer_for_update_def find_open_refund_for_order_def load_linked_order_summary_def
    load_rule_context_for_case_def require_case_customer_def due_refund_rows_def load_disclosed_order_rows_def
    load_loop_prompt_context_def customer_id_for_case_def case_status_now_def case_may_run_agent_loop_def
    case_is_open_def list_active_pending_refunds_def find_case_for_customer_by_opening_message_id_def
    list_cases_for_customer_ordered_def Let_def clock_now_def
  by (intro preserves_rules)+

lemma keeps_tokens [keeps_rules]:
  "keeps k (find_verification_request_by_token t)" "keeps k (find_open_case_ids_for_customer u now)"
  unfolding find_verification_request_by_token_def find_open_case_ids_for_customer_def
  by (intro keeps_rules preserves_rules; (rule payload.split [where P = "keeps k", THEN iffD2]; intro conjI allI impI preserves_rules)?)+

lemma keeps_scope [keeps_rules]:
  "keeps k (validate_refund_relational_scope c ord)" "keeps k (validate_event_relational_scope u cs oo)"
  unfolding validate_refund_relational_scope_def load_case_customer_id_def load_order_customer_id_def
    validate_event_relational_scope_def case_scope_customer_def check_order_scope_def
  by (intro preserves_rules)+

lemma keeps_transition [keeps_rules]: "keeps k (transition_refund_status rid s t b clr)"
  unfolding transition_refund_status_def
  by (intro preserves_rules keeps_rows) (simp add: set_refund_status_def comp_def)

lemma keeps_allocate [keeps_rules]: "keeps k (allocate_customer_event_seq u)"
  unfolding allocate_customer_event_seq_def bump_event_sequence_def ensure_event_sequence_row_def
  by (intro keeps_rules preserves_rules keeps_rows; simp)

lemma keeps_insert_event: "ev_id e = lit ''evt_'' @ nat_str n \<Longrightarrow> keeps (Suc n) (insert_event e)"
  unfolding insert_event_def modify_db_def
  by (intro keeps_rules preserves_rules preserves_modifyM) (rule event [where n = n], simp_all)

lemma keeps_insert_refund: "rf_id r = lit ''rfnd_'' @ nat_str n \<Longrightarrow> keeps (Suc n) (insert_refund r)"
  unfolding insert_refund_def modify_db_def
  by (intro keeps_rules preserves_rules preserves_modifyM) (rule refund [where n = n], simp_all)

lemma keeps_append [keeps_rules]: "keeps k (append_canonical_event et u cs oo a ch p)"
  unfolding append_canonical_event_def Let_def ids_event_id_def
  by (intro keeps_drawn keeps_insert_event keeps_rules preserves_rules) simp_all

section \<open>The gate\<close>

lemma keeps_expire [keeps_rules]: "keeps k (expire_due_refunds_for_customer u)"
  unfolding expire_due_refunds_for_customer_def expire_one_refund_def
  by (intro keeps_rules preserves_rules)

lemma keeps_escalate_case [keeps_rules]: "keeps k (escalate_case cs origin reason auth fe)"
  unfolding escalate_case_def append_escalated_and_case_closed_def by (intro keeps_rules preserves_rules)

lemma keeps_denied [keeps_rules]: "keeps k (append_action_denied u cs a deny)"
  unfolding append_action_denied_def by (intro keeps_rules preserves_rules)

lemma keeps_effects [keeps_rules]:
  "keeps k (allow_get_orders auth u c p)" "keeps k (allow_link_order auth u c p ord)"
  "keeps k (allow_send_reply auth row c p s b)" "keeps k (allow_request_verification auth row c p now)"
  "keeps k (allow_finish auth u c p s)"
  unfolding allow_get_orders_def allow_link_order_def allow_send_reply_def allow_request_verification_def
    allow_finish_def
  by (intro keeps_rules preserves_rules)+

lemma keeps_dispatch_allow [keeps_rules]: "keeps k (dispatch_allow_verdict auth row c p ctx)"
  unfolding dispatch_allow_verdict_def
  by (cases "snd p"; simp only: action.case; intro keeps_rules preserves_rules)

lemma keeps_refund_events [keeps_rules]:
  "keeps k (append_refund_proposed u c ord rid amount)" "keeps k (append_refund_auto_approved u c ord rid)"
  "keeps k (append_refund_approval_required u c ord rid amount rule)"
  "keeps k (append_refund_approved u c ord rid oper)" "keeps k (append_refund_rejected u c ord rid oper why)"
  "keeps k (append_refund_executed u c ord rid amount ref)"
  unfolding append_refund_proposed_def append_refund_auto_approved_def append_refund_approval_required_def
    append_refund_approved_def append_refund_rejected_def append_refund_executed_def
  by (rule keeps_append)+

lemma keeps_persist_decided [keeps_rules]: "keeps k (persist_decided_refund u c ord amount decision)"
  unfolding persist_decided_refund_def ids_refund_id_def
  by (intro keeps_drawn keeps_insert_refund keeps_rules preserves_rules) simp_all

lemma keeps_blocking:
  "(\<And>rule a b. keeps k (f rule a b)) \<Longrightarrow> (\<And>rule why. keeps k (g rule why)) \<Longrightarrow> (\<And>rule why. keeps k (j rule why)) \<Longrightarrow>
   keeps k (case b of Deny rule x y \<Rightarrow> f rule x y | RequireApproval rule why \<Rightarrow> g rule why
     | ForceEscalate rule why \<Rightarrow> j rule why)"
  by (simp split: blocking.split)

lemma keeps_persist_proposal [keeps_rules]: "keeps k (persist_refund_proposal u c p amount)"
  unfolding persist_refund_proposal_def by (intro keeps_blocking keeps_rules preserves_rules)

lemma keeps_pay [keeps_rules]:
  "keeps k (execute_payment_after_committed_intent u c ord rid amount)"
  "keeps k commit_refund_intent_before_payment"
  unfolding execute_payment_after_committed_intent_def record_refund_executed_after_payment_def
    commit_refund_intent_before_payment_def
  by (intro keeps_rules preserves_rules)+

lemma keeps_verdict:
  "keeps k m \<Longrightarrow> (\<And>b. keeps k (f b)) \<Longrightarrow> keeps k (case v of Allow \<Rightarrow> m | Blocked b \<Rightarrow> f b)"
  by (simp split: verdict.split)

lemma keeps_execute_proposal [keeps_rules]: "keeps k (execute_propose_refund row c p amount)"
  unfolding execute_propose_refund_def append_open_refund_race_denial_def
  by (intro keeps_verdict keeps_blocking keeps_rules preserves_rules)
    (rule error.split [where P = "keeps k", THEN iffD2]; intro conjI allI impI keeps_rules preserves_rules)

lemma keeps_execute_agent_action [keeps_rules]: "keeps k (execute_agent_action c p)"
proof -
  have finalize: "keeps k (finalize_propose_refund_verdict c v)" for v
    unfolding finalize_propose_refund_verdict_def by (intro keeps_verdict keeps_blocking keeps_rules preserves_rules)
  have approval: "keeps k (dispatch_require_approval_verdict a)" for a
    unfolding dispatch_require_approval_verdict_def by (cases a) (simp_all add: preserves_raiseM)
  have allowed: "keeps k (case a of Escalate _ \<Rightarrow> escalate_case c EO_AGENT None (Some auth) None
      | _ \<Rightarrow> dispatch_allow_verdict auth row c p ctx)" for a auth row ctx
    by (cases a; simp only: action.case; intro keeps_rules)
  show ?thesis
    unfolding execute_agent_action_def
    by (rule action.split [where P = "keeps k", THEN iffD2]; intro conjI allI impI;
        intro keeps_blocking finalize approval allowed keeps_rules preserves_rules)
qed

lemma keeps_evidence [keeps_rules]: "keeps k (validate_refund_intent_against_proposed_evidence row u)"
proof -
  have "keeps k (case es of [] \<Rightarrow> raiseM (x :: error) | [e] \<Rightarrow> returnM e | e # f # gs \<Rightarrow> raiseM (y :: error))"
    for es :: "stored_event list" and x y
    by (simp add: preserves_returnM preserves_raiseM split: list.split)
  then show ?thesis
    unfolding validate_refund_intent_against_proposed_evidence_def Let_def load_canonical_refund_proposed_event_def
    by (intro keeps_rules preserves_rules)
qed

lemma keeps_operator [keeps_rules]: "keeps k (approve_refund rid oper)" "keeps k (reject_refund rid oper why)"
  unfolding approve_refund_def reject_refund_def Let_def transition_pending_refund_status_def
  by (intro keeps_rules preserves_rules)+

lemma keeps_confirm [keeps_rules]: "keeps k (confirm_verification t)"
  unfolding confirm_verification_def by (intro keeps_rules preserves_rules)

section \<open>The loop\<close>

lemma keeps_loop_turn [keeps_rules]: "keeps k (loop_turn h c acc)"
proof -
  have outcome: "keeps k (handle_outcome c ctx result)" for ctx result
    unfolding handle_outcome_def append_invalid_output_def
    by (cases "mb_outcome result"; simp only: parse_outcome.case; intro keeps_rules preserves_rules)
  have model: "keeps k (call_model h c ctx)" for ctx
    unfolding call_model_def invoke_model_boundary_def call_and_parse_def propose_def
    by (intro keeps_rules preserves_rules)
  have entry: "keeps k (loop_terminates_at_entry c s)" for s
    unfolding loop_terminates_at_entry_def by (intro keeps_rules preserves_rules)
  show ?thesis
    unfolding loop_turn_def Let_def by (intro outcome model entry keeps_rules preserves_rules)
qed

lemma keeps_run_agent_loop [keeps_rules]: "keeps k (run_agent_loop turns h c)"
proof -
  have "keeps k (loop_turns turns h c acc)" for acc
  proof (induction turns arbitrary: acc)
    case (Suc turns)
    have "keeps k (case t of Finished peers \<Rightarrow> returnM (Some peers) | Continue peers \<Rightarrow> loop_turns turns h c peers)" for t
      by (cases t) (simp_all only: turn.case preserves_returnM Suc)
    then show ?case unfolding loop_turns.simps by (rule preserves_bindM [OF keeps_loop_turn])
  qed (simp add: preserves_returnM)
  then show ?thesis by (simp add: run_agent_loop_def)
qed

end

locale request_invariant = world_invariant +
  assumes opened: "I k w \<Longrightarrow> ca_id r = lit ''case_'' @ nat_str n \<Longrightarrow> n < k \<Longrightarrow>
      (ca_customer_id r, ca_opening_message_id r) \<notin>
        (\<lambda>x. (ca_customer_id x, ca_opening_message_id x)) ` set (db_cases (w_db w)) \<Longrightarrow>
      I k (w\<lparr>w_db := (w_db w)\<lparr>db_cases := db_cases (w_db w) @ [r]\<rparr>\<rparr>)"
begin

section \<open>Requests\<close>

lemma keeps_insert_case: "ca_id r = lit ''case_'' @ nat_str n \<Longrightarrow> keeps (Suc n) (insert_case r)"
  by (rule preservesI) (auto simp: insert_case_def split: if_splits intro!: opened [where n = n])

lemma keeps_inbound [keeps_rules]:
  "keeps k (route_inbound_email request)" "keeps k (build_inbound_email_response cs u)"
proof -
  have create: "keeps k (create_case_for_inbound_email u m s b)" for k u m s b
    unfolding create_case_for_inbound_email_def ids_case_id_def
    by (intro keeps_drawn keeps_insert_case keeps_rules preserves_rules) simp_all
  have resolve: "keeps k (resolve_inbound_case u m s b)" for k u m s b
    unfolding resolve_inbound_case_def
    by (intro create keeps_rules preserves_rules)
      (rule error.split [where P = "keeps k", THEN iffD2]; intro conjI allI impI keeps_rules preserves_rules)
  show "keeps k (route_inbound_email request)"
    unfolding route_inbound_email_def send_unknown_sender_reply_def by (intro resolve keeps_rules preserves_rules)
  show "keeps k (build_inbound_email_response cs u)"
    unfolding build_inbound_email_response_def by (intro keeps_rules preserves_rules)
qed

lemma keeps_drain [keeps_rules]:
  "keeps k (drain_agent_loop_queue fuel h ids)" "keeps k (resume_cases_in_order fuel h ids extra)"
  "keeps k (resume_open_case fuel h cs)"
proof -
  have list: "keeps k (case ys of [] \<Rightarrow> m | x # xs \<Rightarrow> f x xs)"
    if "keeps k m" "\<And>x xs. keeps k (f x xs)" for k ys f and m :: "unit option op"
    using that by (cases ys) simp_all
  have "keeps k (drain_queue runs turns h queue)" for runs turns queue
  proof (induction runs arbitrary: queue)
    case (Suc runs)
    show ?case
      unfolding drain_queue.simps queued_case_runs_def run_queued_case_def
      by (intro list Suc keeps_rules preserves_rules)
  qed (simp add: preserves_returnM)
  then show drain: "keeps k (drain_agent_loop_queue fuel h ids)" for ids by (simp add: drain_agent_loop_queue_def)
  show "keeps k (resume_cases_in_order fuel h ids extra)" "keeps k (resume_open_case fuel h cs)"
    unfolding resume_cases_in_order_def resume_open_case_def by (rule drain)+
qed

lemma keeps_verification_kind:
  "keeps k m1 \<Longrightarrow> keeps k m2 \<Longrightarrow> keeps k m3 \<Longrightarrow>
   keeps k (case v of VR_NOT_FOUND \<Rightarrow> m1 | VR_EXPIRED \<Rightarrow> m2 | VR_VERIFIED \<Rightarrow> m3)"
  by (cases v) simp_all

lemma keeps_requests [keeps_rules]:
  "keeps k (post_inbound_email fuel h inbound)" "keeps k get_operator_pending"
  "keeps k (post_operator_approve fuel h approval)" "keeps k (post_operator_reject fuel h rejection)"
  "keeps k (post_verification_confirm fuel h token)"
proof -
  have answer: "keeps k (answer_operator_decision fuel h outcome)" for outcome
    unfolding answer_operator_decision_def by (intro keeps_rules preserves_rules)
  show "keeps k (post_inbound_email fuel h inbound)" "keeps k get_operator_pending"
    unfolding post_inbound_email_def get_operator_pending_def by (intro keeps_rules preserves_rules)+
  show "keeps k (post_operator_approve fuel h approval)" "keeps k (post_operator_reject fuel h rejection)"
    unfolding post_operator_approve_def post_operator_reject_def by (intro answer keeps_rules preserves_rules)+
  show "keeps k (post_verification_confirm fuel h token)"
    unfolding post_verification_confirm_def by (intro keeps_verification_kind keeps_rules preserves_rules)
qed

lemma step_keeps: "step w w' \<Longrightarrow> I k w \<Longrightarrow> I k w'"
  by (erule step.cases) (auto intro: effect preservesD [OF keeps_requests(1)] preservesD [OF keeps_requests(2)]
    preservesD [OF keeps_requests(3)] preservesD [OF keeps_requests(4)] preservesD [OF keeps_requests(5)])

lemma keeps_seed: "keeps k (seed_database profile)"
  unfolding seed_database_def insert_customer_def insert_order_def
  by (intro keeps_rules preserves_rules keeps_rows; simp)

lemma reachable_keeps:
  assumes "reachable w" and "\<And>now. I k (fresh_world now)"
  shows "I k w"
  using assms(1)
proof (induction rule: reachable.induct)
  case (seeded profile now w)
  from keeps_session(1) [OF keeps_seed] assms(2) this show ?case by (rule preservesD)
next
  case (stepped w w')
  then show ?case by (blast intro: step_keeps)
qed

end

end
