(* ===== verification/Queue_Progress.thy ===== *)
theory Queue_Progress
  imports World_Invariants
begin

text \<open>
  Draining the queue of cases ends: a case enters the queue once, the sweeps name only cases that
  exist, and no loop creates a case.  So the number of runs is at most the number of cases that
  were asked for plus the number of cases there are.
\<close>

section \<open>No loop creates a case\<close>

definition cases_are :: "case_row list \<Rightarrow> world \<Rightarrow> bool" where
  "cases_are C w \<longleftrightarrow> db_cases (w_db w) = C \<and> db_cases (w_committed w) = C"

abbreviation keeps :: "case_row list \<Rightarrow> 'a op \<Rightarrow> bool" where
  "keeps C m \<equiv> preserves (cases_are C) m"

interpretation case_list: world_invariant "\<lambda>_. cases_are C" for C
  by unfold_locales (auto simp: cases_are_def)

section \<open>The peers are cases that exist\<close>

definition known_ids :: "case_row list \<Rightarrow> pystr set" where
  "known_ids C = ca_id ` set C"

lemma expired_known:
  assumes "foldM (expire_one_refund u) acc due w = (Inr ids, w')"
  shows "set ids \<subseteq> set acc \<union> rf_case_id ` set due"
  using assms
proof (induction due arbitrary: acc w)
  case (Cons r due)
  from Cons.prems obtain acc' w1 where one: "expire_one_refund u acc r w = (Inr acc', w1)"
    and rest: "foldM (expire_one_refund u) acc' due w1 = (Inr ids, w')" by (auto simp: bindM_eq_Inr)
  have "set acc' \<subseteq> insert (rf_case_id r) (set acc)"
    using one by (auto simp: expire_one_refund_def bindM_eq_Inr split: if_splits)
  with Cons.IH [OF rest] show ?case by auto
qed simp

lemma foldM_Cons_Inr:
  "foldM f b (x # xs) w = (Inr y, w') \<longleftrightarrow> (\<exists>b' w1. f b x w = (Inr b', w1) \<and> foldM f b' xs w1 = (Inr y, w'))"
  by (simp add: bindM_eq_Inr)

lemma reopened_subset:
  assumes "foldM (\<lambda>reopened case_id.
      bindM (liftM (project_case_summary case_id u events now)) (\<lambda>summary.
        returnM (if cs_status summary = CS_OPEN then reopened @ [case_id] else reopened))) acc ids w = (Inr peers, w')"
  shows "set peers \<subseteq> set acc \<union> set ids"
  using assms
proof (induction ids arbitrary: acc w)
  case (Cons i ids)
  from Cons.prems obtain acc' w1 where step: "bindM (liftM (project_case_summary i u events now)) (\<lambda>summary.
        returnM (if cs_status summary = CS_OPEN then acc @ [i] else acc)) w = (Inr acc', w1)"
    and rest: "foldM (\<lambda>reopened case_id.
      bindM (liftM (project_case_summary case_id u events now)) (\<lambda>summary.
        returnM (if cs_status summary = CS_OPEN then reopened @ [case_id] else reopened))) acc' ids w1 = (Inr peers, w')"
    unfolding foldM_Cons_Inr by blast
  from step have "acc' = acc \<or> acc' = acc @ [i]" by (auto simp: bindM_eq_Inr)
  with Cons.IH [OF rest] show ?case by auto
qed simp

lemma expire_known:
  assumes "expire_due_refunds_for_customer u w = (Inr peers, w')"
  shows "set peers \<subseteq> known_ids (db_cases (w_db w))"
proof -
  obtain row w1 now w2 due w3 ids w4 where lock: "lock_customer_for_update u w = (Inr row, w1)"
    and now: "clock_now w1 = (Inr now, w2)" and due: "due_refund_rows u now w2 = (Inr due, w3)"
    and fold: "foldM (expire_one_refund u) [] due w3 = (Inr ids, w4)"
    and last: "(if ids = [] then returnM []
       else bindM (load_customer_events u) (\<lambda>events.
         foldM (\<lambda>reopened case_id.
           bindM (liftM (project_case_summary case_id u events now)) (\<lambda>summary.
             returnM (if cs_status summary = CS_OPEN then reopened @ [case_id] else reopened)))
           [] (sort ids))) w4 = (Inr peers, w')"
    using assms unfolding expire_due_refunds_for_customer_def bindM_eq_Inr by blast
  have "w2 = w" using lock_customer_run(1) [OF lock] now by (simp add: clock_now_def)
  then have "rf_case_id ` set due \<subseteq> known_ids (db_cases (w_db w))"
    using due by (auto simp: due_refund_rows_def case_of_customer_def known_ids_def) (metis imageI)
  moreover have "set peers \<subseteq> set ids"
    using last by (auto simp: bindM_eq_Inr split: if_splits dest!: reopened_subset)
  ultimately show ?thesis using expired_known [OF fold] by auto
qed

lemma accumulate_subset:
  "set (accumulate_peer_case_ids c peers acc) \<subseteq> set acc \<union> set peers"
proof (induction peers arbitrary: acc)
  case (Cons p peers)
  have "accumulate_peer_case_ids c (p # peers) acc =
      accumulate_peer_case_ids c peers (if p = c \<or> p \<in> set acc then acc else acc @ [p])"
    by (simp add: accumulate_peer_case_ids_def)
  with Cons [of "if p = c \<or> p \<in> set acc then acc else acc @ [p]"] show ?case by auto
qed (simp add: accumulate_peer_case_ids_def)

fun turn_peers :: "turn \<Rightarrow> pystr list" where
  "turn_peers (Finished peers) = peers"
| "turn_peers (Continue peers) = peers"

lemma loop_turn_peers:
  assumes "loop_turn h c acc w = (Inr t, w')"
  shows "set (turn_peers t) \<subseteq> set acc \<union> known_ids (db_cases (w_db w))"
proof -
  obtain row w0 where "find_case_by_id c w = (Inr (Some row), w0)"
    and run: "bindM (expire_due_refunds_for_customer (ca_customer_id row)) (\<lambda>reopened.
       let peers = accumulate_peer_case_ids c reopened acc in
       bindM (load_loop_prompt_context c) (\<lambda>ctx.
       bindM (loop_terminates_at_entry c (lc_case_summary ctx)) (\<lambda>terminates.
         if terminates then returnM (Finished peers)
         else bindM (call_model h c ctx) (\<lambda>boundary_result.
           case boundary_result of
             None \<Rightarrow> returnM (Finished peers)
           | Some result \<Rightarrow> thenM (handle_outcome c ctx result) (returnM (Continue peers)))))) w0 = (Inr t, w')"
    using assms unfolding loop_turn_def by (auto simp: bindM_eq_Inr split: option.splits)
  moreover have "w0 = w" using calculation(1) by (simp add: find_case_by_id_def)
  ultimately obtain reopened w1 where
      expire: "expire_due_refunds_for_customer (ca_customer_id row) w = (Inr reopened, w1)"
    and rest: "bindM (load_loop_prompt_context c) (\<lambda>ctx.
       bindM (loop_terminates_at_entry c (lc_case_summary ctx)) (\<lambda>terminates.
         if terminates then returnM (Finished (accumulate_peer_case_ids c reopened acc))
         else bindM (call_model h c ctx) (\<lambda>boundary_result.
           case boundary_result of
             None \<Rightarrow> returnM (Finished (accumulate_peer_case_ids c reopened acc))
           | Some result \<Rightarrow> thenM (handle_outcome c ctx result)
               (returnM (Continue (accumulate_peer_case_ids c reopened acc)))))) w1 = (Inr t, w')"
    unfolding Let_def bindM_eq_Inr by blast
  have "turn_peers t = accumulate_peer_case_ids c reopened acc"
    using rest by (auto simp: bindM_eq_Inr thenM_eq_Inr split: if_splits option.splits)
  with accumulate_subset [of c reopened acc] expire_known [OF expire] show ?thesis by auto
qed

lemma run_agent_loop_peers:
  assumes "run_agent_loop turns h c w = (Inr (Some peers), w')" and "cases_are C w"
  shows "set peers \<subseteq> known_ids C"
proof -
  have "set peers \<subseteq> set acc \<union> known_ids C"
    if "loop_turns turns h c acc w = (Inr (Some peers), w')" and "cases_are C w" for acc
    using that
  proof (induction turns arbitrary: acc w)
    case (Suc turns)
    from Suc.prems(1) obtain t w1 where turn: "loop_turn h c acc w = (Inr t, w1)"
      and rest: "(case t of Finished peers \<Rightarrow> returnM (Some peers) | Continue peers \<Rightarrow> loop_turns turns h c peers) w1
        = (Inr (Some peers), w')"
      by (auto simp: bindM_eq_Inr)
    have known: "set (turn_peers t) \<subseteq> set acc \<union> known_ids C"
      using loop_turn_peers [OF turn] Suc.prems(2) by (simp add: cases_are_def)
    have "cases_are C w1" using preservesD [OF case_list.keeps_loop_turn Suc.prems(2) turn] .
    with Suc.IH known rest show ?case by (cases t) fastforce+
  qed simp
  from this [of "[]"] assms show ?thesis by (simp add: run_agent_loop_def)
qed

section \<open>The queue drains\<close>

lemma enqueue_new:
  obtains new where "enqueue ids (pending, seen) = (pending @ new, seen @ new)"
    and "distinct new" and "set new = set ids - set seen"
proof -
  have "\<exists>new. enqueue ids (pending, seen) = (pending @ new, seen @ new) \<and> distinct new \<and>
      set new = set ids - set seen"
  proof (induction ids arbitrary: pending seen)
    case (Cons i ids)
    show ?case
    proof (cases "i \<in> set seen")
      case True
      with Cons [of pending seen] show ?thesis by (auto simp: enqueue_def)
    next
      case False
      obtain new where "enqueue ids (pending @ [i], seen @ [i]) = ((pending @ [i]) @ new, (seen @ [i]) @ new)"
        "distinct new" "set new = set ids - set (seen @ [i])"
        using Cons by blast
      with False show ?thesis by (intro exI [of _ "i # new"]) (auto simp: enqueue_def)
    qed
  qed (simp add: enqueue_def)
  with that show thesis by blast
qed

definition at_rest :: "case_row list \<Rightarrow> world \<Rightarrow> bool" where
  "at_rest C w \<longleftrightarrow> world_good w \<and> db_cases (w_committed w) = C"

lemma at_rest_scope:
  assumes "keeps C m" and "sound (session_scope m)" and "at_rest C w" and "session_scope m w = (r, w')"
  shows "at_rest C w'"
proof -
  have "world_good w'" using sound_run [OF assms(2) _ assms(4)] assms(3) by (simp add: at_rest_def)
  moreover obtain q v where "m (w\<lparr>w_db := w_committed w\<rparr>) = (q, v)" by fastforce
  moreover from preservesD [OF assms(1) _ this] have "cases_are C v"
    using assms(3) by (simp add: cases_are_def at_rest_def)
  ultimately show ?thesis using assms(4) by (auto simp: at_rest_def session_scope_def cases_are_def)
qed

lemma queued_rest:
  assumes "at_rest C w" and "queued_case_runs c w = (r, w')"
  shows "at_rest C w'"
  by (rule at_rest_scope [OF _ _ assms(1) assms(2) [unfolded queued_case_runs_def]])
    (intro keeps_rules preserves_rules sound_rules safe_rules)+

lemma run_queued_rest:
  assumes "at_rest C w" and "run_queued_case turns h c w = (r, w')"
  shows "at_rest C w'"
  by (rule at_rest_scope [OF _ _ assms(1) assms(2) [unfolded run_queued_case_def]])
    (intro keeps_rules preserves_rules sound_rules safe_rules)+

lemma run_queued_result:
  assumes "run_queued_case turns h c w = (Inr result, w')" and "at_rest C w" and "MAX_AGENT_STEPS < turns"
  obtains peers where "result = Some peers" and "set peers \<subseteq> known_ids C"
proof -
  let ?w = "w\<lparr>w_db := w_committed w\<rparr>"
  obtain v where run: "run_agent_loop turns h c ?w = (Inr result, v)"
    using assms(1) by (auto simp: run_queued_case_def session_scope_def bindM_eq_Inr thenM_eq_Inr split: prod.splits)
  have "world_good ?w" "cases_are C ?w" using assms(2) by (simp_all add: at_rest_def world_good_def cases_are_def)
  with run_agent_loop_ends [OF _ assms(3), of ?w h c] run_agent_loop_peers [of turns h c ?w _ v C] run that
  show thesis by (cases result) auto
qed

lemma drain_queue_ends:
  assumes "at_rest C w" and "MAX_AGENT_STEPS < turns"
    and "length (fst queue) + card (known_ids C - set (snd queue)) \<le> runs"
  shows "fst (drain_queue runs turns h queue w) \<noteq> Inr None"
  using assms(1,3)
proof (induction runs arbitrary: queue w)
  case (Suc runs)
  show ?case
  proof (cases "fst queue")
    case (Cons c rest)
    show ?thesis
    proof
      assume "fst (drain_queue (Suc runs) turns h queue w) = Inr None"
      then obtain w' where "drain_queue (Suc runs) turns h queue w = (Inr None, w')"
        by (cases "drain_queue (Suc runs) turns h queue w") auto
      then obtain b w1 where may: "queued_case_runs c w = (Inr b, w1)"
        and go: "(if \<not> b then drain_queue runs turns h (rest, snd queue)
            else bindM (run_queued_case turns h c) (\<lambda>peers. case peers of
                None \<Rightarrow> returnM None
              | Some peer_ids \<Rightarrow> drain_queue runs turns h (enqueue peer_ids (rest, snd queue)))) w1 = (Inr None, w')"
        by (auto simp: Cons bindM_eq_Inr)
      have w1: "at_rest C w1" using queued_rest [OF Suc.prems(1) may] .
      show False
      proof (cases b)
        case False
        with go Suc.IH [OF w1, of "(rest, snd queue)"] Suc.prems(2) Cons show ?thesis by simp
      next
        case True
        with go obtain result w2 where run: "run_queued_case turns h c w1 = (Inr result, w2)"
          and go: "(case result of None \<Rightarrow> returnM None
              | Some peer_ids \<Rightarrow> drain_queue runs turns h (enqueue peer_ids (rest, snd queue))) w2 = (Inr None, w')"
          by (auto simp: bindM_eq_Inr)
        obtain peers where peers: "result = Some peers" "set peers \<subseteq> known_ids C"
          using run_queued_result [OF run w1 assms(2)] by blast
        obtain new where new: "enqueue peers (rest, snd queue) = (rest @ new, snd queue @ new)"
          "distinct new" "set new = set peers - set (snd queue)"
          by (rule enqueue_new)
        have "finite (known_ids C)" by (simp add: known_ids_def)
        moreover have "known_ids C - set (snd queue @ new) = known_ids C - set (snd queue) - set new" by auto
        moreover have "set new \<subseteq> known_ids C - set (snd queue)" using new(3) peers(2) by auto
        ultimately have "length (rest @ new) + card (known_ids C - set (snd queue @ new)) \<le> runs"
          using Suc.prems(2) Cons new(2) card_mono [of "known_ids C - set (snd queue)" "set new"]
          by (simp add: card_Diff_subset distinct_card)
        with Suc.IH [OF run_queued_rest [OF w1 run], of "enqueue peers (rest, snd queue)"] new(1) go peers(1)
        show ?thesis by simp
      qed
    qed
  qed simp
qed simp

lemma drain_agent_loop_queue_ends:
  assumes "world_good w" and "MAX_AGENT_STEPS < snd fuel"
    and "card (set ids \<union> ca_id ` set (db_cases (w_committed w))) \<le> fst fuel"
  shows "fst (drain_agent_loop_queue fuel h ids w) \<noteq> Inr None"
proof -
  let ?C = "db_cases (w_committed w)"
  obtain new where new: "enqueue ids ([], []) = ([] @ new, [] @ new)" "distinct new" "set new = set ids - set []"
    by (rule enqueue_new)
  have "card (set ids \<union> known_ids ?C) = card (set new) + card (known_ids ?C - set new)"
    using new(3) by (simp add: card_Un_disjoint [symmetric] known_ids_def)
  then have "length new + card (known_ids ?C - set new) \<le> fst fuel"
    using assms(3) new(2) by (simp add: known_ids_def distinct_card)
  with drain_queue_ends [of ?C w "snd fuel" "(new, new)" "fst fuel" h] assms(1,2) new(1)
  show ?thesis by (simp add: drain_agent_loop_queue_def at_rest_def)
qed

section \<open>Requests are answered\<close>

text \<open>
  \<open>answers m\<close>: from every good state there is a number of queue runs that suffices, with any
  number of turns above the step limit, for \<open>m\<close> to return an answer or raise.
\<close>

definition answers :: "(nat \<times> nat \<Rightarrow> 'a option op) \<Rightarrow> bool" where
  "answers m \<longleftrightarrow> (\<forall>w. world_good w \<longrightarrow> (\<exists>n. \<forall>runs turns. n \<le> runs \<longrightarrow> MAX_AGENT_STEPS < turns \<longrightarrow>
     fst (m (runs, turns) w) \<noteq> Inr None))"

named_theorems answers_rules \<open>operations that end\<close>

lemma answers_const [answers_rules]:
  "answers (\<lambda>_. returnM (Some x))" "answers (\<lambda>_. raiseM e)"
  by (simp_all add: answers_def)

lemma answers_drain [answers_rules]: "answers (\<lambda>fuel. drain_agent_loop_queue fuel h ids)"
  unfolding answers_def using drain_agent_loop_queue_ends by (metis fst_conv snd_conv)

lemma answers_resume [answers_rules]:
  "answers (\<lambda>fuel. resume_cases_in_order fuel h ids also)" "answers (\<lambda>fuel. resume_open_case fuel h c)"
  unfolding resume_cases_in_order_def resume_open_case_def by (rule answers_drain)+

lemma answers_prefix:
  assumes "sound p" and "\<And>x. answers (\<lambda>fuel. k fuel x)"
  shows "answers (\<lambda>fuel. bindM p (k fuel))"
  unfolding answers_def
proof (intro allI impI)
  fix w assume w: "world_good w"
  obtain r v where run: "p w = (r, v)" by fastforce
  show "\<exists>n. \<forall>runs turns. n \<le> runs \<longrightarrow> MAX_AGENT_STEPS < turns \<longrightarrow> fst (bindM p (k (runs, turns)) w) \<noteq> Inr None"
  proof (cases r)
    case (Inr x)
    have "world_good v" using sound_run [OF assms(1) w run] .
    with assms(2) [of x] run Inr show ?thesis by (simp add: answers_def bindM_def)
  qed (use run in \<open>simp add: bindM_def\<close>)
qed

lemma answers_finish:
  assumes "answers m" and "\<And>x w. fst (k (Some x) w) \<noteq> Inr None"
  shows "answers (\<lambda>fuel. bindM (m fuel) k)"
  unfolding answers_def
proof (intro allI impI)
  fix w assume "world_good w"
  with assms(1) obtain n where n: "\<And>runs turns. n \<le> runs \<Longrightarrow> MAX_AGENT_STEPS < turns \<Longrightarrow> fst (m (runs, turns) w) \<noteq> Inr None"
    unfolding answers_def by blast
  have "fst (bindM (m (runs, turns)) k w) \<noteq> Inr None" if "n \<le> runs" "MAX_AGENT_STEPS < turns" for runs turns
  proof (cases "m (runs, turns) w")
    case (Pair r v)
    with n [OF that] assms(2) show ?thesis by (cases r; cases "projr r") (auto simp: bindM_def)
  qed
  then show "\<exists>n. \<forall>runs turns. n \<le> runs \<longrightarrow> MAX_AGENT_STEPS < turns \<longrightarrow> fst (bindM (m (runs, turns)) k w) \<noteq> Inr None"
    by blast
qed

lemma answered_some: "answered response (Some u) = Some response"
  by (simp add: answered_def)

lemma answers_if [answers_rules]: "answers m \<Longrightarrow> answers n \<Longrightarrow> answers (\<lambda>fuel. if b then m fuel else n fuel)"
  by (cases b) simp_all

lemma answers_operator_decision [answers_rules]: "answers (\<lambda>fuel. answer_operator_decision fuel h outcome)"
  unfolding answer_operator_decision_def
  by (intro answers_if answers_finish answers_resume) (simp_all add: answered_some)

lemma answers_handlers:
  "answers (\<lambda>fuel. post_inbound_email fuel h inbound)" "answers (\<lambda>fuel. post_operator_approve fuel h approval)"
  "answers (\<lambda>fuel. post_operator_reject fuel h rejection)" "answers (\<lambda>fuel. post_verification_confirm fuel h token)"
proof -
  show "answers (\<lambda>fuel. post_operator_approve fuel h approval)"
    unfolding post_operator_approve_def
    by (intro answers_prefix answers_rules sound_rules safe_rules)
  show "answers (\<lambda>fuel. post_operator_reject fuel h rejection)"
    unfolding post_operator_reject_def
    by (intro answers_prefix answers_rules sound_rules safe_rules)
  have reply: "fst (bindM (session_scope m) (\<lambda>response. returnM (answered response (Some u))) w) \<noteq> Inr None" for m u w
    by (auto simp: bindM_def answered_some split: prod.splits sum.splits)
  show "answers (\<lambda>fuel. post_inbound_email fuel h inbound)"
    unfolding post_inbound_email_def
  proof (rule answers_prefix [OF sound_route_inbound_email])
    fix routed
    show "answers (\<lambda>fuel. case routed of
       None \<Rightarrow> returnM (Some (UnknownSenderResponse (lit ''unknown_sender'')))
     | Some (customer_id, case_id, should_run_loop, reopened_case_ids) \<Rightarrow>
         bindM (drain_agent_loop_queue fuel h
                  (if should_run_loop \<and> case_id \<notin> set reopened_case_ids
                   then reopened_case_ids @ [case_id] else reopened_case_ids)) (\<lambda>finished.
         bindM (session_scope (build_inbound_email_response case_id customer_id)) (\<lambda>response.
           returnM (answered response finished))))"
    proof (cases routed)
      case (Some r)
      show ?thesis
        unfolding Some by (cases r) (simp only: option.case prod.case, rule answers_finish, rule answers_drain, rule reply)
    qed (simp add: answers_const)
  qed
  show "answers (\<lambda>fuel. post_verification_confirm fuel h token)"
    unfolding post_verification_confirm_def
  proof (rule answers_prefix [OF sound_session_begin [OF safe_confirm_verification]])
    fix outcome
    show "answers (\<lambda>fuel. case vo_kind outcome of
         VR_NOT_FOUND \<Rightarrow> returnM (Some VerificationNotFound)
       | VR_EXPIRED \<Rightarrow>
           bindM (case vo_issuing_case_id outcome of
               None \<Rightarrow> returnM (Some ())
             | Some issuing_case_id \<Rightarrow> resume_open_case fuel h issuing_case_id) (\<lambda>finished.
             case (vo_customer_id outcome, vo_issuing_case_id outcome) of
               (Some customer_id, Some issuing_case_id) \<Rightarrow>
                 returnM (answered (VerificationExpiredResponse customer_id issuing_case_id) finished)
             | _ \<Rightarrow> raiseM (RuntimeError (lit ''Expired verification outcome missing resume identifiers.'')))
       | VR_VERIFIED \<Rightarrow>
           (case vo_customer_id outcome of
              None \<Rightarrow> raiseM (RuntimeError (lit ''Verified outcome missing customer identifier.''))
            | Some customer_id \<Rightarrow>
                bindM (drain_agent_loop_queue fuel h (vo_open_case_ids outcome)) (\<lambda>finished.
                  returnM (answered (VerificationConfirmResponse customer_id (vo_open_case_ids outcome)) finished))))"
      by (cases "vo_kind outcome"; cases "vo_customer_id outcome"; cases "vo_issuing_case_id outcome";
          simp only: verification_result_kind.case option.case prod.case;
          (intro answers_finish answers_rules)?; simp add: answered_some)
  qed
qed

end
