(* ===== verification/Discipline.thy ===== *)
theory Discipline
  imports System
begin

text \<open>
  What the operations may do to the event log and the refunds table, as an interface: a predicate
  on the database that is kept by four kinds of write (an event that is no refund move and no
  verification; a verification; a proposal with its row; the status change of a row with its
  event) is kept by every operation, and holds in every reachable state.  The locale
  \<open>log_discipline\<close> states the four laws, with the facts about the writing operation that a law
  may use; what it proves is used for several predicates.
\<close>

section \<open>Moves of a refund\<close>

fun refund_move_of_payload :: "payload \<Rightarrow> (pystr \<times> refund_status) option" where
  "refund_move_of_payload (RefundProposedPayload rid _) = Some (rid, RS_PENDING_APPROVAL)"
| "refund_move_of_payload (RefundAutoApprovedPayload rid) = Some (rid, RS_APPROVED)"
| "refund_move_of_payload (RefundApprovedPayload rid _) = Some (rid, RS_APPROVED)"
| "refund_move_of_payload (RefundRejectedPayload rid _ _) = Some (rid, RS_REJECTED)"
| "refund_move_of_payload (RefundExpiredPayload rid) = Some (rid, RS_EXPIRED)"
| "refund_move_of_payload (RefundExecutedPayload rid _ _) = Some (rid, RS_EXECUTED)"
| "refund_move_of_payload _ = None"

definition refund_move :: "stored_event \<Rightarrow> (pystr \<times> refund_status) option" where
  "refund_move e = (case event_payload e of Inr p \<Rightarrow> refund_move_of_payload p | Inl _ \<Rightarrow> None)"

text \<open>A customer the log shows as verified.\<close>

definition verified_in :: "stored_event list \<Rightarrow> pystr \<Rightarrow> bool" where
  "verified_in evs u \<longleftrightarrow> (\<exists>v\<in>set evs. ev_event_type v = ET_CUSTOMER_VERIFIED \<and> ev_customer_id v = u)"

text \<open>A token request of the customer that had not expired at the time.\<close>

definition token_open :: "stored_event list \<Rightarrow> pystr \<Rightarrow> datetime \<Rightarrow> bool" where
  "token_open evs u t \<longleftrightarrow> (\<exists>q\<in>set evs. \<exists>tok expires. ev_customer_id q = u \<and>
     ev_event_type q = ET_VERIFICATION_REQUESTED \<and>
     event_payload q = Inr (VerificationRequestedPayload tok expires) \<and> t < expires)"

text \<open>The automatic approval of an amount on top of what the order's history shows as executed.\<close>

definition within_threshold :: "db \<Rightarrow> pystr \<Rightarrow> nat \<Rightarrow> bool" where
  "within_threshold d ord amount_in_cents \<longleftrightarrow>
     amount_in_cents + sum_list (map executed_cents (order_events d ord)) \<le> 50000"

text \<open>A status change of a row with the event that records it.\<close>

definition advanced :: "db \<Rightarrow> refund_row \<Rightarrow> stored_event \<Rightarrow> db \<Rightarrow> bool" where
  "advanced d r e d' \<longleftrightarrow> (\<exists>r' d1. row_replaced d r r' d1 \<and> event_appended d1 e d' \<and>
     refund_move e = Some (rf_id r, rf_status r') \<and> ev_order_id e = Some (rf_order_id r) \<and>
     rf_status r' \<in> allowed_refund_status_targets (rf_status r) \<and>
     (ev_event_type e = ET_REFUND_AUTO_APPROVED \<longrightarrow> within_threshold d (rf_order_id r) (dec_cents (rf_amount r))))"

text \<open>A new row with the proposal that records it.\<close>

definition proposed :: "db \<Rightarrow> refund_row \<Rightarrow> stored_event \<Rightarrow> db \<Rightarrow> bool" where
  "proposed d r e d' \<longleftrightarrow> event_appended (d\<lparr>db_refunds := db_refunds d @ [r]\<rparr>) e d' \<and>
     rf_id r \<notin> rf_id ` set (db_refunds d) \<and> rf_status r = RS_PENDING_APPROVAL \<and>
     event_payload e = Inr (RefundProposedPayload (rf_id r) (rf_amount r)) \<and>
     ev_customer_id e = rf_customer_id r \<and> ev_order_id e = Some (rf_order_id r) \<and>
     verified_in (db_events d) (rf_customer_id r)"

definition neutral :: "stored_event \<Rightarrow> bool" where
  "neutral e \<longleftrightarrow> refund_move e = None \<and> ev_event_type e \<noteq> ET_CUSTOMER_VERIFIED"

section \<open>Worlds that satisfy a predicate\<close>

definition held :: "(db \<Rightarrow> bool) \<Rightarrow> world \<Rightarrow> bool" where
  "held I w \<longleftrightarrow> world_good w \<and> I (w_db w) \<and> I (w_committed w)"

definition held_committed :: "(db \<Rightarrow> bool) \<Rightarrow> world \<Rightarrow> bool" where
  "held_committed I w \<longleftrightarrow> committed_good w \<and> I (w_committed w)"

abbreviation abides :: "(db \<Rightarrow> bool) \<Rightarrow> 'a op \<Rightarrow> bool" where
  "abides I m \<equiv> hoare (held I) m (\<lambda>_. held I) (held_committed I)"

named_theorems abides_rules \<open>operations that keep every disciplined predicate\<close>

lemma heldD: "held I w \<Longrightarrow> world_good w" "held I w \<Longrightarrow> held_committed I w" "held I w \<Longrightarrow> I (w_db w)"
  by (simp_all add: held_def held_committed_def world_good_committed)

lemma abides_basic [abides_rules]:
  "abides I (returnM x)" "abides I (raiseM e)" "abides I (getM f)" "abides I (liftM r)" "abides I (ensureM b e)"
  by (auto simp: hoare_def heldD split: sum.split prod.split)

lemma abides_seq [abides_rules]:
  "abides I m \<Longrightarrow> (\<And>x. abides I (f x)) \<Longrightarrow> abides I (bindM m f)"
  "abides I m \<Longrightarrow> abides I n \<Longrightarrow> abides I (thenM m n)"
  by (auto intro: hoare_bindM hoare_thenM)

lemma abides_foldM [abides_rules]: "(\<And>b x. abides I (f b x)) \<Longrightarrow> abides I (foldM f b xs)"
  by (rule hoare_foldM)

lemma abides_cases [abides_rules]:
  "abides I m \<Longrightarrow> abides I n \<Longrightarrow> abides I (if b then m else n)"
  "abides I m \<Longrightarrow> (\<And>x. abides I (f x)) \<Longrightarrow> abides I (case r of None \<Rightarrow> m | Some x \<Rightarrow> f x)"
  "(\<And>x y. abides I (g x y)) \<Longrightarrow> abides I (case p of (x, y) \<Rightarrow> g x y)"
  "(\<And>x. abides I (f' x)) \<Longrightarrow> (\<And>y. abides I (g' y)) \<Longrightarrow> abides I (case s of Inl x \<Rightarrow> f' x | Inr y \<Rightarrow> g' y)"
  by (simp_all split: option.splits prod.splits sum.splits)

lemma abides_modify_world [abides_rules]:
  assumes "\<And>w. w_db (f w) = w_db w \<and> w_committed (f w) = w_committed w \<and> w_payment_calls (f w) = w_payment_calls w"
  shows "abides I (modifyM f)"
  using assms by (simp add: hoare_def held_def world_good_def)

lemma abides_ids [abides_rules]:
  "abides I clock_now" "abides I (mailer_send a b t)" "abides I (ticketing_escalate why)"
  "abides I ids_case_id" "abides I ids_refund_id" "abides I ids_event_id" "abides I ids_ticket_id"
  "abides I ids_verification_token"
  unfolding clock_now_def mailer_send_def ids_case_id_def ids_refund_id_def ids_event_id_def
    ids_ticket_id_def ids_verification_token_def ticketing_escalate_def next_identifier_def
  by (intro abides_rules; simp)+

lemma abides_lookups [abides_rules]:
  "abides I (find_customer_by_id u)" "abides I (find_case_by_id cs)" "abides I (find_order_by_id ord)"
  "abides I (find_refund_by_id rid)" "abides I (require_refund_by_id rid)" "abides I (load_customer_events u)"
  "abides I (load_case_events cs)" "abides I (list_orders_for_customer u)"
  "abides I (list_cases_for_customer_ordered u)" "abides I (find_open_refund_for_order ord)"
  "abides I (lock_customer_for_update u)" "abides I (find_customer_by_email m)"
  "abides I (find_case_for_customer_by_opening_message_id u t)" "abides I (load_disclosed_order_rows u ids)"
  "abides I (list_active_pending_refunds now)" "abides I (due_refund_rows u now)"
  unfolding find_customer_by_id_def find_case_by_id_def find_order_by_id_def find_refund_by_id_def
    require_refund_by_id_def load_customer_events_def load_case_events_def
    list_orders_for_customer_def list_cases_for_customer_ordered_def find_open_refund_for_order_def
    lock_customer_for_update_def find_customer_by_email_def load_disclosed_order_rows_def
    find_case_for_customer_by_opening_message_id_def list_active_pending_refunds_def due_refund_rows_def
  by (intro abides_rules)+

lemma abides_contexts [abides_rules]:
  "abides I (load_linked_order_summary linked evs now)" "abides I (load_rule_context_for_case cs)"
  "abides I (find_open_case_ids_for_customer u now)" "abides I (load_loop_prompt_context cs)"
  "abides I (case_status_now cs u)" "abides I (require_case_customer row)" "abides I (customer_id_for_case cs)"
proof -
  show linked: "abides I (load_linked_order_summary linked evs now)" for linked evs now
    unfolding load_linked_order_summary_def by (intro abides_rules)
  show "abides I (load_rule_context_for_case cs)"
    unfolding load_rule_context_for_case_def by (intro abides_rules linked)
  show "abides I (find_open_case_ids_for_customer u now)"
    unfolding find_open_case_ids_for_customer_def by (intro abides_rules)
  show "abides I (load_loop_prompt_context cs)"
    unfolding load_loop_prompt_context_def Let_def by (intro abides_rules)
  show "abides I (case_status_now cs u)" unfolding case_status_now_def by (intro abides_rules)
  show "abides I (require_case_customer row)" unfolding require_case_customer_def by (intro abides_rules)
  show "abides I (customer_id_for_case cs)" unfolding customer_id_for_case_def by (intro abides_rules)
qed

text \<open>
  Operations that leave committed data and payments alone: what they do to the current database
  has to be shown, for programs known to be safe.
\<close>

lemma quiet_same:
  "(\<And>c k. preserves (unmoved c k) m) \<Longrightarrow> m w = (r, w') \<Longrightarrow>
   w_committed w' = w_committed w \<and> w_payment_calls w' = w_payment_calls w"
  using preservesD [of "unmoved (w_committed w) (w_payment_calls w)" m w r w'] by simp

lemma abides_quiet:
  assumes "safe m" and "\<And>c k. preserves (unmoved c k) m"
    and "\<And>w x w'. held I w \<Longrightarrow> m w = (Inr x, w') \<Longrightarrow> I (w_db w')"
  shows "abides I m"
proof (rule hoareI)
  show "held I w'" if "held I w" "m w = (Inr x, w')" for w x w'
    using assms(3) [OF that] hoareD(1) [OF assms(1) heldD(1) [OF that(1)] that(2)]
      quiet_same [OF assms(2) that(2)] that(1) by (simp add: held_def)
  show "held_committed I w'" if "held I w" "m w = (Inl e, w')" for w e w'
    using hoareD(2) [OF assms(1) heldD(1) [OF that(1)] that(2)]
      quiet_same [OF assms(2) that(2)] that(1) by (simp add: held_def held_committed_def)
qed

section \<open>The interface\<close>

text \<open>
  A status change that awaits its event: the database before it, and the row it changed.
\<close>

definition in_window :: "(db \<Rightarrow> bool) \<Rightarrow> refund_row \<Rightarrow> refund_status \<Rightarrow> world \<Rightarrow> bool" where
  "in_window I r t w \<longleftrightarrow> held_committed I w \<and> distinct (map fst (db_event_sequences (w_db w))) \<and>
     (\<exists>d r'. I d \<and> db_ok d \<and> row_replaced d r r' (w_db w) \<and> rf_status r' = t \<and>
        t \<in> allowed_refund_status_targets (rf_status r))"

lemma window_open:
  assumes "held I w" and "transition_refund_status rid s t b clr w = (Inr True, w')"
  obtains r where "r \<in> set (db_refunds (w_db w))" and "transition_matches rid s b r" and "in_window I r t w'"
    and "db_events (w_db w') = db_events (w_db w)"
proof -
  note good = heldD(1) [OF assms(1)]
  obtain r where match: "transition_matches rid s b r" and t: "t \<in> allowed_refund_status_targets s"
    and rep: "row_replaced (w_db w) r (set_refund_status t clr r) (w_db w')"
    using transition_run [OF assms(2) world_goodD(2) [OF good]] by auto
  note frame = row_replaced_frame [OF rep]
  have "rf_status r = s" using match by (simp add: transition_matches_def)
  moreover have "held_committed I w'"
    using quiet_same [OF quiet_transition assms(2)] assms(1)
    by (simp add: held_def held_committed_def world_good_def committed_good_def)
  moreover have "db_ok (w_db w)" using good by (simp add: world_good_def good_def)
  ultimately have "in_window I r t w'"
    unfolding in_window_def using rep t frame(5) world_goodD(1) [OF good] heldD(3) [OF assms(1)]
    by (intro conjI exI [of _ "w_db w"] exI [of _ "set_refund_status t clr r"]) simp_all
  with that frame match show thesis by blast
qed

lemma window_stay:
  "held I w \<Longrightarrow> transition_refund_status rid s t b clr w = (Inr False, w') \<Longrightarrow> w' = w"
  using transition_run [OF _ world_goodD(2) [OF heldD(1)]] by blast

locale log_discipline =
  fixes I :: "db \<Rightarrow> bool"
  assumes frame: "I d \<Longrightarrow> db_events d' = db_events d \<Longrightarrow> db_refunds d' = db_refunds d \<Longrightarrow> I d'"
    and neutral: "I d \<Longrightarrow> event_appended d e d' \<Longrightarrow> neutral e \<Longrightarrow> I d'"
    and verified: "I d \<Longrightarrow> event_appended d e d' \<Longrightarrow> event_payload e = Inr (CustomerVerifiedPayload m) \<Longrightarrow>
      (m = VM_TOKEN \<Longrightarrow> token_open (db_events d) (ev_customer_id e) (ev_created_at e)) \<Longrightarrow> I d'"
    and propose: "I d \<Longrightarrow> db_ok d \<Longrightarrow> proposed d r e d' \<Longrightarrow> I d'"
    and advance: "I d \<Longrightarrow> db_ok d \<Longrightarrow> advanced d r e d' \<Longrightarrow> I d'"
begin

lemma append_neutral:
  assumes "payload_class p = payload_model_for_event_type et" and "refund_move_of_payload p = None"
    and "et \<notin> {ET_REFUND_PROPOSED, ET_REFUND_EXECUTED, ET_REFUND_REJECTED, ET_REFUND_EXPIRED, ET_CUSTOMER_VERIFIED}"
  shows "abides I (append_canonical_event (EvMember et) u cs ord a ch (model_dump p))"
proof (rule abides_quiet [OF safe_append quiet_append])
  fix w e w'
  assume held: "held I w"
    and run: "append_canonical_event (EvMember et) u cs ord a ch (model_dump p) w = (Inr e, w')"
  have "is_money amt" if "p = RefundExecutedPayload x amt ref" for x amt ref
    using that assms(2) by simp
  note app = append_run [OF run assms(1) this world_goodD(1) [OF heldD(1) [OF held]]]
  have "neutral e" using app(3,7) assms(2,3) by (simp add: neutral_def refund_move_def)
  with heldD(3) [OF held] app(1) show "I (w_db w')" by (rule neutral)
qed (use assms in auto)

lemma insert_rows:
  "abides I (insert_case c)" "abides I (insert_customer u)"
  "is_money (or_total v) \<Longrightarrow> abides I (insert_order v)"
proof -
  show "abides I (insert_case c)"
    by (rule abides_quiet [OF safe_insert_case quiet_inserts(1)])
      (auto dest!: insert_case_run(1) intro: frame [OF heldD(3)])
  show "abides I (insert_customer u)"
    by (rule abides_quiet [OF safe_insert_customer quiet_inserts(4)])
      (auto simp: insert_customer_def split: if_splits intro: frame [OF heldD(3)])
  show "abides I (insert_order v)" if "is_money (or_total v)"
    by (rule abides_quiet [OF safe_insert_order [OF that] quiet_inserts(5)])
      (auto simp: insert_order_def split: if_splits intro: frame [OF heldD(3)])
qed

lemma window_close:
  assumes window: "in_window I r t w"
    and run: "append_canonical_event (EvMember et) u cs (Some (rf_order_id r)) a ch (model_dump p) w = (Inr e, w')"
    and model: "payload_class p = payload_model_for_event_type et"
    and move: "refund_move_of_payload p = Some (rf_id r, t)"
    and money: "\<And>x amt ref. p = RefundExecutedPayload x amt ref \<Longrightarrow> is_money amt"
    and auto: "et = ET_REFUND_AUTO_APPROVED \<Longrightarrow> within_threshold (w_db w) (rf_order_id r) (dec_cents (rf_amount r))"
  shows "I (w_db w')"
proof -
  obtain d r' where d: "I d" "db_ok d" and rep: "row_replaced d r r' (w_db w)"
    and r': "rf_status r' = t" "t \<in> allowed_refund_status_targets (rf_status r)"
    and seqs: "distinct (map fst (db_event_sequences (w_db w)))"
    using window by (auto simp: in_window_def)
  have money': "is_money amt" if "p = RefundExecutedPayload x amt ref" for x amt ref
    by (rule money [OF that])
  note app = append_run [OF run model money' seqs]
  have "refund_move e = Some (rf_id r, rf_status r')" using app(7) move r' by (simp add: refund_move_def)
  moreover have "within_threshold d = within_threshold (w_db w)"
    using row_replaced_frame(1) [OF rep] by (simp add: within_threshold_def order_events_def fun_eq_iff)
  ultimately have "advanced d r e (w_db w')"
    unfolding advanced_def using rep app(1,3,6) r' auto
    by (intro exI [of _ r'] exI [of _ "w_db w"]) simp
  with d show ?thesis by (rule advance)
qed

end

lemma committed_frame:
  assumes "\<And>c k. preserves (unmoved c k) m" and "held I w" and "m w = (r, w')"
  shows "held_committed I w'"
  using quiet_same [OF assms(1,3)] assms(2)
  by (simp add: held_def held_committed_def world_good_def committed_good_def)

context log_discipline
begin

section \<open>Expiry and rejection\<close>

lemma expire_one:
  assumes "r \<in> set due"
  shows "hoare (\<lambda>w. rows_known due w \<and> held I w) (expire_one_refund u acc r)
    (\<lambda>_ w. rows_known due w \<and> held I w) (held_committed I)"
proof (rule hoareI)
  fix w e w'
  assume "rows_known due w \<and> held I w" and run: "expire_one_refund u acc r w = (Inl e, w')"
  then show "held_committed I w'" using committed_frame [OF quiet_expire_one _ run] by blast
next
  fix w x w'
  assume both: "rows_known due w \<and> held I w" and run: "expire_one_refund u acc r w = (Inr x, w')"
  then have known: "rows_known due w" and held: "held I w" by simp_all
  have known': "rows_known due w'" by (rule expire_one_run [OF known assms run])
  obtain moved w1 where move: "transition_refund_status (rf_id r) RS_PENDING_APPROVAL RS_EXPIRED None True w = (Inr moved, w1)"
    and rest: "(if \<not> moved then returnM acc
       else bindM (append_event ET_REFUND_EXPIRED u (Some (rf_case_id r)) (Some (rf_order_id r))
              Actor_SYSTEM Channel_INTERNAL (RefundExpiredPayload (rf_id r))) (\<lambda>_.
            returnM (if rf_case_id r \<in> set acc then acc else acc @ [rf_case_id r]))) w1 = (Inr x, w')"
    using run unfolding expire_one_refund_def bindM_eq_Inr by blast
  have "I (w_db w')"
  proof (cases moved)
    case False
    with move have "w1 = w" by (simp add: window_stay [OF held])
    with False rest heldD(3) [OF held] show ?thesis by simp
  next
    case True
    with move obtain r1 where r1: "r1 \<in> set (db_refunds (w_db w))"
        "transition_matches (rf_id r) RS_PENDING_APPROVAL None r1" "in_window I r1 RS_EXPIRED w1"
      using window_open [OF held] by metis
    obtain r2 where r2: "r2 \<in> set (db_refunds (w_db w))" "refund_intent r2 = refund_intent r"
      using known assms by (auto simp: rows_known_def)
    then have "r1 = r2"
      using r1 heldD(1) [OF held] by (intro refund_row_unique) (auto simp: transition_matches_def refund_intent_def)
    then have same: "rf_order_id r1 = rf_order_id r" "rf_id r1 = rf_id r"
      using r2 by (simp_all add: refund_intent_def)
    obtain e where event: "append_canonical_event (EvMember ET_REFUND_EXPIRED) u (Some (rf_case_id r))
        (Some (rf_order_id r)) Actor_SYSTEM Channel_INTERNAL (model_dump (RefundExpiredPayload (rf_id r))) w1 = (Inr e, w')"
      using rest True by (auto simp: bindM_eq_Inr simp del: model_dump.simps)
    show ?thesis by (rule window_close [OF r1(3) event [folded same]]) simp_all
  qed
  with known' committed_frame [OF quiet_expire_one held run] show "rows_known due w' \<and> held I w'"
    by (simp add: held_def held_committed_def rows_known_def)
qed

lemma expire_due: "abides I (expire_due_refunds_for_customer u)"
proof -
  have due: "hoare (held I) (due_refund_rows u now) (\<lambda>due w. rows_known due w \<and> held I w) (held_committed I)" for now
    by (auto simp: hoare_def due_refund_rows_def rows_known_def heldD)
  have loop: "hoare (\<lambda>w. rows_known due w \<and> held I w) (foldM (expire_one_refund u) [] due)
      (\<lambda>_. held I) (held_committed I)" for due
    by (rule hoare_weaken [OF hoare_foldM [OF expire_one]]) auto
  show ?thesis
    unfolding expire_due_refunds_for_customer_def
    by (intro hoare_bindM [OF abides_lookups(11)] hoare_bindM [OF abides_ids(1)] hoare_bindM [OF due]
        hoare_bindM [OF loop] abides_rules)
qed

lemma settle_rejection: "abides I (settle_rejection rid oper reason u cs ord amt reopened out)"
proof (rule abides_quiet [OF safe_settle_rejection quiet_settle_rejection])
  fix w x w'
  assume held: "held I w" and run: "settle_rejection rid oper reason u cs ord amt reopened out w = (Inr x, w')"
  obtain moved w1 where move: "transition_refund_status rid RS_PENDING_APPROVAL RS_REJECTED
      (Some \<lparr>ib_order_id = ord, ib_case_id = cs, ib_amount = amt\<rparr>) True w = (Inr moved, w1)"
    and rest: "(if \<not> moved then
           bindM (require_refund_by_id rid) (\<lambda>fresh.
             returnM (operator_conflict cs rid (rf_status fresh) reopened))
         else thenM (append_refund_rejected u cs ord rid oper reason) (returnM out)) w1 = (Inr x, w')"
    using run unfolding settle_rejection_def bindM_eq_Inr by blast
  show "I (w_db w')"
  proof (cases moved)
    case True
    with move obtain r where r: "transition_matches rid RS_PENDING_APPROVAL
        (Some \<lparr>ib_order_id = ord, ib_case_id = cs, ib_amount = amt\<rparr>) r" "in_window I r RS_REJECTED w1"
      using window_open [OF held] by metis
    have same: "ord = rf_order_id r" "rid = rf_id r" using r(1) by (simp_all add: transition_matches_def)
    obtain e where event: "append_canonical_event (EvMember ET_REFUND_REJECTED) u (Some cs) (Some ord)
        Actor_OPERATOR Channel_OPERATOR_API (model_dump (RefundRejectedPayload rid oper reason)) w1 = (Inr e, w')"
      using rest True by (auto simp: append_refund_rejected_def thenM_eq_Inr simp del: model_dump.simps)
    show ?thesis by (rule window_close [OF r(2) event [unfolded same]]) simp_all
  next
    case False
    with move have "w1 = w" by (simp add: window_stay [OF held])
    moreover have "w' = w1"
      using rest False by (auto simp: bindM_eq_Inr require_refund_by_id_def find_refund_by_id_def split: option.splits)
    ultimately show ?thesis using heldD(3) [OF held] by simp
  qed
qed

section \<open>Payment\<close>

lemma record_executed:
  assumes "is_money amt"
  shows "abides I (record_refund_executed_after_payment u cs ord rid amt pref False)"
proof (rule abides_quiet [OF safe_record_executed [OF assms] quiet_record_executed])
  fix w e w'
  assume held: "held I w"
    and run: "record_refund_executed_after_payment u cs ord rid amt pref False w = (Inr e, w')"
  let ?b = "Some \<lparr>ib_order_id = ord, ib_case_id = cs, ib_amount = amt\<rparr>"
  obtain w1 where move: "transition_refund_status rid RS_APPROVED RS_EXECUTED ?b True w = (Inr True, w1)"
    and event: "append_canonical_event (EvMember ET_REFUND_EXECUTED) u (Some cs) (Some ord) Actor_SYSTEM
      Channel_INTERNAL (model_dump (RefundExecutedPayload rid amt pref)) w1 = (Inr e, w')"
    using run
    by (auto simp: record_refund_executed_after_payment_def append_refund_executed_def bindM_eq_Inr
        thenM_eq_Inr find_refund_by_id_def simp del: model_dump.simps split: if_splits)
  obtain r where r: "transition_matches rid RS_APPROVED ?b r" "in_window I r RS_EXECUTED w1"
    using window_open [OF held move] by metis
  have same: "ord = rf_order_id r" "rid = rf_id r" using r(1) by (simp_all add: transition_matches_def)
  show "I (w_db w')" by (rule window_close [OF r(2) event [unfolded same]]) (use assms in simp_all)
qed

lemma session:
  assumes "abides I m"
  shows "hoare (held_committed I) (session_begin m) (\<lambda>_. held I) (held I)"
proof (rule hoareI)
  fix w r w'
  assume start: "held_committed I w"
  then have "held I (w\<lparr>w_db := w_committed w\<rparr>)"
    by (simp add: held_def held_committed_def world_good_def committed_good_def)
  note ends = hoareD [OF assms this]
  show "held I w'" if "session_begin m w = (Inr x, w')" for x
    using that ends(1)
    by (fastforce simp: session_begin_def held_def world_good_def split: prod.splits sum.splits)
  show "held I w'" if "session_begin m w = (Inl e, w')" for e
    using that ends(2)
    by (fastforce simp: session_begin_def held_def held_committed_def world_good_def committed_good_def
        split: prod.splits sum.splits)
qed

lemma execute_payment:
  "hoare (\<lambda>w. payable_committed rid amt w \<and> held I w)
     (execute_payment_after_committed_intent u cs ord rid amt) (\<lambda>_. held I) (held_committed I)"
proof (cases "is_money amt")
  case True
  have pay: "hoare (\<lambda>w. payable_committed rid amt w \<and> held I w) (payment_refund rid amt)
      (\<lambda>_. held_committed I) (held_committed I)"
  proof (rule hoare_weaken [OF hoare_conj [OF hoare_payment_refund]])
    show "hoare (held I) (payment_refund rid amt) (\<lambda>_ w. I (w_committed w)) (\<lambda>w. I (w_committed w))"
      by (auto simp: hoare_def payment_refund_def held_def thenM_def bindM_def split: option.split)
  qed (auto simp: held_committed_def world_good_committed)
  have "hoare (held_committed I) (session_begin (bindM (lock_customer_for_update u) (\<lambda>_.
      record_refund_executed_after_payment u cs ord rid amt pref False))) (\<lambda>_. held I) (held_committed I)" for pref
    by (rule hoare_weaken [OF session]) (intro abides_rules record_executed True | simp add: heldD)+
  then show ?thesis
    unfolding execute_payment_after_committed_intent_def by (intro hoare_bindM [OF pay])
qed (simp add: hoare_def payable_committed_def payable_def)

lemma commit_and_pay:
  "hoare (\<lambda>w. payable rid amt w \<and> held I w) (thenM commit_refund_intent_before_payment
     (thenM (execute_payment_after_committed_intent u cs ord rid amt) (returnM x)))
     (\<lambda>_. held I) (held_committed I)"
proof -
  have "hoare (\<lambda>w. payable rid amt w \<and> held I w) commit_session
      (\<lambda>_ w. payable_committed rid amt w \<and> held I w) (held_committed I)"
    by (simp add: hoare_def commit_session_def payable_committed_def payable_def held_def world_good_def)
  then show ?thesis
    unfolding commit_refund_intent_before_payment_def
    by (intro hoare_thenM [OF _ hoare_thenM [OF execute_payment]] abides_rules)
qed

end

end
