(* ===== verification/Discipline_Gate.thy ===== *)
theory Discipline_Gate
  imports Discipline
begin

text \<open>
  The operations that propose and approve refunds keep every disciplined predicate.
\<close>

section \<open>Approving and paying\<close>

text \<open>A row that was just approved and awaits its event; \<open>auto\<close> when policy approved it.\<close>

definition approving :: "(db \<Rightarrow> bool) \<Rightarrow> bool \<Rightarrow> pystr \<Rightarrow> pystr \<Rightarrow> decimal \<Rightarrow> world \<Rightarrow> bool" where
  "approving I auto rid ord amt w \<longleftrightarrow> payable rid amt w \<and>
     (auto \<longrightarrow> within_threshold (w_db w) ord (dec_cents amt)) \<and>
     (\<exists>r. in_window I r RS_APPROVED w \<and> rf_id r = rid \<and> rf_order_id r = ord \<and> rf_amount r = amt)"

lemma within_threshold_cong:
  "db_events d' = db_events d \<Longrightarrow> within_threshold d' = within_threshold d"
  by (simp add: within_threshold_def order_events_def fun_eq_iff)

context log_discipline
begin

lemma open_approval:
  "hoare (\<lambda>w. held I w \<and> is_money amt \<and> (auto \<longrightarrow> within_threshold (w_db w) ord (dec_cents amt)))
     (transition_refund_status rid RS_PENDING_APPROVAL RS_APPROVED
        (Some \<lparr>ib_order_id = ord, ib_case_id = cs, ib_amount = amt\<rparr>) True)
     (\<lambda>moved w. if moved then approving I auto rid ord amt w else held I w) (held_committed I)"
  (is "hoare ?P ?m ?Q _")
proof (rule hoareI)
  fix w moved w'
  assume P: "?P w" and run: "?m w = (Inr moved, w')"
  then have held: "held I w" by simp
  show "?Q moved w'"
  proof (cases moved)
    case True
    with run obtain r where r: "r \<in> set (db_refunds (w_db w))" "in_window I r RS_APPROVED w'"
      and match: "transition_matches rid RS_PENDING_APPROVAL
        (Some \<lparr>ib_order_id = ord, ib_case_id = cs, ib_amount = amt\<rparr>) r"
      and events: "db_events (w_db w') = db_events (w_db w)"
      using window_open [OF held] by metis
    have "rf_amount r = amt" using matched_amount [OF heldD(1) [OF held] r(1) _ match] P by simp
    moreover have "payable rid amt w'"
      using hoareD(1) [OF hoare_transition_payable _ run] P heldD(1) [OF held] True by simp
    ultimately show ?thesis
      using r match True P within_threshold_cong [OF events] by (auto simp: approving_def transition_matches_def)
  next
    case False
    with run have "w' = w" by (simp add: window_stay [OF held])
    with False held show ?thesis by simp
  qed
next
  fix w e w'
  assume "?P w" and run: "?m w = (Inl e, w')"
  then show "held_committed I w'" using committed_frame [OF quiet_transition _ run] by blast
qed

lemma close_approval:
  assumes "payload_class p = payload_model_for_event_type et" and "et \<in> {ET_REFUND_AUTO_APPROVED, ET_REFUND_APPROVED}"
    and "refund_move_of_payload p = Some (rid, RS_APPROVED)" and "et = ET_REFUND_AUTO_APPROVED \<Longrightarrow> auto"
  shows "hoare (approving I auto rid ord amt) (append_canonical_event (EvMember et) u cs (Some ord) a ch (model_dump p))
    (\<lambda>_ w. payable rid amt w \<and> held I w) (held_committed I)"
  (is "hoare _ ?m _ _")
proof (rule hoareI)
  fix w e w'
  assume pre: "approving I auto rid ord amt w" and run: "?m w = (Inr e, w')"
  then have pay: "payable rid amt w" and window: "held_committed I w"
    by (auto simp: approving_def in_window_def)
  have "et \<notin> {ET_REFUND_PROPOSED, ET_REFUND_EXECUTED, ET_REFUND_REJECTED, ET_REFUND_EXPIRED}"
    using assms(2) by auto
  then have payable: "payable rid amt w'"
    by (rule hoareD(1) [OF hoare_append_payable [OF assms(1)] pay run])
  obtain r where r: "in_window I r RS_APPROVED w" "rf_id r = rid" "rf_order_id r = ord" "rf_amount r = amt"
    using pre by (auto simp: approving_def)
  have "I (w_db w')"
    by (rule window_close [OF r(1) run [folded r(3)] assms(1)])
      (use assms r pre in \<open>auto simp: approving_def\<close>)
  with payable quiet_same [OF quiet_append run] window show "payable rid amt w' \<and> held I w'"
    by (simp add: held_def held_committed_def payable_def)
next
  fix w e w'
  assume "approving I auto rid ord amt w" and run: "?m w = (Inl e, w')"
  then have "held_committed I w" by (auto simp: approving_def in_window_def)
  with quiet_same [OF quiet_append run] show "held_committed I w'"
    by (simp add: held_committed_def committed_good_def)
qed

lemma evidence:
  "hoare (held I) (validate_refund_intent_against_proposed_evidence r u)
     (\<lambda>x w. held I w \<and> is_money (snd x)) (held_committed I)"
proof (rule hoareI)
  fix w x w'
  assume held: "held I w" and run: "validate_refund_intent_against_proposed_evidence r u w = (Inr x, w')"
  then show "held I w' \<and> is_money (snd x)"
    using hoareD(1) [OF hoare_evidence heldD(1) [OF held] run] evidence_run(1) [of r u w "fst x" "snd x" w'] by simp
next
  fix w e w'
  assume held: "held I w" and run: "validate_refund_intent_against_proposed_evidence r u w = (Inl e, w')"
  then show "held_committed I w'" using committed_frame [OF quiet_evidence _ run] by blast
qed

lemma approve: "abides I (approve_refund rid oper)"
proof -
  have pay: "hoare (\<lambda>w. held I w \<and> is_money amt)
      (bindM (transition_refund_status rid RS_PENDING_APPROVAL RS_APPROVED
             (Some \<lparr>ib_order_id = ord, ib_case_id = cs, ib_amount = amt\<rparr>) True)
           (\<lambda>moved.
           if \<not> moved then
             bindM (require_refund_by_id rid) (\<lambda>fresh.
               returnM (operator_conflict cs rid (rf_status fresh) reopened))
           else
             thenM (append_refund_approved u cs ord rid oper)
            (thenM commit_refund_intent_before_payment
            (thenM (execute_payment_after_committed_intent u cs ord rid amt) (returnM out)))))
      (\<lambda>_. held I) (held_committed I)" for amt ord cs reopened u out
  proof (rule hoare_pre [OF hoare_bindM [OF open_approval [where auto = False]]])
    fix moved
    have conflict: "abides I (bindM (require_refund_by_id rid) (\<lambda>fresh.
        returnM (operator_conflict cs rid (rf_status fresh) reopened)))" by (intro abides_rules)
    have approved: "hoare (approving I False rid ord amt) (append_refund_approved u cs ord rid oper)
        (\<lambda>_ w. payable rid amt w \<and> held I w) (held_committed I)"
      unfolding append_refund_approved_def by (rule close_approval) simp_all
    show "hoare (\<lambda>w. if moved then approving I False rid ord amt w else held I w)
      (if \<not> moved then
             bindM (require_refund_by_id rid) (\<lambda>fresh.
               returnM (operator_conflict cs rid (rf_status fresh) reopened))
           else
             thenM (append_refund_approved u cs ord rid oper)
            (thenM commit_refund_intent_before_payment
            (thenM (execute_payment_after_committed_intent u cs ord rid amt) (returnM out))))
      (\<lambda>_. held I) (held_committed I)"
      using conflict hoare_thenM [OF approved commit_and_pay] by (cases moved) simp_all
  qed simp
  have pay': "hoare (\<lambda>w. held I w \<and> is_money (snd x)) (case x of (_, amt) \<Rightarrow> m amt) Q R"
    if "\<And>amt. hoare (\<lambda>w. held I w \<and> is_money amt) (m amt) Q R" for x m Q R
    using that [of "snd x"] by (cases x) simp
  show ?thesis
    unfolding approve_refund_def Let_def transition_pending_refund_status_def
    by (intro abides_seq abides_lookups abides_contexts expire_due abides_cases(1)
        abides_basic(1) hoare_bindM [OF evidence] pay' pay)
qed

lemma reject: "abides I (reject_refund rid oper reason)"
  unfolding reject_refund_def Let_def transition_pending_refund_status_def
  by (intro abides_seq abides_lookups abides_contexts expire_due abides_cases(1)
      abides_basic(1) settle_rejection [unfolded settle_rejection_def])

end

section \<open>Proposing\<close>

definition proposing :: "(db \<Rightarrow> bool) \<Rightarrow> bool \<Rightarrow> pystr \<Rightarrow> pystr \<Rightarrow> decimal \<Rightarrow> world \<Rightarrow> bool" where
  "proposing I auto u ord a w \<longleftrightarrow> roomy u ord a w \<and> held I w \<and> verified_in (db_events (w_db w)) u \<and>
     (auto \<longrightarrow> within_threshold (w_db w) ord (amount_cents a))"

definition row_pending :: "(db \<Rightarrow> bool) \<Rightarrow> bool \<Rightarrow> refund_row \<Rightarrow> world \<Rightarrow> bool" where
  "row_pending I auto r w \<longleftrightarrow> held_committed I w \<and> inserted r w \<and>
     (\<exists>d. I d \<and> db_ok d \<and> w_db w = d\<lparr>db_refunds := db_refunds d @ [r]\<rparr> \<and> rf_id r \<notin> rf_id ` set (db_refunds d) \<and>
        rf_status r = RS_PENDING_APPROVAL \<and> verified_in (db_events d) (rf_customer_id r) \<and>
        distinct (map fst (db_event_sequences d)) \<and>
        (auto \<longrightarrow> within_threshold d (rf_order_id r) (dec_cents (rf_amount r))))"

lemma proposing_committed: "proposing I auto u ord a w \<Longrightarrow> held_committed I w"
  by (simp add: proposing_def heldD)

lemma proposing_quantize:
  "hoare (proposing I auto u ord a) (liftM (quantize_refund_amount a))
     (\<lambda>amount w. proposing I auto u ord a w \<and> amount = cents (amount_cents a) \<and> amount_cents a < 10 ^ 12)
     (held_committed I)"
  using quantize_sound
  by (intro hoare_liftM) (auto simp: proposing_def roomy_def refund_room_def heldD)

lemma proposing_steady:
  "hoare (proposing I auto u ord a) ids_refund_id (\<lambda>_. proposing I auto u ord a) (held_committed I)"
  "hoare (proposing I auto u ord a) clock_now (\<lambda>_. proposing I auto u ord a) (held_committed I)"
  by (auto simp: hoare_def ids_refund_id_def next_identifier_def clock_now_def proposing_def roomy_def
      held_def world_good_def held_committed_def committed_good_def)

lemma proposing_scope:
  "hoare (proposing I auto u ord a) (validate_refund_relational_scope cs ord') (\<lambda>_. proposing I auto u ord a)
     (held_committed I)"
proof (rule hoareI)
  fix w x w'
  assume "proposing I auto u ord a w" and "validate_refund_relational_scope cs ord' w = (Inr x, w')"
  then show "proposing I auto u ord a w'" using refund_scope_run(1) by blast
next
  fix w e w'
  assume "proposing I auto u ord a w" and run: "validate_refund_relational_scope cs ord' w = (Inl e, w')"
  then show "held_committed I w'" using committed_frame [OF quiet_scope(2) _ run] by (simp add: proposing_def)
qed

lemma proposing_insert:
  assumes "rf_customer_id r = u" and "rf_order_id r = ord" and "rf_status r = RS_PENDING_APPROVAL"
    and "rf_amount r = cents (amount_cents a)" and "amount_cents a < 10 ^ 12"
  shows "hoare (proposing I auto u ord a) (insert_refund r) (\<lambda>_. row_pending I auto r) (held_committed I)"
proof (rule hoareI)
  fix w x w'
  assume pre: "proposing I auto u ord a w" and run: "insert_refund r w = (Inr x, w')"
  then have room: "roomy u ord a w" and held: "held I w" by (simp_all add: proposing_def)
  note ins = insert_refund_run [OF run]
  have "inserted r w'" by (rule hoareD(1) [OF hoare_insert_refund [OF assms] room run])
  moreover have "dec_cents (rf_amount r) = amount_cents a" using assms(4) by (simp add: dec_cents_def cents_def)
  moreover have "db_ok (w_db w)" using heldD(1) [OF held] by (simp add: world_good_def good_def)
  moreover have "held_committed I w'" by (rule committed_frame [OF quiet_inserts(3) held run])
  ultimately show "row_pending I auto r w'"
    unfolding row_pending_def using ins pre held assms world_goodD(1) [OF heldD(1) [OF held]]
    by (auto simp: proposing_def held_def intro!: exI [of _ "w_db w"])
next
  fix w e w'
  assume "proposing I auto u ord a w" and run: "insert_refund r w = (Inl e, w')"
  then show "held_committed I w'" using committed_frame [OF quiet_inserts(3) _ run] by (simp add: proposing_def)
qed

context log_discipline
begin

lemma append_proposed:
  assumes "rf_id r = rid" and "rf_customer_id r = u" and "rf_case_id r = cs" and "rf_order_id r = ord"
    and "rf_amount r = amt"
  shows "hoare (row_pending I auto r) (append_refund_proposed u cs ord rid amt)
    (\<lambda>_ w. held I w \<and> is_money amt \<and> (auto \<longrightarrow> within_threshold (w_db w) ord (dec_cents amt))) (held_committed I)"
  unfolding append_refund_proposed_def
proof (rule hoareI)
  fix w e w'
  assume pre: "row_pending I auto r w" and run: "append_event ET_REFUND_PROPOSED u (Some cs) (Some ord) Actor_AGENT
    Channel_INTERNAL (RefundProposedPayload rid amt) w = (Inr e, w')"
  obtain d where d: "I d" "db_ok d" "w_db w = d\<lparr>db_refunds := db_refunds d @ [r]\<rparr>"
    and row: "rf_id r \<notin> rf_id ` set (db_refunds d)" "rf_status r = RS_PENDING_APPROVAL"
      "verified_in (db_events d) (rf_customer_id r)"
    and seqs: "distinct (map fst (db_event_sequences d))"
    and auto: "auto \<longrightarrow> within_threshold d (rf_order_id r) (dec_cents (rf_amount r))"
    using pre by (auto simp: row_pending_def)
  have seqs: "distinct (map fst (db_event_sequences (w_db w)))" using seqs d(3) by simp
  note app = append_run [OF run _ _ seqs, simplified]
  have "proposed d r e (w_db w')" using app d(3) row assms by (simp add: proposed_def)
  with d(1,2) have "I (w_db w')" by (rule propose)
  moreover have "order_events (w_db w') ord = order_events d ord @ [e]" "executed_cents e = 0"
    using event_appendedD(1) [OF app(1)] app(3,6) d(3) by (simp_all add: order_events_def executed_cents_def)
  then have "auto \<longrightarrow> within_threshold (w_db w') ord (dec_cents amt)"
    using auto assms by (simp add: within_threshold_def)
  moreover have "world_good w' \<and> is_money amt"
    using hoareD(1) [OF hoare_append_proposed [OF assms] _ run [folded append_refund_proposed_def]] pre
    by (simp add: row_pending_def)
  moreover have "w_committed w' = w_committed w" using quiet_same [OF quiet_append run] by simp
  ultimately show "held I w' \<and> is_money amt \<and> (auto \<longrightarrow> within_threshold (w_db w') ord (dec_cents amt))"
    using pre by (simp add: held_def row_pending_def held_committed_def)
next
  fix w e w'
  assume "row_pending I auto r w" and run: "append_event ET_REFUND_PROPOSED u (Some cs) (Some ord) Actor_AGENT
    Channel_INTERNAL (RefundProposedPayload rid amt) w = (Inl e, w')"
  then show "held_committed I w'"
    using quiet_same [OF quiet_append run] by (simp add: row_pending_def held_committed_def committed_good_def)
qed

text \<open>What a persisted proposal leaves behind.\<close>

lemma decide:
  "hoare (\<lambda>w. held I w \<and> is_money amt \<and> (decision = None \<longrightarrow> within_threshold (w_db w) ord (dec_cents amt)))
    (case decision of
       None \<Rightarrow>
         bindM (transition_refund_status rid RS_PENDING_APPROVAL RS_APPROVED
             (Some \<lparr>ib_order_id = ord, ib_case_id = cs, ib_amount = amt\<rparr>) True)
           (\<lambda>moved. thenM (ensureM moved (RuntimeError msg))
              (thenM (append_refund_auto_approved u cs ord rid)
                 (returnM (Allow, True, rid, amt, ord))))
     | Some b \<Rightarrow>
         thenM (append_refund_approval_required u cs ord rid amt (approval_rule b))
           (returnM (Blocked b, False, rid, amt, ord)))
    (\<lambda>x w. settled x w \<and> held I w) (held_committed I)"
proof (cases decision)
  case None
  have moved: "hoare (\<lambda>w. if moved then approving I True rid ord amt w else held I w) (ensureM moved (RuntimeError msg))
      (\<lambda>_. approving I True rid ord amt) (held_committed I)" for moved
    by (rule hoare_ensureM) (auto simp: heldD approving_def in_window_def split: if_splits)
  have approved: "hoare (approving I True rid ord amt) (append_refund_auto_approved u cs ord rid)
      (\<lambda>_ w. payable rid amt w \<and> held I w) (held_committed I)"
    unfolding append_refund_auto_approved_def by (rule close_approval) simp_all
  have return: "hoare (\<lambda>w. payable rid amt w \<and> held I w) (returnM (Allow, True, rid, amt, ord))
      (\<lambda>x w. settled x w \<and> held I w) (held_committed I)"
    by (rule hoare_returnM) (simp add: settledI(1))
  show ?thesis
    unfolding None option.case
    by (rule hoare_pre [OF hoare_bindM [OF open_approval [where auto = True]
          hoare_thenM [OF moved hoare_thenM [OF approved return]]]]) simp
next
  case (Some b)
  have "abides I (append_refund_approval_required u cs ord rid amt (approval_rule b))"
    unfolding append_refund_approval_required_def by (rule append_neutral) simp_all
  moreover have "hoare (held I) (returnM (Blocked b, False, rid, amt, ord)) (\<lambda>x w. settled x w \<and> held I w)
      (held_committed I)"
    by (rule hoare_returnM) (simp add: settledI(2) heldD)
  ultimately show ?thesis
    unfolding Some option.case by (rule hoare_pre [OF hoare_thenM]) simp
qed

lemma persist_decided:
  "hoare (proposing I (decision = None) u ord a) (persist_decided_refund u cs ord a decision)
    (\<lambda>x w. settled x w \<and> held I w) (held_committed I)"
proof -
  let ?P = "proposing I (decision = None) u ord a"
  have row: "hoare ?P (thenM (ensureM (v = u) err)
      (thenM (insert_refund \<lparr>rf_id = rid, rf_customer_id = v, rf_order_id = ord, rf_case_id = cs,
          rf_amount = amt, rf_status = RS_PENDING_APPROVAL, rf_approval_expires_at = x, rf_created_at = now\<rparr>)
      (thenM (append_refund_proposed u cs ord rid amt) n))) Q (held_committed I)"
    if amt: "amt = cents (amount_cents a)" "amount_cents a < 10 ^ 12"
      and n: "hoare (\<lambda>w. held I w \<and> is_money amt \<and> (decision = None \<longrightarrow> within_threshold (w_db w) ord (dec_cents amt)))
        n Q (held_committed I)"
    for rid v amt x now n err Q
  proof (cases "v = u")
    case True
    let ?r = "\<lparr>rf_id = rid, rf_customer_id = v, rf_order_id = ord, rf_case_id = cs,
          rf_amount = amt, rf_status = RS_PENDING_APPROVAL, rf_approval_expires_at = x, rf_created_at = now\<rparr>"
    have "hoare ?P (insert_refund ?r) (\<lambda>_. row_pending I (decision = None) ?r) (held_committed I)"
      by (rule proposing_insert [OF _ _ _ _ amt(2)]) (simp_all add: True amt(1))
    moreover have "hoare (row_pending I (decision = None) ?r) (append_refund_proposed u cs ord rid amt)
        (\<lambda>_ w. held I w \<and> is_money amt \<and> (decision = None \<longrightarrow> within_threshold (w_db w) ord (dec_cents amt)))
        (held_committed I)"
      by (rule append_proposed) (simp_all add: True)
    moreover have "hoare ?P (ensureM (v = u) err) (\<lambda>_. ?P) (held_committed I)"
      by (rule hoare_ensureM) (simp_all add: proposing_committed)
    ultimately show ?thesis using n by (intro hoare_thenM)
  next
    case False
    then show ?thesis by (simp add: hoare_def proposing_committed)
  qed
  have rest: "hoare (\<lambda>w. ?P w \<and> amount = cents (amount_cents a) \<and> amount_cents a < 10 ^ 12) m Q (held_committed I)"
    if "amount = cents (amount_cents a) \<Longrightarrow> amount_cents a < 10 ^ 12 \<Longrightarrow> hoare ?P m Q (held_committed I)"
    for m amount Q
    using that by (auto simp: hoare_def)
  show ?thesis
    unfolding persist_decided_refund_def
    by (rule hoare_bindM [OF proposing_quantize], rule rest)
      (intro hoare_bindM [OF proposing_steady(1)] hoare_bindM [OF proposing_steady(2)]
        hoare_bindM [OF proposing_scope] row decide; assumption)
qed

end

section \<open>What the policy decided on\<close>

lemma context_verified:
  assumes "load_rule_context_for_case cs w = (Inr (row, ctx), w')" and "sequences_ok (w_db w)"
    and "cust_verified (rc_customer ctx)"
  shows "verified_in (db_events (w_db w)) (ca_customer_id row)"
proof -
  let ?evs = "customer_events (w_db w) (ca_customer_id row)"
  obtain customer now where "find (\<lambda>r. cu_id r = ca_customer_id row) (db_customers (w_db w)) = Some customer"
    and "rc_customer ctx = project_customer_summary
      \<lparr>cseed_customer_id = cu_id customer, cseed_email = cu_email customer\<rparr> ?evs now"
    using assms(1) load_customer_events_run [OF assms(2)]
    unfolding load_rule_context_for_case_def find_case_by_id_def find_customer_by_id_def clock_now_def
      list_orders_for_customer_def
    by (auto simp: bindM_eq_Inr liftM_def split: option.splits)
  with assms(3) have "customer_scoped_events (ca_customer_id row) ?evs \<noteq> []"
    by (auto simp: project_customer_summary_def dest: find_Some_mem)
  then show ?thesis
    by (auto simp: verified_in_def customer_scoped_events_def customer_events_def filter_empty_conv)
qed

definition proposal_context :: "(db \<Rightarrow> bool) \<Rightarrow> pystr \<Rightarrow> pystr \<Rightarrow> case_row \<times> rule_context \<Rightarrow> world \<Rightarrow> bool" where
  "proposal_context I cs u x w \<longleftrightarrow> held I w \<and> context_known cs u x w \<and>
     (cust_verified (rc_customer (snd x)) \<longrightarrow> verified_in (db_events (w_db w)) u)"

lemma load_proposal_context:
  "hoare (\<lambda>w. case_known cs u w \<and> held I w) (load_rule_context_for_case cs) (proposal_context I cs u) (held_committed I)"
proof (rule hoareI)
  fix w x w'
  assume pre: "case_known cs u w \<and> held I w" and run: "load_rule_context_for_case cs w = (Inr x, w')"
  have db: "db_ok (w_db w)" using pre by (simp add: case_known_def world_good_def good_def)
  obtain row ctx where x: "x = (row, ctx)" by (cases x)
  have known: "context_known cs u x w'" using hoareD(1) [OF hoare_load_rule_context _ run] pre by blast
  then have owner: "ca_customer_id row = u" by (simp add: x context_known_def)
  have "w' = w" by (rule load_rule_context_run(1) [OF db run [unfolded x]])
  with pre known context_verified [OF run [unfolded x]] db owner show "proposal_context I cs u x w'"
    by (simp add: proposal_context_def x db_ok_def)
next
  fix w e w'
  assume "case_known cs u w \<and> held I w" and "load_rule_context_for_case cs w = (Inl e, w')"
  then show "held_committed I w'" using hoareD(2) [OF abides_contexts(2)] by blast
qed

text \<open>The decision and what it was based on: the verdict of the policy is not stale when it is used.\<close>

definition authorised :: "(db \<Rightarrow> bool) \<Rightarrow> pystr \<Rightarrow> pystr option \<Rightarrow> decimal \<Rightarrow> authorisation + blocking \<Rightarrow> world \<Rightarrow> bool" where
  "authorised I u linked a v w \<longleftrightarrow> held I w \<and>
     ((\<exists>auth. v = Inl auth) \<or> (\<exists>r t. v = Inr (RequireApproval r t)) \<longrightarrow>
        (\<forall>ord. linked = Some ord \<longrightarrow> proposing I (\<exists>auth. v = Inl auth) u ord a w))"

lemma authorise_verdict:
  assumes "authorise ctx p = Inr v" and "snd p = ProposeRefund a"
  shows "v = Inl auth \<Longrightarrow> evaluate ctx (ProposeRefund a) = Inr Allow"
    and "v = Inr (RequireApproval r t) \<Longrightarrow> evaluate ctx (ProposeRefund a) = Inr (Blocked (RequireApproval r t))"
proof -
  obtain vd where vd: "evaluate ctx (ProposeRefund a) = Inr vd"
    using assms by (cases "evaluate ctx (ProposeRefund a)") (simp_all add: authorise_def)
  then show "v = Inl auth \<Longrightarrow> evaluate ctx (ProposeRefund a) = Inr Allow"
    and "v = Inr (RequireApproval r t) \<Longrightarrow> evaluate ctx (ProposeRefund a) = Inr (Blocked (RequireApproval r t))"
    using assms by (cases vd; simp add: authorise_def)+
qed

lemma decision_basis:
  assumes known: "context_ok d cs row ctx" and linked: "cs_linked_order_id (rc_case ctx) = Some ord"
    and verdict: "evaluate ctx (ProposeRefund a) = Inr v" "v = Allow \<or> (\<exists>r t. v = Blocked (RequireApproval r t))"
  shows "cust_verified (rc_customer ctx)" and "v = Allow \<Longrightarrow> within_threshold d ord (amount_cents a)"
proof -
  obtain s T where s: "rc_linked_order ctx = Some s"
    and account: "order_account s T (sum_list (map executed_cents (order_events d ord)))"
    using known linked by (auto simp: context_ok_def order_room_def)
  have "rc_refund_approval_threshold ctx = cents 50000"
    using known threshold_cents by (simp add: context_ok_def)
  note table = refund_decision [OF s account this, of a]
  from table verdict show "cust_verified (rc_customer ctx)" by (auto simp: refund_admissible_def)
  from table verdict show "v = Allow \<Longrightarrow> within_threshold d ord (amount_cents a)"
    by (simp add: within_threshold_def)
qed

lemma authorise_decision:
  assumes p: "snd p = ProposeRefund a"
  shows "hoare (proposal_context I cs u (row, ctx)) (liftM (authorise ctx p))
    (authorised I u (cs_linked_order_id (rc_case ctx)) a) (held_committed I)"
proof (rule hoare_liftM)
  fix w v
  assume pre: "proposal_context I cs u (row, ctx) w" and run: "authorise ctx p = Inr v"
  then have known: "context_known cs u (row, ctx) w" and held: "held I w" by (simp_all add: proposal_context_def)
  have "proposing I (\<exists>auth. v = Inl auth) u ord a w"
    if yes: "(\<exists>auth. v = Inl auth) \<or> (\<exists>r t. v = Inr (RequireApproval r t))"
      and linked: "cs_linked_order_id (rc_case ctx) = Some ord" for ord
  proof -
    have room: "decided u (cs_linked_order_id (rc_case ctx)) a v w"
      using hoareD(1) [OF hoare_authorise [OF p, of cs u row ctx] known, of v w] run by simp
    have fits: "context_ok (w_db w) cs row ctx" using known by (simp add: context_known_def)
    obtain vd where vd: "evaluate ctx (ProposeRefund a) = Inr vd" "vd = Allow \<or> (\<exists>r t. vd = Blocked (RequireApproval r t))"
      and allow: "(\<exists>auth. v = Inl auth) \<Longrightarrow> vd = Allow"
      using yes authorise_verdict [OF run p] by auto
    note basis = decision_basis [OF fits linked vd]
    have "verified_in (db_events (w_db w)) u" using pre basis(1) by (simp add: proposal_context_def)
    moreover have "(\<exists>auth. v = Inl auth) \<longrightarrow> within_threshold (w_db w) ord (amount_cents a)"
      using allow basis(2) by blast
    ultimately show ?thesis
      using room yes linked held by (auto simp: proposing_def roomy_def decided_def)
  qed
  with held show "authorised I u (cs_linked_order_id (rc_case ctx)) a v w" by (simp add: authorised_def)
qed (simp add: proposal_context_def heldD)

section \<open>Savepoints\<close>

lemma abides_savepoint:
  assumes m: "hoare P m Q (held_committed I)" and quiet: "\<And>c k. preserves (unmoved c k) m"
    and held: "\<And>w. P w \<Longrightarrow> held I w"
  shows "hoare P (tryM (begin_nested m)) (\<lambda>r w. case r of Inl e \<Rightarrow> held I w | Inr x \<Rightarrow> Q x w) (held_committed I)"
proof (rule hoareI)
  fix w r w'
  assume P: "P w" and run: "tryM (begin_nested m) w = (Inr r, w')"
  obtain r1 w1 where m1: "m w = (r1, w1)" by (cases "m w")
  show "case r of Inl e \<Rightarrow> held I w' | Inr x \<Rightarrow> Q x w'"
  proof (cases r1)
    case (Inr x)
    then show ?thesis using run m1 hoareD(1) [OF m P] by (auto simp: tryM_def begin_nested_def)
  next
    case (Inl e)
    have "r = Inl e" and "w' = w1\<lparr>w_db := w_db w\<rparr>"
      using run m1 Inl by (simp_all add: tryM_def begin_nested_def)
    then show ?thesis
      using quiet_same [OF quiet m1] held [OF P] by (simp add: held_def world_good_def)
  qed
qed (simp add: tryM_def split: prod.splits)

section \<open>Agent actions\<close>

context log_discipline
begin

lemma escalate: "abides I (escalate_case cs origin reason auth fe)"
  unfolding escalate_case_def append_escalated_and_case_closed_def
  by (intro abides_rules append_neutral; simp)

lemma denied: "abides I (append_action_denied u cs a d)"
  unfolding append_action_denied_def by (intro abides_rules append_neutral; simp)

lemma effects:
  "abides I (allow_get_orders auth u cs p)" "abides I (allow_link_order auth u cs p ord)"
  "abides I (allow_send_reply auth row cs p subject body)"
  "abides I (allow_request_verification auth row cs p now)" "abides I (allow_finish auth u cs p summary)"
  unfolding allow_get_orders_def allow_link_order_def allow_send_reply_def
    allow_request_verification_def allow_finish_def
  by (intro abides_rules append_neutral; simp)+

lemma dispatch:
  "abides I (dispatch_allow_verdict auth row cs p ctx)" "abides I (dispatch_require_approval_verdict a)"
  unfolding dispatch_allow_verdict_def dispatch_require_approval_verdict_def
  by (cases "snd p"; simp only: action.case; intro abides_rules effects)
    (cases a; simp only: action.case; intro abides_rules)

lemma persist_proposal:
  assumes p: "snd p = ProposeRefund a"
  shows "hoare (\<lambda>w. case_known cs u w \<and> held I w) (persist_refund_proposal u cs p a)
    (\<lambda>x w. settled x w \<and> held I w) (held_committed I)"
proof -
  let ?Q = "\<lambda>x w. settled x w \<and> held I w"
  have lock: "hoare (\<lambda>w. case_known cs u w \<and> held I w) (lock_customer_for_update u)
      (\<lambda>_ w. case_known cs u w \<and> held I w) (held_committed I)"
    by (rule hoareI) (use lock_customer_run(1) hoareD(2) [OF abides_lookups(11)] in blast)+
  have pay: "hoare (authorised I u linked a v)
      (case linked of None \<Rightarrow> raiseM e | Some ord \<Rightarrow> persist_decided_refund u cs ord a (decision ord))
      ?Q (held_committed I)"
    if "(\<exists>auth. v = Inl auth) \<or> (\<exists>r t. v = Inr (RequireApproval r t))"
      and "\<And>ord. decision ord = None \<longleftrightarrow> (\<exists>auth. v = Inl auth)" for v linked e decision
  proof (cases linked)
    case (Some ord)
    show ?thesis
      unfolding Some option.case
      by (rule hoare_pre [OF persist_decided]) (use that Some in \<open>simp add: authorised_def\<close>)
  qed (auto simp: authorised_def heldD intro!: hoare_raiseM)
  have spent: "hoare (authorised I u linked a (Inl auth))
      (case linked of None \<Rightarrow> raiseM e
        | Some ord \<Rightarrow> bindM (liftM sp) (\<lambda>_. persist_decided_refund u cs ord a None)) ?Q (held_committed I)"
    for linked e auth and sp :: "error + authorisation"
    using pay [of "Inl auth" "\<lambda>_. None" linked e]
    by (cases linked; cases sp) (auto simp: hoare_def authorised_def heldD)
  have none: "hoare (authorised I u linked a v) m ?Q (held_committed I)"
    if "hoare (held I) m ?Q (held_committed I)" for m linked v
    using that by (rule hoare_pre) (simp add: authorised_def)
  have return: "hoare (held I) (returnM (vd, False, x, y, z)) ?Q (held_committed I)" for vd x y z
    by (rule hoare_returnM) (simp add: settledI(2) heldD)
  have body: "hoare (proposal_context I cs u (row, ctx)) (bindM (liftM (authorise ctx p)) (\<lambda>verdict_or_auth.
       case verdict_or_auth of
         Inr (Deny rule agent_reason customer_reason) \<Rightarrow>
           thenM (append_action_denied u cs (snd p) (rule, agent_reason, customer_reason))
             (returnM (Blocked (Deny rule agent_reason customer_reason), False, [], Dec False 0 0, []))
       | Inr (ForceEscalate rule reason) \<Rightarrow>
           returnM (Blocked (ForceEscalate rule reason), False, [], Dec False 0 0, [])
       | Inr (RequireApproval rule reason) \<Rightarrow>
           (case cs_linked_order_id (rc_case ctx) of
              None \<Rightarrow> raiseM (RuntimeError (lit ''Refund proposal requires a linked order.''))
            | Some order_id \<Rightarrow> persist_decided_refund u cs order_id a (Some (RequireApproval rule reason)))
       | Inl auth \<Rightarrow>
           (case cs_linked_order_id (rc_case ctx) of
              None \<Rightarrow> raiseM (RuntimeError (lit ''Refund proposal requires a linked order.''))
            | Some order_id \<Rightarrow>
                bindM (liftM (spend auth cs p)) (\<lambda>_. persist_decided_refund u cs order_id a None))))
      ?Q (held_committed I)" for row ctx
  proof (rule hoare_bindM [OF authorise_decision [OF p]], goal_cases)
    case (1 v)
    show ?case
    proof (cases v)
      case (Inl auth)
      show ?thesis unfolding Inl sum.case by (rule spent)
    next
      case (Inr b)
      show ?thesis
        unfolding Inr sum.case
        by (cases b; simp only: blocking.case)
          (rule none [OF hoare_thenM [OF denied return]] none [OF return] pay; simp)+
    qed
  qed
  show ?thesis
    unfolding persist_refund_proposal_def
    by (intro hoare_bindM [OF lock] hoare_bindM [OF load_proposal_context])
      (clarsimp simp only: prod.case split_paired_all, rule body)
qed

end

end
