(* ===== verification/Discipline_System.thy ===== *)
theory Discipline_System
  imports Discipline_Gate
begin

text \<open>
  Every disciplined predicate is kept by the loop, the requests and the steps of the system, and
  holds in every reachable state when it holds of the empty database.
\<close>

section \<open>Verification\<close>

lemma find_token_reads: "preserves P (find_verification_request_by_token t)"
  unfolding find_verification_request_by_token_def
  by (intro preserves_rules; simp split: payload.splits; intro allI conjI impI preserves_rules)

lemma found_token:
  assumes "world_good w" and "find_verification_request_by_token t w = (Inr (Some l), w')"
    and "now < vl_expires_at l"
  shows "w' = w" and "token_open (db_events (w_db w)) (vl_customer_id l) now"
proof -
  obtain e case_id p where e: "e \<in> set (db_events (w_db w))" "ev_event_type e = ET_VERIFICATION_REQUESTED"
    and p: "model_validate M_VerificationRequested (ev_payload e) = Inr p"
    and rest: "(case p of VerificationRequestedPayload tok expires_at \<Rightarrow>
        returnM (Some \<lparr>vl_case_id = case_id, vl_customer_id = ev_customer_id e,
          vl_event_id = ev_id e, vl_token = tok, vl_expires_at = expires_at\<rparr>)
      | _ \<Rightarrow> raiseM ValidationError) w = (Inr (Some l), w')"
    using assms(2)
    by (auto simp: find_verification_request_by_token_def bindM_eq_Inr liftM_def dest!: find_Some_mem
        split: option.splits)
  then obtain tok expires where p': "p = VerificationRequestedPayload tok expires"
    and l: "vl_customer_id l = ev_customer_id e" "vl_expires_at l = expires" and "w' = w"
    by (cases p) auto
  moreover have "event_payload e = Inr p"
  proof -
    have "event_ok (w_db w) e"
      using assms(1) e(1) by (auto simp: world_good_def good_def db_ok_def references_ok_def)
    then obtain q where "event_payload e = Inr q" by (auto simp: event_ok_def split: sum.splits)
    with p e(2) show ?thesis
      by (simp add: event_payload_def validate_payload_def split: if_splits del: model_validate.simps)
  qed
  ultimately show "w' = w" and "token_open (db_events (w_db w)) (vl_customer_id l) now"
    using e assms(3) by (auto simp: token_open_def)
qed

context log_discipline
begin

lemma append_verified:
  assumes "m = VM_TOKEN \<Longrightarrow> \<forall>w. P w \<longrightarrow> token_open (db_events (w_db w)) u (time_now w)"
  shows "hoare (\<lambda>w. held I w \<and> P w) (append_canonical_event (EvMember ET_CUSTOMER_VERIFIED) u None None a ch
    (model_dump (CustomerVerifiedPayload m))) (\<lambda>_. held I) (held_committed I)"
  (is "hoare _ ?m _ _")
proof (rule hoareI)
  fix w e w'
  assume pre: "held I w \<and> P w" and run: "?m w = (Inr e, w')"
  have safe: "safe ?m" by (rule safe_append) simp_all
  note app = append_run [OF run _ _ world_goodD(1) [OF heldD(1)], of I, simplified]
  have "I (w_db w')"
    by (rule verified [of "w_db w" e _ m]) (use app pre assms in \<open>auto simp: heldD\<close>)
  with hoareD(1) [OF safe _ run] pre quiet_same [OF quiet_append run] show "held I w'"
    by (simp add: held_def)
next
  fix w e w'
  assume "held I w \<and> P w" and run: "?m w = (Inl e, w')"
  then show "held_committed I w'" using committed_frame [OF quiet_append _ run] by blast
qed

lemma confirm: "abides I (confirm_verification t)"
proof -
  have append: "hoare (\<lambda>w. held I w \<and> token_open (db_events (w_db w)) u (time_now w))
      (append_event ET_CUSTOMER_VERIFIED u None None Actor_SYSTEM Channel_VERIFICATION_API
        (CustomerVerifiedPayload VM_TOKEN)) (\<lambda>_. held I) (held_committed I)" for u
    by (rule append_verified) simp
  have rest: "abides I (bindM (find_open_case_ids_for_customer u now) (\<lambda>open_ids. returnM (x open_ids)))" for u now x
    by (intro abides_rules)
  show ?thesis
  proof (rule hoareI)
    fix w x w'
    assume held: "held I w" and run: "confirm_verification t w = (Inr x, w')"
    then obtain found w1 where find: "find_verification_request_by_token t w = (Inr found, w1)"
      and go: "(case found of None \<Rightarrow> returnM \<lparr>vo_kind = VR_NOT_FOUND, vo_customer_id = None,
            vo_issuing_case_id = None, vo_open_case_ids = []\<rparr>
        | Some l \<Rightarrow> bindM clock_now (\<lambda>now.
           if now \<ge> vl_expires_at l then
             returnM \<lparr>vo_kind = VR_EXPIRED, vo_customer_id = Some (vl_customer_id l),
               vo_issuing_case_id = Some (vl_case_id l), vo_open_case_ids = []\<rparr>
           else
             thenM (append_event ET_CUSTOMER_VERIFIED (vl_customer_id l) None None Actor_SYSTEM
                      Channel_VERIFICATION_API (CustomerVerifiedPayload VM_TOKEN))
            (bindM (find_open_case_ids_for_customer (vl_customer_id l) now) (\<lambda>open_ids.
               returnM \<lparr>vo_kind = VR_VERIFIED, vo_customer_id = Some (vl_customer_id l),
                 vo_issuing_case_id = None, vo_open_case_ids = open_ids\<rparr>)))) w1 = (Inr x, w')"
      unfolding confirm_verification_def bindM_eq_Inr by blast
    have w1: "w1 = w"
      using preservesD [OF find_token_reads [of "\<lambda>v. v = w"] _ find] by simp
    show "held I w'"
    proof (cases "found = None \<or> (\<exists>l. found = Some l \<and> vl_expires_at l \<le> time_now w)")
      case True
      with go w1 held show ?thesis by (auto simp: clock_now_def)
    next
      case False
      then obtain l where l: "found = Some l" "time_now w < vl_expires_at l"
        by (cases found) (auto simp: not_le)
      have open_request: "held I w \<and> token_open (db_events (w_db w)) (vl_customer_id l) (time_now w)"
        using found_token [OF heldD(1) [OF held] find [unfolded l(1)] l(2)] held by simp
      have "thenM (append_event ET_CUSTOMER_VERIFIED (vl_customer_id l) None None Actor_SYSTEM
                Channel_VERIFICATION_API (CustomerVerifiedPayload VM_TOKEN))
            (bindM (find_open_case_ids_for_customer (vl_customer_id l) (time_now w)) (\<lambda>open_ids.
               returnM \<lparr>vo_kind = VR_VERIFIED, vo_customer_id = Some (vl_customer_id l),
                 vo_issuing_case_id = None, vo_open_case_ids = open_ids\<rparr>)) w = (Inr x, w')"
        using go l w1 by (simp add: clock_now_def)
      from hoareD(1) [OF hoare_thenM [OF append rest] open_request this] show ?thesis .
    qed
  next
    fix w e w'
    assume held: "held I w" and run: "confirm_verification t w = (Inl e, w')"
    have "preserves (unmoved c k) (confirm_verification t)" for c k
      unfolding confirm_verification_def find_open_case_ids_for_customer_def
      by (intro preserves_rules quiet_rules find_token_reads)
    from committed_frame [OF this held run] show "held_committed I w'" .
  qed
qed

section \<open>Agent actions\<close>

lemma hoare_find_case_held:
  "hoare (held I) (find_case_by_id cs) (\<lambda>found w. case found of None \<Rightarrow> held I w
     | Some row \<Rightarrow> case_known cs (ca_customer_id row) w \<and> held I w) (held_committed I)"
  by (auto simp: hoare_def find_case_by_id_def case_known_def case_of_customer_def heldD
      split: option.split dest: find_Some_mem)

lemma execute_propose:
  assumes p: "snd p = ProposeRefund a"
  shows "hoare (\<lambda>w. case_known cs (ca_customer_id row) w \<and> held I w) (execute_propose_refund row cs p a)
    (\<lambda>_. held I) (held_committed I)"
proof -
  let ?u = "ca_customer_id row" and ?settled = "\<lambda>x w. settled x w \<and> held I w"
  have attempt: "hoare (\<lambda>w. case_known cs ?u w \<and> held I w) (tryM (begin_nested (persist_refund_proposal ?u cs p a)))
      (\<lambda>r w. case r of Inl e \<Rightarrow> held I w | Inr x \<Rightarrow> ?settled x w) (held_committed I)"
    by (rule abides_savepoint [OF persist_proposal [OF p] quiet_persist_proposal]) simp
  have failed: "abides I (case e of
         IntegrityError name \<Rightarrow>
           (case linked of
              None \<Rightarrow> raiseM (IntegrityError name)
            | Some order_id \<Rightarrow>
                bindM (find_open_refund_for_order order_id) (\<lambda>open_refund.
                  if open_refund = None then raiseM (IntegrityError name)
                  else bindM (append_open_refund_race_denial ?u cs (snd p)) (\<lambda>deny. returnM (Blocked deny))))
       | _ \<Rightarrow> raiseM e)" for e linked
    unfolding append_open_refund_race_denial_def
    by (cases e; simp only: error.case) (intro abides_rules denied)+
  have paid: "hoare (?settled (v, auto, rid, amount, ord)) (thenM commit_refund_intent_before_payment
      (if auto then thenM (execute_payment_after_committed_intent ?u cs ord rid amount) (returnM Allow)
       else returnM v)) (\<lambda>_. held I) (held_committed I)" for v auto rid amount ord
  proof (cases auto)
    case True
    then show ?thesis
      using hoare_pre [OF commit_and_pay [of rid amount ?u cs ord Allow], of "?settled (v, auto, rid, amount, ord)"]
      by (simp add: settled_def)
  next
    case False
    have "abides I (thenM commit_refund_intent_before_payment (returnM v))"
      by (simp add: commit_refund_intent_before_payment_def commit_session_def hoare_def held_def world_good_def
          thenM_def)
    with False show ?thesis by (auto intro: hoare_pre)
  qed
  have returned: "hoare (?settled (v, auto, rid, amount, ord)) (returnM v) (\<lambda>_. held I) (held_committed I)"
    for v :: verdict and auto rid amount ord
    by (rule hoare_returnM) simp
  have finished: "hoare (?settled (v, auto, rid, amount, ord)) (case v of
              Blocked (Deny _ _ _) \<Rightarrow> returnM v
            | Blocked (ForceEscalate _ _) \<Rightarrow> returnM v
            | _ \<Rightarrow>
                thenM commit_refund_intent_before_payment
                  (if auto then thenM (execute_payment_after_committed_intent ?u cs ord rid amount) (returnM Allow)
                   else returnM v)) (\<lambda>_. held I) (held_committed I)" for v auto rid amount ord
  proof (cases v)
    case (Blocked b)
    show ?thesis
      unfolding Blocked verdict.case by (cases b; simp only: blocking.case) (rule returned paid)+
  qed (simp only: verdict.case paid)
  have known: "hoare (proposal_context I cs ?u x) m Q (held_committed I)"
    if "hoare (\<lambda>w. case_known cs ?u w \<and> held I w) m Q (held_committed I)" for x Q and m :: "'a op"
    using that by (rule hoare_pre) (auto simp: proposal_context_def context_known_def)
  show ?thesis
    unfolding execute_propose_refund_def
    apply (intro hoare_bindM [OF load_proposal_context])
    apply (clarsimp simp only: prod.case split_paired_all)
    apply (rule known)
    apply (rule hoare_bindM [OF attempt])
    subgoal for row' ctx r
      apply (cases r)
      subgoal for e using failed [of e "cs_linked_order_id (rc_case ctx)"] by (cases e) (simp_all only: sum.case error.case abides_basic)
      subgoal for x by (cases x) (simp only: sum.case prod.case finished)
      done
    done
qed

lemma finalize: "abides I (finalize_propose_refund_verdict cs v)"
proof -
  have "abides I (thenM (escalate_case cs EO_POLICY None None (Some (rule, reason))) (returnM v))" for rule reason
    by (intro abides_rules escalate)
  then show ?thesis
    unfolding finalize_propose_refund_verdict_def
    by (auto split: verdict.splits blocking.splits intro: abides_basic(1))
qed

lemma act: "abides I (execute_agent_action cs p)"
proof -
  have allowed: "abides I (case a of Escalate _ \<Rightarrow> escalate_case cs EO_AGENT None (Some auth) None
      | _ \<Rightarrow> dispatch_allow_verdict auth row cs p ctx)" for a auth row ctx
    by (cases a; simp only: action.case; rule escalate dispatch)
  have plain: "abides I (bindM (load_rule_context_for_case cs) (\<lambda>(row, ctx).
      bindM (liftM (authorise ctx p)) (\<lambda>x. case x of
        Inr (Deny rule agent_reason customer_reason) \<Rightarrow>
          thenM (append_action_denied (ca_customer_id row) cs a (rule, agent_reason, customer_reason))
            (returnM (Blocked (Deny rule agent_reason customer_reason)))
      | Inr (ForceEscalate rule reason) \<Rightarrow>
          thenM (escalate_case cs EO_POLICY None None (Some (rule, reason)))
            (returnM (Blocked (ForceEscalate rule reason)))
      | Inr (RequireApproval rule reason) \<Rightarrow> dispatch_require_approval_verdict a
      | Inl auth \<Rightarrow>
          thenM (case a of
                   Escalate _ \<Rightarrow> escalate_case cs EO_AGENT None (Some auth) None
                 | _ \<Rightarrow> dispatch_allow_verdict auth row cs p ctx)
            (returnM Allow))))" for a
  proof (intro abides_seq abides_contexts abides_cases(3) abides_basic(4), goal_cases)
    case (1 _ row ctx x)
    show ?case
    proof (cases x)
      case (Inl auth)
      show ?thesis unfolding Inl sum.case by (intro abides_seq allowed abides_basic)
    next
      case (Inr b)
      show ?thesis unfolding Inr sum.case
        by (cases b; simp only: blocking.case; intro abides_seq denied escalate dispatch abides_basic)
    qed
  qed
  have propose: "abides I (bindM (find_case_by_id cs) (\<lambda>found. case found of
            None \<Rightarrow> raiseM (CaseNotFoundError cs)
          | Some row \<Rightarrow> bindM (execute_propose_refund row cs p a) (finalize_propose_refund_verdict cs)))"
    if "snd p = ProposeRefund a" for a
  proof (rule hoare_bindM [OF hoare_find_case_held])
    fix found
    show "hoare (\<lambda>w. case found of None \<Rightarrow> held I w | Some row \<Rightarrow> case_known cs (ca_customer_id row) w \<and> held I w)
        (case found of None \<Rightarrow> raiseM (CaseNotFoundError cs)
          | Some row \<Rightarrow> bindM (execute_propose_refund row cs p a) (finalize_propose_refund_verdict cs))
        (\<lambda>_. held I) (held_committed I)"
      by (cases found) (simp_all add: abides_basic hoare_bindM [OF execute_propose [OF that] finalize])
  qed
  from plain [of "snd p"] propose show ?thesis
    unfolding execute_agent_action_def by (cases "snd p") (simp_all only: action.case)
qed

end

section \<open>Requests\<close>

text \<open>Between requests there is no open session: an exception leaves the same as a return.\<close>

abbreviation upholds :: "(db \<Rightarrow> bool) \<Rightarrow> 'a op \<Rightarrow> bool" where
  "upholds I m \<equiv> hoare (held I) m (\<lambda>_. held I) (held I)"

named_theorems upholds_rules \<open>requests and their parts keep every disciplined predicate\<close>

lemma upholds_basic [upholds_rules]:
  "upholds I (returnM x)" "upholds I (raiseM e)" "upholds I clock_now"
  "upholds I m \<Longrightarrow> (\<And>x. upholds I (f x)) \<Longrightarrow> upholds I (bindM m f)"
  by (auto simp: hoare_returnM hoare_raiseM hoare_getM clock_now_def intro: hoare_bindM)

lemma upholds_cases [upholds_rules]:
  "upholds I m \<Longrightarrow> upholds I n \<Longrightarrow> upholds I (if b then m else n)"
  "upholds I m \<Longrightarrow> (\<And>x. upholds I (f x)) \<Longrightarrow> upholds I (case r of None \<Rightarrow> m | Some x \<Rightarrow> f x)"
  "(\<And>x y. upholds I (g x y)) \<Longrightarrow> upholds I (case p of (x, y) \<Rightarrow> g x y)"
  "upholds I m \<Longrightarrow> (\<And>c cs. upholds I (k c cs)) \<Longrightarrow> upholds I (case xs of [] \<Rightarrow> m | c # cs \<Rightarrow> k c cs)"
  by (simp_all split: option.splits prod.splits list.splits)

lemma upholds_scope [upholds_rules]:
  assumes "abides I m"
  shows "upholds I (session_scope m)"
proof (rule hoareI)
  fix w r w'
  assume "held I w"
  then have "held I (w\<lparr>w_db := w_committed w\<rparr>)" by (simp add: held_def world_good_def)
  note ends = hoareD [OF assms this]
  have "held_committed I v \<Longrightarrow> held I (v\<lparr>w_db := w_committed v\<rparr>)" for v
    by (simp add: held_def held_committed_def world_good_def committed_good_def)
  with ends show "session_scope m w = (Inr x, w') \<Longrightarrow> held I w'"
    and "session_scope m w = (Inl e, w') \<Longrightarrow> held I w'" for x e
    by (fastforce simp: session_scope_def heldD split: prod.splits)+
qed

context log_discipline
begin

lemma transaction: "abides I m \<Longrightarrow> upholds I (session_begin m)"
  by (rule hoare_pre [OF session]) (simp_all add: heldD)

lemma loop_turn: "abides I (loop_turn h cs acc)"
proof -
  have boundary: "abides I (invoke_model_boundary h cs prompt)" for prompt
  proof (rule hoareI)
    show "held I w'" if "held I w" "invoke_model_boundary h cs prompt w = (Inr x, w')" for w x w'
    proof (cases rule: invoke_cases [of h cs prompt w])
      case (failed e)
      with that hoareD(1) [OF abides_seq(2) [OF escalate abides_basic(1)]] show ?thesis by metis
    qed (use that in auto)
    show "held_committed I w'" if "held I w" "invoke_model_boundary h cs prompt w = (Inl e, w')" for w e w'
    proof (cases rule: invoke_cases [of h cs prompt w])
      case (failed e')
      with that hoareD(2) [OF abides_seq(2) [OF escalate abides_basic(1)]] show ?thesis by metis
    qed (use that in auto)
  qed
  have outcome: "abides I (handle_outcome cs ctx result)" for ctx result
    unfolding handle_outcome_def append_invalid_output_def
    by (cases "mb_outcome result"; simp only: parse_outcome.case; intro abides_rules append_neutral act; simp)
  have entry: "abides I (loop_terminates_at_entry cs summary)" for summary
    unfolding loop_terminates_at_entry_def by (intro abides_rules escalate)
  show ?thesis
    unfolding loop_turn_def call_model_def Let_def
    by (intro abides_rules expire_due boundary outcome entry escalate)
qed

lemma loop_runs: "abides I (run_agent_loop turns h cs)"
proof -
  have "abides I (loop_turns turns h cs acc)" for acc
  proof (induction turns arbitrary: acc)
    case (Suc turns)
    have "abides I (case outcome of Finished peers \<Rightarrow> returnM (Some peers) | Continue peers \<Rightarrow> loop_turns turns h cs peers)"
      for outcome by (cases outcome) (simp_all only: turn.case Suc abides_basic)
    then show ?case unfolding loop_turns.simps by (intro abides_seq(1) loop_turn)
  qed (simp add: abides_basic)
  then show ?thesis by (simp add: run_agent_loop_def)
qed

lemma drain: "upholds I (drain_agent_loop_queue fuel h ids)"
proof -
  have commit: "abides I commit_session"
    by (simp add: commit_session_def hoare_def held_def world_good_def)
  have may: "upholds I (queued_case_runs cs)" for cs
    unfolding queued_case_runs_def case_may_run_agent_loop_def by (intro upholds_rules abides_rules)
  have run: "upholds I (run_queued_case turns h cs)" for turns cs
    unfolding run_queued_case_def by (intro upholds_scope abides_seq loop_runs commit abides_basic)
  have "upholds I (drain_queue runs turns h queue)" for runs turns queue
  proof (induction runs arbitrary: queue)
    case (Suc runs)
    show ?case unfolding drain_queue.simps by (intro upholds_rules may run Suc)
  qed (simp add: upholds_basic)
  then show ?thesis by (simp add: drain_agent_loop_queue_def)
qed

lemma resume: "upholds I (resume_cases_in_order fuel h ids also)" "upholds I (resume_open_case fuel h cs)"
  unfolding resume_cases_in_order_def resume_open_case_def by (rule drain)+

lemma inbound_route: "upholds I (route_inbound_email request)"
proof -
  have create: "abides I (create_case_for_inbound_email u mid subject body)" for u mid subject body
    unfolding create_case_for_inbound_email_def by (intro abides_rules insert_rows append_neutral; simp)
  have status: "abides I (case_is_open cs u)" for cs u
    unfolding case_is_open_def by (intro abides_rules)
  have attempt: "abides I (tryM (begin_nested (create_case_for_inbound_email u mid subject body)))" for u mid subject body
    by (rule hoare_weaken [OF abides_savepoint [OF create quiet_create_case]]) (auto split: sum.splits)
  have continue: "abides I (case attempt of
               Inr new_case_id \<Rightarrow> returnM (new_case_id, True)
             | Inl (IntegrityError name) \<Rightarrow>
                 bindM (find_case_for_customer_by_opening_message_id u mid) (\<lambda>raced.
                   case raced of
                     None \<Rightarrow> raiseM (IntegrityError name)
                   | Some raced_case \<Rightarrow>
                       bindM (case_is_open (ca_id raced_case) u) (\<lambda>is_open.
                         returnM (ca_id raced_case, is_open)))
             | Inl e \<Rightarrow> raiseM e)" for attempt u mid
  proof (cases attempt)
    case (Inl e)
    then show ?thesis by (cases e; simp only: sum.case error.case; intro abides_rules status)
  qed (simp only: sum.case abides_basic)
  have resolve: "abides I (resolve_inbound_case u mid subject body)" for u mid subject body
    unfolding resolve_inbound_case_def
    by (intro abides_seq abides_cases(2) abides_lookups status attempt continue abides_basic)
  show ?thesis
    unfolding route_inbound_email_def send_unknown_sender_reply_def
    by (intro transaction abides_rules expire_due resolve)
qed

lemma requests:
  "upholds I (post_inbound_email fuel h inbound)" "upholds I get_operator_pending"
  "upholds I (post_operator_approve fuel h approval)" "upholds I (post_operator_reject fuel h rejection)"
proof -
  have response: "abides I (build_inbound_email_response cs u)" for cs u
    unfolding build_inbound_email_response_def by (intro abides_rules)
  have decision: "upholds I (answer_operator_decision fuel h outcome)" for outcome
    unfolding answer_operator_decision_def by (intro upholds_rules resume)
  show "upholds I (post_inbound_email fuel h inbound)"
    unfolding post_inbound_email_def by (intro upholds_rules inbound_route drain response)
  show "upholds I get_operator_pending"
    unfolding get_operator_pending_def by (intro upholds_rules abides_rules)
  show "upholds I (post_operator_approve fuel h approval)"
    unfolding post_operator_approve_def by (intro upholds_rules transaction approve decision)
  show "upholds I (post_operator_reject fuel h rejection)"
    unfolding post_operator_reject_def by (intro upholds_rules transaction reject decision)
qed

lemma request_confirm: "upholds I (post_verification_confirm fuel h token)"
proof -
  have "upholds I (case vo_kind outcome of
         VR_NOT_FOUND \<Rightarrow> returnM (Some VerificationNotFound)
       | VR_EXPIRED \<Rightarrow>
           bindM (case vo_issuing_case_id outcome of
               None \<Rightarrow> returnM (Some ())
             | Some issuing_case_id \<Rightarrow> resume_open_case fuel h issuing_case_id) (\<lambda>finished.
             case (vo_customer_id outcome, vo_issuing_case_id outcome) of
               (Some customer_id, Some issuing_case_id) \<Rightarrow>
                 returnM (answered (VerificationExpiredResponse customer_id issuing_case_id) finished)
             | _ \<Rightarrow> raiseM (RuntimeError (lit ''Expired verification outcome missing resume identifiers.'')))
       | VR_VERIFIED \<Rightarrow>
           (case vo_customer_id outcome of
              None \<Rightarrow> raiseM (RuntimeError (lit ''Verified outcome missing customer identifier.''))
            | Some customer_id \<Rightarrow>
                bindM (drain_agent_loop_queue fuel h (vo_open_case_ids outcome)) (\<lambda>finished.
                  returnM (answered (VerificationConfirmResponse customer_id (vo_open_case_ids outcome)) finished))))"
    for outcome
    by (cases "vo_kind outcome"; cases "vo_customer_id outcome"; cases "vo_issuing_case_id outcome")
      (simp_all only: verification_result_kind.case option.case prod.case, (intro upholds_rules resume drain)+)
  then show ?thesis
    unfolding post_verification_confirm_def by (intro upholds_basic(4) transaction confirm)
qed

section \<open>Steps and reachable states\<close>

lemma upholdsD: "upholds I m \<Longrightarrow> held I w \<Longrightarrow> m w = (r, w') \<Longrightarrow> held I w'"
  by (cases r) (auto dest: hoareD)

lemma step_holds:
  assumes "step w w'" and "held I w"
  shows "held I w'"
  using assms
proof (cases rule: step.cases)
  case (clock t u)
  with assms(2) show ?thesis by (simp add: held_def world_good_def)
qed (auto intro: upholdsD [OF requests(1)] upholdsD [OF requests(2)] upholdsD [OF requests(3)]
    upholdsD [OF requests(4)] upholdsD [OF request_confirm])

lemma seed: "abides I (seed_database profile)"
proof -
  have orders: "abides I (foldM (\<lambda>_ spec. insert_order (order_row_of_spec spec)) () (seed_order_specs_for_profile profile))"
    by (rule hoare_foldM) (rule insert_rows, rule seed_orders_money)
  have verified: "abides I (append_event ET_CUSTOMER_VERIFIED SOPHIE_CUSTOMER_ID None None Actor_SYSTEM
      Channel_INTERNAL (CustomerVerifiedPayload VM_SEED))"
    by (rule hoare_pre [OF append_verified [where P = "\<lambda>_. True"]]) simp_all
  show ?thesis
    unfolding seed_database_def by (intro abides_seq insert_rows orders verified abides_basic)
qed

lemma reachable_holds:
  assumes "reachable w" and "I empty_db"
  shows "held I w"
  using assms(1)
proof (induction rule: reachable.induct)
  case (seeded profile now w)
  have "held I (fresh_world now)"
    using assms(2) fresh_good by (simp add: held_def fresh_world_def)
  with seeded show ?case using upholdsD [OF transaction [OF seed]] by blast
next
  case (stepped w w')
  then show ?case by (blast intro: step_holds)
qed

end

end
