(* ===== verification/Protocol.thy ===== *)
theory Protocol
  imports Discipline_System "HOL-Library.Sublist"
begin

text \<open>
  Two predicates with the laws of \<open>log_discipline\<close>.  The first: the status of every refund row
  is the one its events leave it in, and every event of the log was warranted when it was
  appended.  The second: history only grows.
\<close>

section \<open>The refund protocol\<close>

text \<open>The status in which a sequence of events leaves each refund.\<close>

definition refund_statuses :: "stored_event list \<Rightarrow> pystr \<rightharpoonup> refund_status" where
  "refund_statuses evs =
     foldl (\<lambda>m e. case refund_move e of None \<Rightarrow> m | Some (rid, s) \<Rightarrow> m(rid \<mapsto> s)) Map.empty evs"

lemma refund_statuses_snoc [simp]:
  "refund_statuses [] = Map.empty"
  "refund_statuses (evs @ [e]) =
     (case refund_move e of None \<Rightarrow> refund_statuses evs | Some (rid, s) \<Rightarrow> (refund_statuses evs)(rid \<mapsto> s))"
  by (simp_all add: refund_statuses_def split: option.split)

text \<open>What has to be in the log before an event may be appended.\<close>

definition warranted :: "stored_event list \<Rightarrow> stored_event \<Rightarrow> bool" where
  "warranted xs e \<longleftrightarrow> (case event_payload e of
     Inr (CustomerVerifiedPayload m) \<Rightarrow>
       m = VM_TOKEN \<longrightarrow> token_open xs (ev_customer_id e) (ev_created_at e)
   | Inr (RefundProposedPayload rid _) \<Rightarrow>
       refund_statuses xs rid = None \<and> verified_in xs (ev_customer_id e)
   | Inr (RefundAutoApprovedPayload rid) \<Rightarrow>
       refund_statuses xs rid = Some RS_PENDING_APPROVAL \<and>
       (\<exists>p\<in>set xs. \<exists>amount. event_payload p = Inr (RefundProposedPayload rid amount) \<and>
          ev_order_id p = ev_order_id e \<and>
          dec_cents amount + sum_list (map executed_cents (filter (\<lambda>x. ev_order_id x = ev_order_id e) xs)) \<le> 50000)
   | Inr (RefundApprovedPayload rid _) \<Rightarrow>
       refund_statuses xs rid = Some RS_PENDING_APPROVAL \<and> ev_actor e = Actor_OPERATOR
   | Inr (RefundRejectedPayload rid _ _) \<Rightarrow>
       refund_statuses xs rid = Some RS_PENDING_APPROVAL \<and> ev_actor e = Actor_OPERATOR
   | Inr (RefundExpiredPayload rid) \<Rightarrow> refund_statuses xs rid = Some RS_PENDING_APPROVAL
   | Inr (RefundExecutedPayload rid _ _) \<Rightarrow> refund_statuses xs rid = Some RS_APPROVED
   | _ \<Rightarrow> True)"

definition follows_protocol :: "stored_event list \<Rightarrow> bool" where
  "follows_protocol evs \<longleftrightarrow> (\<forall>xs e ys. evs = xs @ e # ys \<longrightarrow> warranted xs e)"

lemma follows_protocol_snoc:
  "follows_protocol (evs @ [e]) \<longleftrightarrow> follows_protocol evs \<and> warranted evs e"
proof
  assume "follows_protocol evs \<and> warranted evs e"
  then show "follows_protocol (evs @ [e])"
    unfolding follows_protocol_def by (auto simp: append_eq_append_conv2 Cons_eq_append_conv append_eq_Cons_conv)
next
  assume long: "follows_protocol (evs @ [e])"
  then have "warranted xs x" if "evs = xs @ x # ys" for xs x ys
    using that unfolding follows_protocol_def by (metis append.assoc append_Cons)
  with long show "follows_protocol evs \<and> warranted evs e" unfolding follows_protocol_def by blast
qed

definition row_statuses :: "db \<Rightarrow> pystr \<rightharpoonup> refund_status" where
  "row_statuses d = map_of (map (\<lambda>r. (rf_id r, rf_status r)) (db_refunds d))"

lemma row_statuses_none: "row_statuses d rid = None \<longleftrightarrow> rid \<notin> rf_id ` set (db_refunds d)"
  by (auto simp: row_statuses_def map_of_eq_None_iff image_image)

lemma row_statuses_added:
  assumes "db_refunds d' = db_refunds d @ [r]" and "rf_id r \<notin> rf_id ` set (db_refunds d)"
  shows "row_statuses d' = (row_statuses d)(rf_id r \<mapsto> rf_status r)"
proof
  fix x
  have "row_statuses d (rf_id r) = None" using assms(2) row_statuses_none by blast
  then show "row_statuses d' x = ((row_statuses d)(rf_id r \<mapsto> rf_status r)) x"
    using assms(1) by (cases "x = rf_id r") (simp_all add: row_statuses_def map_add_def split: option.split)
qed

definition lawful :: "db \<Rightarrow> bool" where
  "lawful d \<longleftrightarrow> refund_statuses (db_events d) = row_statuses d \<and> follows_protocol (db_events d)"

section \<open>The protocol is a discipline\<close>

lemma event_payload_type: "event_payload e = Inr p \<Longrightarrow> payload_class p = payload_model_for_event_type (ev_event_type e)"
  using validate_payload_class by (auto simp: event_payload_def)

lemma payload_type_iff:
  assumes "event_payload e = Inr p"
  shows "payload_class p = payload_model_for_event_type et \<longleftrightarrow> ev_event_type e = et"
  using event_payload_type [OF assms] by (auto dest: payload_model_for_event_type_inject [THEN iffD1])

lemma neutral_warranted:
  assumes "neutral e"
  shows "warranted xs e"
proof (cases "event_payload e")
  case (Inr p)
  have "p \<noteq> CustomerVerifiedPayload m" for m
    using payload_type_iff [OF Inr, of ET_CUSTOMER_VERIFIED] assms by (auto simp: neutral_def)
  with Inr assms show ?thesis by (cases p) (auto simp: warranted_def neutral_def refund_move_def)
qed (simp add: warranted_def)

lemma row_statuses_replaced:
  assumes "row_replaced d r r' d'" and "distinct (map rf_id (db_refunds d))"
  shows "row_statuses d' = (row_statuses d)(rf_id r \<mapsto> rf_status r')" and "row_statuses d (rf_id r) = Some (rf_status r)"
proof -
  obtain xs ys where split: "db_refunds d = xs @ r # ys" "db_refunds d' = xs @ r' # ys"
    and same: "rf_id r' = rf_id r"
    using assms(1) by (auto simp: row_replaced_def refund_intent_def)
  let ?m = "\<lambda>xs. map_of (map (\<lambda>r. (rf_id r, rf_status r)) xs)"
  have none: "?m xs (rf_id r) = None"
    using assms(2) by (auto simp: split map_of_eq_None_iff)
  then show "row_statuses d (rf_id r) = Some (rf_status r)"
    by (simp add: row_statuses_def split map_add_def)
  show "row_statuses d' = (row_statuses d)(rf_id r \<mapsto> rf_status r')"
  proof
    fix x
    show "row_statuses d' x = ((row_statuses d)(rf_id r \<mapsto> rf_status r')) x"
      using none by (cases "x = rf_id r") (simp_all add: row_statuses_def split same map_add_def split: option.split)
  qed
qed

lemma advance_warranted:
  assumes rep: "row_replaced d r r' d1" and app: "event_appended d1 e d'"
    and move: "refund_move e = Some (rf_id r, rf_status r')" and order: "ev_order_id e = Some (rf_order_id r)"
    and target: "rf_status r' \<in> allowed_refund_status_targets (rf_status r)"
    and auto: "ev_event_type e = ET_REFUND_AUTO_APPROVED \<longrightarrow> within_threshold d (rf_order_id r) (dec_cents (rf_amount r))"
    and ok: "db_ok d" and agree: "refund_statuses (db_events d) = row_statuses d"
  shows "warranted (db_events d) e"
proof -
  have status: "refund_statuses (db_events d) (rf_id r) = Some (rf_status r)"
    using row_statuses_replaced(2) [OF rep] ok agree by (simp add: db_ok_def keys_ok_def)
  obtain p where p: "event_payload e = Inr p" "refund_move_of_payload p = Some (rf_id r, rf_status r')"
    using move by (auto simp: refund_move_def split: sum.splits)
  have actor: "(ev_actor e, ev_channel e) = catalogue_actor p"
    using event_appendedD(6) [OF app] p(1) by (auto simp: event_ok_def)
  have pending: "rf_status r = RS_PENDING_APPROVAL" if "rf_status r' \<in> {RS_APPROVED, RS_REJECTED, RS_EXPIRED}"
    using that target by (cases "rf_status r") auto
  have approved: "rf_status r = RS_APPROVED" if "rf_status r' = RS_EXECUTED"
    using that target by (cases "rf_status r") auto
  have "rf_status r' \<noteq> RS_PENDING_APPROVAL" using target by (cases "rf_status r") auto
  moreover have "dec_cents (rf_amount r) +
      sum_list (map executed_cents (filter (\<lambda>x. ev_order_id x = ev_order_id e) (db_events d))) \<le> 50000"
    if "p = RefundAutoApprovedPayload rid" for rid
    using payload_type_iff [OF p(1), of ET_REFUND_AUTO_APPROVED] that auto order
    by (simp add: within_threshold_def order_events_def)
  moreover obtain q where "q \<in> set (db_events d)" "event_payload q = Inr (RefundProposedPayload (rf_id r) (rf_amount r))"
    "ev_order_id q = Some (rf_order_id r)"
    using row_replaced_frame(8) [OF rep] by (rule refund_evidence [OF ok]) blast
  ultimately show ?thesis
    using p status actor pending approved order
    by (cases p) (auto simp: warranted_def)
qed

interpretation protocol: log_discipline lawful
proof unfold_locales
  fix d d' :: db
  assume "lawful d" "db_events d' = db_events d" "db_refunds d' = db_refunds d"
  then show "lawful d'" by (simp add: lawful_def row_statuses_def)
next
  fix d e d' assume "lawful d" and app: "event_appended d e d'" and "neutral e"
  then show "lawful d'"
    using neutral_warranted event_appendedD(1,5) [OF app]
    by (simp add: lawful_def row_statuses_def follows_protocol_snoc neutral_def)
next
  fix d e d' m
  assume "lawful d" and app: "event_appended d e d'" and p: "event_payload e = Inr (CustomerVerifiedPayload m)"
    and "m = VM_TOKEN \<Longrightarrow> token_open (db_events d) (ev_customer_id e) (ev_created_at e)"
  then show "lawful d'"
    using event_appendedD(1,5) [OF app]
    by (auto simp: lawful_def row_statuses_def follows_protocol_snoc warranted_def refund_move_def)
next
  fix d r e d'
  assume lawful: "lawful d" and made: "proposed d r e d'"
  let ?d1 = "d\<lparr>db_refunds := db_refunds d @ [r]\<rparr>"
  have app: "event_appended ?d1 e d'" and new: "rf_id r \<notin> rf_id ` set (db_refunds d)"
    using made by (simp_all add: proposed_def)
  note appended = event_appendedD(1,5) [OF app]
  have "refund_statuses (db_events d) (rf_id r) = None"
    using lawful new row_statuses_none [of d] by (simp add: lawful_def)
  then have "warranted (db_events d) e" using made by (simp add: warranted_def proposed_def)
  moreover have "row_statuses d' = (row_statuses d)(rf_id r \<mapsto> RS_PENDING_APPROVAL)"
    using row_statuses_added [of d' d r] appended(2) new made by (simp add: proposed_def)
  ultimately show "lawful d'"
    using lawful appended made by (simp add: lawful_def follows_protocol_snoc proposed_def refund_move_def)
next
  fix d r e d'
  assume lawful: "lawful d" and ok: "db_ok d" and adv: "advanced d r e d'"
  then obtain r' d1 where rep: "row_replaced d r r' d1" and app: "event_appended d1 e d'"
    and move: "refund_move e = Some (rf_id r, rf_status r')" "ev_order_id e = Some (rf_order_id r)"
      "rf_status r' \<in> allowed_refund_status_targets (rf_status r)"
      "ev_event_type e = ET_REFUND_AUTO_APPROVED \<longrightarrow> within_threshold d (rf_order_id r) (dec_cents (rf_amount r))"
    by (auto simp: advanced_def)
  have "warranted (db_events d) e"
    using lawful by (intro advance_warranted [OF rep app move ok]) (simp add: lawful_def)
  moreover have "row_statuses d' = (row_statuses d)(rf_id r \<mapsto> rf_status r')"
    using row_statuses_replaced(1) [OF rep] ok event_appendedD(5) [OF app]
    by (simp add: db_ok_def keys_ok_def row_statuses_def)
  ultimately show "lawful d'"
    using lawful event_appendedD(1) [OF app] row_replaced_frame(1) [OF rep] move(1)
    by (simp add: lawful_def follows_protocol_snoc)
qed

lemma lawful_empty: "lawful empty_db"
  by (simp add: lawful_def empty_db_def row_statuses_def follows_protocol_def)

lemma reachable_lawful: "reachable w \<Longrightarrow> lawful (w_db w)"
  using protocol.reachable_holds [OF _ lawful_empty] heldD(3) by blast

section \<open>History only grows\<close>

text \<open>
  Relative to a log, the authorisation intents of a refunds table and its statuses: events are
  appended, intents are neither changed nor removed, and a final status stays.
\<close>

definition final_status :: "refund_status \<Rightarrow> bool" where
  "final_status s \<longleftrightarrow> allowed_refund_status_targets s = {}"

definition grown :: "db \<Rightarrow> db \<Rightarrow> bool" where
  "grown d0 d \<longleftrightarrow> prefix (db_events d0) (db_events d) \<and>
     prefix (map refund_intent (db_refunds d0)) (map refund_intent (db_refunds d)) \<and>
     (\<forall>rid s. row_statuses d0 rid = Some s \<and> final_status s \<longrightarrow> row_statuses d rid = Some s)"

lemma grown_refl: "grown d d"
  by (simp add: grown_def)

lemma grown_append:
  "event_appended d e d' \<Longrightarrow> grown d0 d \<Longrightarrow> grown d0 d'"
  using event_appendedD(1,5) [of d e d'] by (auto simp: grown_def row_statuses_def prefix_def)

interpretation history: log_discipline "grown d0" for d0
proof unfold_locales
  fix d d' :: db
  assume "grown d0 d" "db_events d' = db_events d" "db_refunds d' = db_refunds d"
  then show "grown d0 d'" by (simp add: grown_def row_statuses_def)
next
  fix d e d' assume "grown d0 d" "event_appended d e d'" "neutral e"
  then show "grown d0 d'" by (blast intro: grown_append)
next
  fix d e d' and m :: verification_method
  assume "grown d0 d" "event_appended d e d'"
  then show "grown d0 d'" by (blast intro: grown_append)
next
  fix d r e d'
  assume "grown d0 d" and made: "proposed d r e d'"
  let ?d1 = "d\<lparr>db_refunds := db_refunds d @ [r]\<rparr>"
  have app: "event_appended ?d1 e d'" and new: "rf_id r \<notin> rf_id ` set (db_refunds d)"
    using made by (simp_all add: proposed_def)
  have "row_statuses ?d1 rid = Some s" if "row_statuses d rid = Some s" for rid s
    using that row_statuses_added [of ?d1 d r] new row_statuses_none [of d "rf_id r"] by auto
  with \<open>grown d0 d\<close> have "grown d0 ?d1" by (auto simp: grown_def prefix_def)
  with app show "grown d0 d'" by (rule grown_append)
next
  fix d r e d'
  assume grown: "grown d0 d" and ok: "db_ok d" and adv: "advanced d r e d'"
  obtain r' d1 where rep: "row_replaced d r r' d1" and app: "event_appended d1 e d'"
    and target: "rf_status r' \<in> allowed_refund_status_targets (rf_status r)"
    using adv by (auto simp: advanced_def)
  note frame = row_replaced_frame [OF rep]
  have keys: "distinct (map rf_id (db_refunds d))" using ok by (simp add: db_ok_def keys_ok_def)
  have "row_statuses d1 rid = Some s" if "row_statuses d rid = Some s" "final_status s" for rid s
    using that row_statuses_replaced [OF rep keys] target by (auto simp: final_status_def)
  with grown frame(1,7) have "grown d0 d1" by (auto simp: grown_def)
  with app show "grown d0 d'" by (rule grown_append)
qed

section \<open>Between requests nothing is uncommitted\<close>

abbreviation at_commit :: "world \<Rightarrow> bool" where
  "at_commit w \<equiv> w_db w = w_committed w"

lemma at_commit_sessions: "preserves at_commit (session_begin m)" "preserves at_commit (session_scope m)"
  by (auto simp: preserves_def session_begin_def session_scope_def split: prod.split sum.split)

lemma preserves_case_list:
  "preserves P m \<Longrightarrow> (\<And>x xs. preserves P (k x xs)) \<Longrightarrow> preserves P (case ys of [] \<Rightarrow> m | x # xs \<Rightarrow> k x xs)"
  by (cases ys) simp_all

lemma preserves_case_kind:
  "preserves P m1 \<Longrightarrow> preserves P m2 \<Longrightarrow> preserves P m3 \<Longrightarrow>
   preserves P (case k of VR_NOT_FOUND \<Rightarrow> m1 | VR_EXPIRED \<Rightarrow> m2 | VR_VERIFIED \<Rightarrow> m3)"
  by (cases k) simp_all

lemma at_commit_drain: "preserves at_commit (drain_agent_loop_queue fuel h ids)"
proof -
  have "preserves at_commit (drain_queue runs turns h queue)" for runs turns queue
  proof (induction runs arbitrary: queue)
    case (Suc runs)
    show ?case
      unfolding drain_queue.simps queued_case_runs_def run_queued_case_def
      by (intro preserves_rules preserves_case_list at_commit_sessions Suc)
  qed (simp add: preserves_returnM)
  then show ?thesis by (simp add: drain_agent_loop_queue_def)
qed

lemma at_commit_requests:
  "preserves at_commit (post_inbound_email fuel h inbound)" "preserves at_commit get_operator_pending"
  "preserves at_commit (post_operator_approve fuel h approval)" "preserves at_commit (post_operator_reject fuel h rejection)"
  "preserves at_commit (post_verification_confirm fuel h token)"
proof -
  have resume: "preserves at_commit (resume_cases_in_order fuel h ids extra)" "preserves at_commit (resume_open_case fuel h cs)"
    for ids extra cs
    unfolding resume_cases_in_order_def resume_open_case_def by (rule at_commit_drain)+
  then have answer: "preserves at_commit (answer_operator_decision fuel h outcome)" for outcome
    unfolding answer_operator_decision_def by (intro preserves_rules)
  show "preserves at_commit (post_inbound_email fuel h inbound)"
    unfolding post_inbound_email_def route_inbound_email_def
    by (intro preserves_rules at_commit_sessions at_commit_drain)
  show "preserves at_commit get_operator_pending"
    unfolding get_operator_pending_def clock_now_def by (intro preserves_rules at_commit_sessions)
  show "preserves at_commit (post_operator_approve fuel h approval)" "preserves at_commit (post_operator_reject fuel h rejection)"
    unfolding post_operator_approve_def post_operator_reject_def
    by (intro preserves_rules at_commit_sessions answer)+
  show "preserves at_commit (post_verification_confirm fuel h token)"
    unfolding post_verification_confirm_def
    by (intro preserves_rules preserves_case_kind at_commit_sessions at_commit_drain resume)
qed

lemma reachable_at_commit: "reachable w \<Longrightarrow> at_commit w"
proof (induction rule: reachable.induct)
  case (seeded profile now w)
  then show ?case by (auto simp: session_begin_def split: prod.splits sum.splits)
next
  case (stepped w w')
  from stepped(2) stepped(3) show ?case
    by (cases rule: step.cases) (auto intro: preservesD [OF at_commit_requests(1)] preservesD [OF at_commit_requests(2)]
        preservesD [OF at_commit_requests(3)] preservesD [OF at_commit_requests(4)] preservesD [OF at_commit_requests(5)])
qed

lemma step_grows: "reachable w \<Longrightarrow> step w w' \<Longrightarrow> grown (w_db w) (w_db w')"
  using history.step_holds [of w w' "w_db w"] reachable_good reachable_at_commit grown_refl [of "w_db w"]
  by (fastforce simp: held_def)

section \<open>From a status to the events that led to it\<close>

lemma follows_protocol_prefix: "follows_protocol (xs @ ys) \<Longrightarrow> follows_protocol xs"
  unfolding follows_protocol_def by (metis append.assoc append_Cons)

lemma approval_in_log:
  "follows_protocol evs \<Longrightarrow> refund_statuses evs rid \<in> {Some RS_APPROVED, Some RS_EXECUTED} \<Longrightarrow>
   \<exists>xs e ys. evs = xs @ e # ys \<and> refund_move e = Some (rid, RS_APPROVED)"
proof (induction evs rule: rev_induct)
  case (snoc e evs)
  have earlier: ?case if "refund_statuses evs rid \<in> {Some RS_APPROVED, Some RS_EXECUTED}"
    using snoc.IH [OF follows_protocol_prefix [OF snoc.prems(1)] that] by (metis append.assoc append_Cons)
  show ?case
  proof (cases "\<exists>s. refund_move e = Some (rid, s)")
    case False
    with snoc.prems(2) earlier show ?thesis by (auto split: option.splits prod.splits if_splits)
  next
    case True
    then obtain s where s: "refund_move e = Some (rid, s)" "s \<in> {RS_APPROVED, RS_EXECUTED}"
      using snoc.prems(2) by auto
    show ?thesis
    proof (cases "s = RS_APPROVED")
      case True
      with s(1) show ?thesis by blast
    next
      case False
      then obtain p where "event_payload e = Inr p" "refund_move_of_payload p = Some (rid, RS_EXECUTED)"
        using s by (auto simp: refund_move_def split: sum.splits)
      moreover have "warranted evs e" using snoc.prems(1) by (simp add: follows_protocol_snoc)
      ultimately have "refund_statuses evs rid = Some RS_APPROVED" by (cases p) (auto simp: warranted_def)
      with earlier show ?thesis by simp
    qed
  qed
qed simp

lemma proposal_in_log:
  "follows_protocol evs \<Longrightarrow> refund_statuses evs rid \<noteq> None \<Longrightarrow>
   \<exists>xs p ys amount. evs = xs @ p # ys \<and> event_payload p = Inr (RefundProposedPayload rid amount) \<and>
     verified_in xs (ev_customer_id p)"
proof (induction evs rule: rev_induct)
  case (snoc e evs)
  have earlier: ?case if "refund_statuses evs rid \<noteq> None"
    using snoc.IH [OF follows_protocol_prefix [OF snoc.prems(1)] that] by (metis append.assoc append_Cons)
  have warranted: "warranted evs e" using snoc.prems(1) by (simp add: follows_protocol_snoc)
  show ?case
  proof (cases "\<exists>amount. event_payload e = Inr (RefundProposedPayload rid amount)")
    case True
    with warranted show ?thesis by (force simp: warranted_def)
  next
    case False
    have "refund_statuses evs rid \<noteq> None"
    proof (cases "\<exists>s. refund_move e = Some (rid, s)")
      case True
      then obtain p s where "event_payload e = Inr p" "refund_move_of_payload p = Some (rid, s)"
        by (auto simp: refund_move_def split: sum.splits)
      with False warranted show ?thesis by (cases p) (auto simp: warranted_def)
    qed (use snoc.prems(2) in \<open>auto split: option.splits prod.splits if_splits\<close>)
    then show ?thesis by (rule earlier)
  qed
qed simp

lemma proposal_unique:
  assumes ok: "db_ok d" and p: "p \<in> set (db_events d)" "event_payload p = Inr (RefundProposedPayload (rf_id r) amount)"
    and r: "r \<in> set (db_refunds d)"
  shows "amount = rf_amount r" and "ev_order_id p = Some (rf_order_id r)" and "ev_customer_id p = rf_customer_id r"
    and "ev_case_id p = Some (rf_case_id r)"
proof -
  have "p \<in> set (proposals d)"
    using p payload_type_iff [OF p(2), of ET_REFUND_PROPOSED] by (simp add: proposals_def)
  then have "proposal_intent p \<in> refund_intent ` set (db_refunds d)"
    using ok imageI [of p _ proposal_intent] unfolding db_ok_def evidence_ok_def by (metis set_map)
  then obtain r' where r': "r' \<in> set (db_refunds d)" "proposal_intent p = refund_intent r'" by (elim imageE) simp
  moreover have "r' = r"
    using ok r r' p(2) distinct_map_eq [of rf_id "db_refunds d" r' r]
    by (auto simp: proposal_intent_def refund_intent_def db_ok_def keys_ok_def)
  ultimately show "amount = rf_amount r" and "ev_order_id p = Some (rf_order_id r)"
    and "ev_customer_id p = rf_customer_id r" and "ev_case_id p = Some (rf_case_id r)"
    using p(2) by (simp_all add: proposal_intent_def refund_intent_def)
qed

lemma verified_in_mono: "verified_in xs u \<Longrightarrow> set xs \<subseteq> set ys \<Longrightarrow> verified_in ys u"
  by (auto simp: verified_in_def)

text \<open>
  What has to be found in the log for a refund that was approved: its proposal, for a customer
  verified before, and after it the approval, by an operator or within the threshold.
\<close>

definition approval_event :: "stored_event list \<Rightarrow> stored_event \<Rightarrow> stored_event \<Rightarrow> pystr \<Rightarrow> decimal \<Rightarrow> bool" where
  "approval_event evs p e rid amount \<longleftrightarrow>
     (\<exists>operator_id. event_payload e = Inr (RefundApprovedPayload rid operator_id) \<and> ev_actor e = Actor_OPERATOR) \<or>
     event_payload e = Inr (RefundAutoApprovedPayload rid) \<and> ev_order_id e = ev_order_id p \<and>
     dec_cents amount + sum_list (map executed_cents (filter (\<lambda>x. ev_order_id x = ev_order_id e) evs)) \<le> 50000"

definition approval_trail :: "stored_event list \<Rightarrow> pystr \<Rightarrow> decimal \<Rightarrow> bool" where
  "approval_trail evs rid amount \<longleftrightarrow> (\<exists>xs p ys e zs. evs = xs @ p # ys @ e # zs \<and>
     event_payload p = Inr (RefundProposedPayload rid amount) \<and> verified_in xs (ev_customer_id p) \<and>
     approval_event (xs @ p # ys) p e rid amount)"

lemma refund_move_approved:
  "refund_move e = Some (rid, RS_APPROVED) \<Longrightarrow>
   event_payload e = Inr (RefundAutoApprovedPayload rid) \<or> (\<exists>operator_id. event_payload e = Inr (RefundApprovedPayload rid operator_id))"
  by (auto simp: refund_move_def split: sum.splits) (rename_tac p, case_tac p; simp)

lemma approved_trail:
  assumes lawful: "lawful d" and ok: "db_ok d" and r: "r \<in> set (db_refunds d)"
    and status: "rf_status r \<in> {RS_APPROVED, RS_EXECUTED}"
  shows "approval_trail (db_events d) (rf_id r) (rf_amount r)"
proof -
  let ?rid = "rf_id r"
  have follows: "follows_protocol (db_events d)" using lawful by (simp add: lawful_def)
  have "row_statuses d ?rid = Some (rf_status r)"
    using r ok by (simp add: row_statuses_def db_ok_def keys_ok_def comp_def)
  with lawful status have "refund_statuses (db_events d) ?rid \<in> {Some RS_APPROVED, Some RS_EXECUTED}"
    by (auto simp: lawful_def)
  then obtain ws e zs where log: "db_events d = ws @ e # zs" and move: "refund_move e = Some (?rid, RS_APPROVED)"
    using approval_in_log [OF follows] by blast
  have warranted: "warranted ws e" using follows log by (auto simp: follows_protocol_def)
  with refund_move_approved [OF move] have "refund_statuses ws ?rid = Some RS_PENDING_APPROVAL"
    by (auto simp: warranted_def)
  then obtain xs p ys amount where ws: "ws = xs @ p # ys" and p: "event_payload p = Inr (RefundProposedPayload ?rid amount)"
    and verified: "verified_in xs (ev_customer_id p)"
    using proposal_in_log [of ws ?rid] follows_protocol_prefix [of ws] follows log by auto
  have "p \<in> set (db_events d)" by (simp add: log ws)
  note proposal = proposal_unique [OF ok this p r]
  have "approval_event ws p e ?rid amount"
    using refund_move_approved [OF move]
  proof
    assume auto: "event_payload e = Inr (RefundAutoApprovedPayload ?rid)"
    then obtain q a where q: "q \<in> set ws" "event_payload q = Inr (RefundProposedPayload ?rid a)"
      "ev_order_id q = ev_order_id e"
      and within: "dec_cents a + sum_list (map executed_cents (filter (\<lambda>x. ev_order_id x = ev_order_id e) ws)) \<le> 50000"
      using warranted by (auto simp: warranted_def)
    have "q \<in> set (db_events d)" using q(1) by (simp add: log)
    note same = proposal_unique [OF ok this q(2) r]
    show ?thesis using auto within q(3) same(1,2) proposal(1,2) by (simp add: approval_event_def)
  next
    assume "\<exists>operator_id. event_payload e = Inr (RefundApprovedPayload ?rid operator_id)"
    then show ?thesis using warranted by (auto simp: approval_event_def warranted_def)
  qed
  then show ?thesis
    using p verified proposal(1) unfolding approval_trail_def log ws
    by (intro exI [of _ xs] exI [of _ p] exI [of _ ys] exI [of _ e] exI [of _ zs]) simp
qed

end
