(* ===== verification/Identifiers.thy ===== *)
theory Identifiers
  imports World_Invariants
begin

text \<open>
  Identifiers are drawn from a counter (\<open>ids.py\<close>) and never repeat while one process runs over
  the database it seeded: no stored row has an identifier that the counter may still give.  So an
  event with a payload of its type, for rows that exist, is always stored.
\<close>

section \<open>Fresh identifiers\<close>

definition unissued :: "nat \<Rightarrow> db \<Rightarrow> bool" where
  "unissued k d \<longleftrightarrow> (\<forall>n\<ge>k.
     lit ''evt_'' @ nat_str n \<notin> ev_id ` set (db_events d) \<and>
     lit ''case_'' @ nat_str n \<notin> ca_id ` set (db_cases d) \<and>
     lit ''rfnd_'' @ nat_str n \<notin> rf_id ` set (db_refunds d))"

definition identifiers_fresh :: "nat \<Rightarrow> world \<Rightarrow> bool" where
  "identifiers_fresh k w \<longleftrightarrow> k \<le> w_counter w \<and>
     unissued (w_counter w) (w_db w) \<and> unissued (w_counter w) (w_committed w)"

lemma unissued_later: "unissued k d \<Longrightarrow> k \<le> j \<Longrightarrow> unissued j d"
  by (simp add: unissued_def)

lemma unissued_rows:
  "unissued k d \<Longrightarrow> db_events d' = db_events d \<Longrightarrow> db_cases d' = db_cases d \<Longrightarrow>
   map rf_id (db_refunds d') = map rf_id (db_refunds d) \<Longrightarrow> unissued k d'"
  unfolding unissued_def by (metis set_map)

interpretation identifiers: request_invariant identifiers_fresh
proof unfold_locales
  fix k w and d :: db
  assume "identifiers_fresh k w" "db_events d = db_events (w_db w)" "db_cases d = db_cases (w_db w)"
    "map rf_id (db_refunds d) = map rf_id (db_refunds (w_db w))"
  then show "identifiers_fresh k (w\<lparr>w_db := d\<rparr>)"
    by (auto simp: identifiers_fresh_def intro: unissued_rows)
qed (auto simp: identifiers_fresh_def unissued_def)

lemma fresh_world_identifiers: "identifiers_fresh 0 (fresh_world now)"
  by (simp add: identifiers_fresh_def unissued_def fresh_world_def empty_db_def)

lemma reachable_identifiers: "reachable w \<Longrightarrow> identifiers_fresh 0 w"
  using identifiers.reachable_keeps fresh_world_identifiers by blast

section \<open>Appending succeeds\<close>

lemma case_owner_found:
  assumes "keys_ok d" and "case_of_customer d c u"
  shows "\<exists>row. find (\<lambda>r. ca_id r = c) (db_cases d) = Some row \<and> ca_customer_id row = u"
  using assms find_key_unique [of ca_id "db_cases d"] by (auto simp: keys_ok_def case_of_customer_def)

lemma order_owner_found:
  assumes "keys_ok d" and "order_of_customer d c u"
  shows "\<exists>row. find (\<lambda>r. or_id r = c) (db_orders d) = Some row \<and> or_customer_id row = u"
  using assms find_key_unique [of or_id "db_orders d"] by (auto simp: keys_ok_def order_of_customer_def)

lemma relational_scope_ok:
  assumes "keys_ok (w_db w)"
    and "case cs of None \<Rightarrow> True | Some c \<Rightarrow> case_of_customer (w_db w) c u"
    and "case ord of None \<Rightarrow> True | Some c \<Rightarrow> order_of_customer (w_db w) c u"
  shows "validate_event_relational_scope u cs ord w = (Inr (), w)"
proof -
  have "case_scope_customer u cs w = (Inr (map_option (\<lambda>_. u) cs), w)"
    using assms(2) case_owner_found [OF assms(1)]
    by (cases cs) (fastforce simp: case_scope_customer_def load_case_customer_id_def)+
  moreover have "check_order_scope u ord w = (Inr (), w)"
    using assms(3) order_owner_found [OF assms(1)]
    by (cases ord) (fastforce simp: check_order_scope_def load_order_customer_id_def)+
  moreover have "load_order_customer_id c w = (Inr (Some u), w)" if "ord = Some c" for c
    using assms(3) order_owner_found [OF assms(1)] that by (fastforce simp: load_order_customer_id_def)
  ultimately show ?thesis
    unfolding validate_event_relational_scope_def by (cases cs; cases ord) (simp_all add: bindM_def thenM_def)
qed

lemma allocate_ok:
  assumes "customer_exists (w_db w) u"
  shows "\<exists>w'. allocate_customer_event_seq u w = (Inr (last_seq (w_db w) u + 1), w')"
proof (cases "map_of (db_event_sequences (w_db w)) u")
  case None
  then show ?thesis
    using assms
    by (simp add: allocate_customer_event_seq_def bump_event_sequence_def ensure_event_sequence_row_def bindM_def
        thenM_def last_seq_def map_add_def)
next
  case (Some n)
  then show ?thesis by (simp add: allocate_customer_event_seq_def bump_event_sequence_def bindM_def thenM_def last_seq_def)
qed

lemma sequence_unused:
  assumes "sequences_ok d" and "e \<in> set (db_events d)" and "ev_customer_id e = u"
  shows "ev_seq e \<noteq> last_seq d u + 1"
proof -
  have "ev_seq e \<in> set (map ev_seq (customer_events d u))" using assms(2,3) by (auto simp: customer_events_def)
  moreover have "map ev_seq (customer_events d u) = [1..last_seq d u]" using assms(1) by (simp add: sequences_ok_def)
  ultimately have "ev_seq e \<in> set [1..last_seq d u]" by simp
  then show ?thesis by simp
qed

text \<open>The accounts may disagree in between: a row is moved before its event is stored.\<close>

lemma append_succeeds_between:
  assumes keys: "keys_ok (w_db w)" and seqs: "sequences_ok (w_db w)" and fresh: "identifiers_fresh k w"
    and customer: "customer_exists (w_db w) u"
    and case_scope: "case cs of None \<Rightarrow> True | Some c \<Rightarrow> case_of_customer (w_db w) c u"
    and order_scope: "case ord of None \<Rightarrow> True | Some c \<Rightarrow> order_of_customer (w_db w) c u"
    and scope: "catalogue_scope_ok et cs ord" and actor: "(a, ch) = catalogue_actor p"
    and model: "payload_class p = payload_model_for_event_type et" and finite: "payload_finite p"
  shows "\<exists>e w'. append_canonical_event (EvMember et) u cs ord a ch (model_dump p) w = (Inr e, w')"
proof -
  obtain row where lock: "lock_customer_for_update u w = (Inr row, w)"
    using customer find_key_unique [of cu_id "db_customers (w_db w)"] keys
    by (fastforce simp: lock_customer_for_update_def find_customer_by_id_def customer_exists_def keys_ok_def)
  have build: "build_canonical_event (EvMember et) u cs ord a ch (model_dump p) =
      Inr \<lparr>ce_event_type = et, ce_customer_id = u, ce_case_id = cs, ce_order_id = ord, ce_actor = a, ce_channel = ch,
        ce_payload = p\<rparr>"
    using scope actor model_validate_dump [OF finite] model by (simp add: build_member_iff validate_payload_def)
  obtain w1 where alloc: "allocate_customer_event_seq u w = (Inr (last_seq (w_db w) u + 1), w1)"
    using allocate_ok [OF customer] by blast
  obtain ss where w1: "w1 = w\<lparr>w_db := (w_db w)\<lparr>db_event_sequences := ss\<rparr>\<rparr>"
    using allocate_run [OF alloc] by blast
  let ?e = "\<lparr>ev_id = lit ''evt_'' @ nat_str (w_counter w), ev_customer_id = u, ev_case_id = cs, ev_order_id = ord,
    ev_seq = last_seq (w_db w) u + 1, ev_event_type = et, ev_actor = a, ev_channel = ch, ev_payload = model_dump p,
    ev_created_at = time_now w\<rparr>"
  have "ev_id ?e \<notin> ev_id ` set (db_events (w_db w))"
    using fresh by (simp add: identifiers_fresh_def unissued_def)
  moreover have "\<forall>x\<in>set (db_events (w_db w)). (ev_customer_id x, ev_seq x) \<noteq> (u, last_seq (w_db w) u + 1)"
    using sequence_unused [OF seqs] by auto
  ultimately have "\<exists>v. insert_event ?e (w1\<lparr>w_counter := w_counter w + 1\<rparr>) = (Inr (), v)"
    using customer case_scope order_scope
    by (simp add: insert_event_def w1 customer_exists_def case_of_customer_def order_of_customer_def
        cong: option.case_cong)
  then show ?thesis
    using lock build alloc relational_scope_ok [OF keys case_scope order_scope]
    by (auto simp: append_canonical_event_def bindM_def thenM_def payload_as_dict_def clock_now_def ids_event_id_def
        next_identifier_def w1 Let_def cong: option.case_cong)
qed

lemma append_succeeds:
  assumes "db_ok (w_db w)" and "identifiers_fresh k w" and "customer_exists (w_db w) u"
    and "case cs of None \<Rightarrow> True | Some c \<Rightarrow> case_of_customer (w_db w) c u"
    and "case ord of None \<Rightarrow> True | Some c \<Rightarrow> order_of_customer (w_db w) c u"
    and "catalogue_scope_ok et cs ord" and "(a, ch) = catalogue_actor p"
    and "payload_class p = payload_model_for_event_type et" and "payload_finite p"
  shows "\<exists>e w'. append_canonical_event (EvMember et) u cs ord a ch (model_dump p) w = (Inr e, w')"
  using assms(1) by (intro append_succeeds_between [OF _ _ assms(2-9)]) (simp_all add: db_ok_def)

end
