(* ===== verification/Expiry.thy ===== *)
theory Expiry
  imports Identifiers
begin

text \<open>
  The expiry of refunds never fails.  Every stored history can be folded to a case summary, a due
  refund can be moved and its event stored, and so the lookups that begin a decision or the
  routing of an email return.
\<close>

section \<open>Stored histories can be folded\<close>

lemma foldE_total: "(\<And>x a. x \<in> set xs \<Longrightarrow> \<exists>b. f a x = Inr b) \<Longrightarrow> \<exists>b. foldE f a xs = Inr b"
proof (induction xs arbitrary: a)
  case (Cons x xs)
  from Cons.prems [of x a] obtain b where "f a x = Inr b" by auto
  with Cons show ?case by simp
qed simp

lemma payload_validates: "event_payload e = Inr p \<Longrightarrow> model_validate (payload_class p) (model_dump p) = Inr p"
  unfolding event_payload_def by (drule validate_payload_class) (blast intro: model_validate_dump)

lemma accounting_total:
  assumes "event_payload e = Inr p"
  shows "\<exists>st'. apply_agent_attempt_accounting st e = Inr st'"
proof -
  have cls: "payload_class p = payload_model_for_event_type (ev_event_type e)"
    using assms by (auto simp: event_payload_def dest: validate_payload_class)
  have "\<exists>b. event_escalation_origin e = Inr b" if "ev_event_type e = ET_ESCALATED"
    using that assms cls payload_validates [OF assms] by (cases p) (auto simp: event_escalation_origin_def)
  moreover have "\<exists>b. case_closed_outcome e = Inr b" if "ev_event_type e = ET_CASE_CLOSED"
    using that assms cls payload_validates [OF assms] by (cases p) (auto simp: case_closed_outcome_def)
  ultimately show ?thesis
    by (auto simp: apply_agent_attempt_accounting_def event_counts_as_agent_step_def
        event_is_successful_parse_outcome_def Let_def)
qed

lemma case_event_total:
  assumes "event_payload e = Inr p"
  shows "\<exists>st'. apply_case_event st e = Inr st'"
proof -
  have cls: "payload_class p = payload_model_for_event_type (ev_event_type e)"
    using assms by (auto simp: event_payload_def dest: validate_payload_class)
  have refund: "\<exists>st'. apply_refund_event st1 e = Inr st'" for st1
    using assms cls payload_validates [OF assms]
    by (cases "ev_event_type e"; cases p) (auto simp: apply_refund_event_def)
  obtain st1 where "apply_agent_attempt_accounting st e = Inr st1" using accounting_total [OF assms] by blast
  moreover obtain st2 where "apply_refund_event st1 e = Inr st2" using refund by blast
  moreover obtain st3 where "apply_refund_event st e = Inr st3" using refund by blast
  ultimately show ?thesis
    using assms cls payload_validates [OF assms]
    by (cases p) (auto simp: apply_case_event_def apply_reply_sent_def Let_def)
qed

lemma stored_payload: "db_ok d \<Longrightarrow> e \<in> set (db_events d) \<Longrightarrow> \<exists>p. event_payload e = Inr p"
  unfolding db_ok_def references_ok_def event_ok_def by (cases "event_payload e") fastforce+

lemma case_summary_exists:
  assumes "db_ok d"
  shows "\<exists>summary. project_case_summary c u (customer_events d u) now = Inr summary"
proof -
  have "e \<in> set (db_events d)" if "e \<in> set (case_fold_events c u (customer_events d u))" for e
    using that by (auto simp: case_fold_events_def customer_events_def)
  then have "\<exists>st. foldE apply_case_event initial_case_fold_state (case_fold_events c u (customer_events d u)) = Inr st"
    using case_event_total stored_payload [OF assms] by (intro foldE_total) blast
  then show ?thesis by (auto simp: project_case_summary_def)
qed

section \<open>Moving a due refund\<close>

text \<open>An operation that returns from every state of the condition and keeps it.\<close>

abbreviation returning :: "(world \<Rightarrow> bool) \<Rightarrow> 'a op \<Rightarrow> bool" where
  "returning P m \<equiv> hoare P m (\<lambda>_. P) (\<lambda>_. False)"

definition sound_world :: "pystr \<Rightarrow> world \<Rightarrow> bool" where
  "sound_world u w \<longleftrightarrow> world_good w \<and> identifiers_fresh 0 w \<and> customer_exists (w_db w) u"

definition expiring :: "pystr \<Rightarrow> refund_row list \<Rightarrow> world \<Rightarrow> bool" where
  "expiring u due w \<longleftrightarrow> rows_known due w \<and> sound_world u w \<and>
     (\<forall>r\<in>set due. case_of_customer (w_db w) (rf_case_id r) u \<and> order_of_customer (w_db w) (rf_order_id r) u)"

text \<open>The transition changes refunds only, and their identifiers stay.\<close>

lemma expire_transition:
  obtains moved rows where
    "transition_refund_status rid RS_PENDING_APPROVAL RS_EXPIRED None True w =
       (Inr moved, w\<lparr>w_db := (w_db w)\<lparr>db_refunds := rows\<rparr>\<rparr>)"
    and "map rf_id rows = map rf_id (db_refunds (w_db w))"
proof -
  let ?match = "transition_matches rid RS_PENDING_APPROVAL None"
  let ?rows = "map (\<lambda>r. if ?match r then set_refund_status RS_EXPIRED True r else r) (db_refunds (w_db w))"
  have "transition_refund_status rid RS_PENDING_APPROVAL RS_EXPIRED None True w =
      (Inr (length (filter ?match (db_refunds (w_db w))) = 1), w\<lparr>w_db := (w_db w)\<lparr>db_refunds := ?rows\<rparr>\<rparr>)"
    by (simp add: transition_refund_status_def assert_refund_status_transition_permitted_def
        bindM_def thenM_def liftM_def modify_db_def)
  moreover have "map rf_id ?rows = map rf_id (db_refunds (w_db w))" by (simp add: set_refund_status_def)
  ultimately show thesis by (rule that)
qed

lemma expire_one_total:
  assumes inv: "expiring u due w" and r: "r \<in> set due"
  obtains x w' where "expire_one_refund u acc r w = (Inr x, w')" and "expiring u due w'"
proof -
  have world: "rows_known due w" "world_good w" "identifiers_fresh 0 w" "customer_exists (w_db w) u"
    and scope: "\<And>r. r \<in> set due \<Longrightarrow> case_of_customer (w_db w) (rf_case_id r) u \<and> order_of_customer (w_db w) (rf_order_id r) u"
    using inv by (auto simp: expiring_def sound_world_def)
  obtain moved rows where move: "transition_refund_status (rf_id r) RS_PENDING_APPROVAL RS_EXPIRED None True w =
      (Inr moved, w\<lparr>w_db := (w_db w)\<lparr>db_refunds := rows\<rparr>\<rparr>)" (is "_ = (_, ?w1)")
    and rows: "map rf_id rows = map rf_id (db_refunds (w_db w))" by (rule expire_transition)
  have fresh1: "identifiers_fresh 0 ?w1" using preservesD [OF identifiers.keeps_transition world(3) move] .
  have same1: "customer_exists (w_db ?w1) u"
    "\<And>r. r \<in> set due \<Longrightarrow> case_of_customer (w_db ?w1) (rf_case_id r) u \<and> order_of_customer (w_db ?w1) (rf_order_id r) u"
    using world(4) scope by (simp_all add: customer_exists_def case_of_customer_def order_of_customer_def)
  show thesis
  proof (cases moved)
    case False
    with move have run: "expire_one_refund u acc r w = (Inr acc, ?w1)"
      by (simp add: expire_one_refund_def bindM_def)
    moreover have "expiring u due ?w1"
      using expire_one_run [OF world(1) r run] fresh1 same1
      by (simp add: expiring_def sound_world_def rows_known_def)
    ultimately show thesis by (rule that)
  next
    case True
    have keys: "keys_ok (w_db ?w1)" "sequences_ok (w_db ?w1)"
      using world(2) rows
      by (simp_all add: world_good_def good_def db_ok_def keys_ok_def sequences_ok_def last_seq_def customer_events_def)
    obtain e w2 where append: "append_canonical_event (EvMember ET_REFUND_EXPIRED) u (Some (rf_case_id r))
        (Some (rf_order_id r)) Actor_SYSTEM Channel_INTERNAL (model_dump (RefundExpiredPayload (rf_id r))) ?w1 = (Inr e, w2)"
      using append_succeeds_between [OF keys fresh1 same1(1), of "Some (rf_case_id r)" "Some (rf_order_id r)"
          ET_REFUND_EXPIRED Actor_SYSTEM Channel_INTERNAL "RefundExpiredPayload (rf_id r)"] same1(2) [OF r]
      by (auto simp: catalogue_scope_ok_def simp del: model_dump.simps)
    let ?x = "if rf_case_id r \<in> set acc then acc else acc @ [rf_case_id r]"
    have run: "expire_one_refund u acc r w = (Inr ?x, w2)"
      using move append True by (simp add: expire_one_refund_def bindM_def del: model_dump.simps)
    have "identifiers_fresh 0 w2" using preservesD [OF identifiers.keeps_append fresh1 append] .
    moreover obtain ss where "w2 = ?w1\<lparr>w_counter := w_counter w + 1,
        w_db := (w_db ?w1)\<lparr>db_events := db_events (w_db ?w1) @ [e], db_event_sequences := ss\<rparr>\<rparr>"
      by (rule append_steps [OF append]) simp_all
    ultimately have "expiring u due w2"
      using expire_one_run [OF world(1) r run] same1
      by (simp add: expiring_def sound_world_def rows_known_def customer_exists_def case_of_customer_def order_of_customer_def)
    with run show thesis by (rule that)
  qed
qed

lemma returning_lock: "returning (sound_world u) (lock_customer_for_update u)"
proof (rule hoareI)
  fix w x w'
  assume "sound_world u w" and "lock_customer_for_update u w = (Inr x, w')"
  then show "sound_world u w'"
    by (auto simp: lock_customer_for_update_def find_customer_by_id_def prog_inversion split: option.splits)
next
  fix w e w'
  assume "sound_world u w" and "lock_customer_for_update u w = (Inl e, w')"
  then show False
    by (auto simp: lock_customer_for_update_def find_customer_by_id_def prog_inversion find_None_iff
        sound_world_def customer_exists_def split: option.splits)
qed

lemma due_rows_expiring:
  "hoare (sound_world u) (due_refund_rows u now) (\<lambda>due. expiring u due) (\<lambda>_. False)"
proof (rule hoareI)
  fix w due w'
  assume inv: "sound_world u w" and "due_refund_rows u now w = (Inr due, w')"
  then have w': "w' = w" and due: "set due \<subseteq> {r \<in> set (db_refunds (w_db w)). case_of_customer (w_db w) (rf_case_id r) u}"
    by (auto simp: due_refund_rows_def)
  have good: "keys_ok (w_db w)" "references_ok (w_db w)"
    using inv by (simp_all add: sound_world_def world_good_def good_def db_ok_def)
  have "order_of_customer (w_db w) (rf_order_id r) u" if "r \<in> set due" for r
  proof -
    have "refund_ok (w_db w) r" and u: "case_of_customer (w_db w) (rf_case_id r) u"
      using due that good(2) by (auto simp: references_ok_def)
    then have owner: "case_of_customer (w_db w) (rf_case_id r) (rf_customer_id r)"
      and "order_of_customer (w_db w) (rf_order_id r) (rf_customer_id r)"
      by (simp_all add: refund_ok_def)
    moreover have "rf_customer_id r = u"
      using case_owner_found [OF good(1) owner] case_owner_found [OF good(1) u] by auto
    ultimately show ?thesis by simp
  qed
  then have "\<forall>r\<in>set due. case_of_customer (w_db w) (rf_case_id r) u \<and> order_of_customer (w_db w) (rf_order_id r) u"
    using due by blast
  moreover have "rows_known due w"
    using inv due by (auto simp: sound_world_def rows_known_def)
  ultimately show "expiring u due w'" using inv unfolding w' expiring_def by blast
qed (simp add: due_refund_rows_def)

lemma returning_expire: "returning (sound_world u) (expire_due_refunds_for_customer u)"
proof -
  have now: "returning (sound_world u) clock_now" by (simp add: hoare_def clock_now_def)
  have loop: "hoare (expiring u due) (foldM (expire_one_refund u) [] due) (\<lambda>_. sound_world u) (\<lambda>_. False)" for due
  proof (rule hoare_weaken [OF hoare_foldM])
    show "returning (expiring u due) (expire_one_refund u acc r)" if r: "r \<in> set due" for acc r
      unfolding hoare_def
    proof (intro allI impI)
      fix w assume "expiring u due w"
      then obtain x w' where "expire_one_refund u acc r w = (Inr x, w')" and "expiring u due w'"
        by (rule expire_one_total [OF _ r])
      then show "case expire_one_refund u acc r w of (Inr x, w') \<Rightarrow> expiring u due w' | (Inl e, w') \<Rightarrow> False" by simp
    qed
  qed (auto simp: expiring_def)
  have load: "hoare (sound_world u) (load_customer_events u)
      (\<lambda>events w. sound_world u w \<and> events = customer_events (w_db w) u) (\<lambda>_. False)"
  proof -
    have "load_customer_events u w = (Inr (customer_events (w_db w) u), w)" if "sound_world u w" for w
      using that by (intro load_customer_events_run) (simp add: sound_world_def world_good_def good_def db_ok_def)
    then show ?thesis by (auto simp: hoare_def)
  qed
  have summaries: "hoare (\<lambda>w. sound_world u w \<and> events = customer_events (w_db w) u)
      (foldM (\<lambda>reopened c. bindM (liftM (project_case_summary c u events now)) (\<lambda>summary.
         returnM (if cs_status summary = CS_OPEN then reopened @ [c] else reopened))) [] ids)
      (\<lambda>_. sound_world u) (\<lambda>_. False)" for events now ids
  proof (rule hoare_weaken [OF hoare_foldM])
    show "returning (\<lambda>w. sound_world u w \<and> events = customer_events (w_db w) u)
        (bindM (liftM (project_case_summary c u events now)) (\<lambda>summary.
           returnM (if cs_status summary = CS_OPEN then reopened @ [c] else reopened)))" for reopened c
      unfolding hoare_def
    proof (intro allI impI)
      fix w assume inv: "sound_world u w \<and> events = customer_events (w_db w) u"
      then obtain summary where "project_case_summary c u events now = Inr summary"
        using case_summary_exists [of "w_db w" c u now] by (auto simp: sound_world_def world_good_def good_def)
      with inv show "case bindM (liftM (project_case_summary c u events now)) (\<lambda>summary.
           returnM (if cs_status summary = CS_OPEN then reopened @ [c] else reopened)) w of
          (Inr x, w') \<Rightarrow> sound_world u w' \<and> events = customer_events (w_db w') u | (Inl e, w') \<Rightarrow> False"
        by (simp add: bindM_def liftM_def)
    qed
  qed auto
  show ?thesis
    unfolding expire_due_refunds_for_customer_def
    by (rule hoare_bindM [OF returning_lock], rule hoare_bindM [OF now], rule hoare_bindM [OF due_rows_expiring],
        rule hoare_bindM [OF loop])
      (auto intro!: hoare_bindM [OF load] summaries hoare_returnM)
qed

end
