(* ===== verification/Json_Size.thy ===== *)
theory Json_Size
  imports Json_Roundtrip
begin

text \<open>
  Which characters \<open>json.dumps\<close> writes and how many bytes they take in UTF-8: its output is
  encodable and free of control characters other than the newline; compact output without
  \<open>ensure_ascii\<close> is never longer than indented output with it; and quoting text that has no
  control character but the newline at most doubles it.
\<close>

section \<open>Sizes in UTF-8\<close>

definition utf8_size :: "nat \<Rightarrow> nat" where
  "utf8_size c = (if c < 128 then 1 else if c < 2048 then 2 else if c < 65536 then 3 else 4)"

definition text_bytes :: "pystr \<Rightarrow> nat" where
  "text_bytes s = sum_list (map utf8_size s)"

lemma text_bytes_simps [simp]:
  "text_bytes [] = 0"
  "text_bytes (c # s) = utf8_size c + text_bytes s"
  "text_bytes (s @ t) = text_bytes s + text_bytes t"
  by (simp_all add: text_bytes_def)

lemma scalar_encodes: "scalar c \<Longrightarrow> \<exists>bs. utf8_char c = Some bs \<and> length bs = utf8_size c"
  by (auto simp: scalar_def utf8_char_def utf8_size_def)

lemma utf8_encode_scalar:
  "list_all scalar s \<Longrightarrow> \<exists>bs. utf8_encode s = Inr bs \<and> length bs = text_bytes s"
proof (induction s)
  case Nil
  then show ?case by simp
next
  case (Cons c s)
  then show ?case using scalar_encodes [of c] by auto
qed

lemma utf8_encode_size: "utf8_encode s = Inr bs \<Longrightarrow> length bs = text_bytes s"
proof (induction s arbitrary: bs)
  case Nil
  then show ?case by simp
next
  case (Cons c s)
  then show ?case
    by (auto simp: bindE_eq_Inr utf8_char_def utf8_size_def split: option.splits if_splits)
qed

lemma text_bytes_ascii: "list_all (\<lambda>c. c < 128) s \<Longrightarrow> text_bytes s = length s"
  by (induction s) (auto simp: utf8_size_def)

lemma utf8_size_pos: "1 \<le> utf8_size c"
  by (simp add: utf8_size_def)

lemma length_le_text_bytes: "length s \<le> text_bytes s"
proof (induction s)
  case Nil
  then show ?case by simp
next
  case (Cons c s)
  then show ?case using utf8_size_pos [of c] by simp
qed

section \<open>The characters of a document\<close>

definition visible :: "nat \<Rightarrow> bool" where
  "visible c \<longleftrightarrow> scalar c \<and> (c = 10 \<or> 32 \<le> c)"

lemma visible_ascii: "32 \<le> c \<Longrightarrow> c < 127 \<Longrightarrow> visible c"
  by (simp add: visible_def scalar_def)

lemma visible_simps [simp]: "visible 10" "visible 32" "visible 34" "visible 44" "visible 58"
  "visible 91" "visible 92" "visible 93" "visible 123" "visible 125" "visible 45"
  by (simp_all add: visible_def scalar_def)

lemma visible_lit: "list_all (\<lambda>c. 32 \<le> c \<and> c < 127) (lit s) \<Longrightarrow> list_all visible (lit s)"
  by (auto simp: list_all_iff intro: visible_ascii)

lemma hex_digit_range: "d < 16 \<Longrightarrow> 32 \<le> hex_digit d \<and> hex_digit d < 127"
  by (simp add: hex_digit_def)

lemma visible_hex4: "list_all visible (hex4 n)"
  using hex_digit_range by (simp add: hex4_def visible_ascii)

lemma visible_escape: "scalar c \<Longrightarrow> list_all visible (escape_char a c)"
  by (auto simp: escape_char_def escape_u_def visible_hex4)
    (simp_all add: visible_def scalar_def)

lemma visible_quote: "list_all scalar s \<Longrightarrow> list_all visible (quote_str a s)"
  by (induction s) (auto simp: quote_str_def visible_escape)

lemma visible_nat_str: "list_all visible (nat_str n)"
  by (auto simp: nat_str_def list_all_iff dest!: nat_digits_less intro!: visible_ascii)

lemma visible_int_str: "list_all visible (int_str i)"
  by (simp add: int_str_def visible_nat_str visible_lit lit_def)

lemma visible_joined:
  "list_all visible sep \<Longrightarrow> list_all (list_all visible) xs \<Longrightarrow> list_all visible (joined sep xs)"
  by (induction sep xs rule: joined.induct) auto

lemma visible_bracketed:
  assumes "list_all (list_all visible) items" and "visible opening" and "visible closing"
  shows "list_all visible (bracketed indent level opening closing items)"
proof -
  have indentation: "list_all visible (newline_indent indent l)" for l
    by (cases indent) (simp_all add: newline_indent_def list_all_iff)
  then have "list_all visible (item_separator indent l)" for l
    by (cases indent) (simp_all add: item_separator_def)
  with assms indentation show ?thesis
    by (simp add: bracketed_def visible_joined)
qed

lemma visible_dumps_at: "json_ok v \<Longrightarrow> list_all visible (dumps_at a indent l v)"
proof (induction v arbitrary: l)
  case (JList xs)
  then have "list_all (list_all visible) (map (dumps_at a indent (Suc l)) xs)"
    by (simp add: list_all_iff)
  then show ?case by (simp add: visible_bracketed)
next
  case (JObj kvs)
  have "list_all visible (quote_str a k @ [58, 32] @ dumps_at a indent (Suc l) v)" if kv: "(k, v) \<in> set kvs" for k v
  proof -
    have "list_all scalar k" "json_ok v" using JObj.prems kv by (auto simp: list_all_iff)
    then show ?thesis using JObj.IH [OF kv] visible_quote by simp
  qed
  then have "list_all (list_all visible)
      (map (\<lambda>(k, v). quote_str a k @ [58, 32] @ dumps_at a indent (Suc l) v) kvs)"
    by (auto simp: list_all_iff simp del: append.simps)
  then show ?case by (simp add: visible_bracketed)
qed (simp_all add: visible_lit visible_quote visible_int_str, simp_all add: lit_def visible_def scalar_def)

lemma visible_dumps: "json_ok v \<Longrightarrow> list_all visible (dumps a indent v)"
  by (simp add: dumps_def visible_dumps_at)

lemma scalar_dumps: "json_ok v \<Longrightarrow> list_all scalar (dumps a indent v)"
  using visible_dumps [of v a indent] by (auto simp: list_all_iff visible_def)

section \<open>Comparing layouts\<close>

lemma escape_size:
  shows "text_bytes (escape_char False c) \<le> text_bytes (escape_char True c)"
    and "visible c \<Longrightarrow> text_bytes (escape_char False c) \<le> 2 * utf8_size c"
proof -
  have six: "text_bytes (escape_u n) = 6" for n
    using hex_digit_range by (simp add: escape_u_def hex4_def utf8_size_def order_less_trans [of _ 127 128])
  show "text_bytes (escape_char False c) \<le> text_bytes (escape_char True c)"
    by (auto simp: escape_char_def six utf8_size_def)
  show "text_bytes (escape_char False c) \<le> 2 * utf8_size c" if "visible c"
    using that by (auto simp: escape_char_def visible_def utf8_size_def)
qed

lemma quote_size: "text_bytes (quote_str False s) \<le> text_bytes (quote_str True s)"
  by (induction s) (auto simp: quote_str_def intro: add_mono escape_size(1))

lemma quote_doubles:
  assumes "list_all visible s"
  shows "text_bytes (quote_str False s) \<le> 2 * text_bytes s + 2"
proof -
  have "text_bytes (concat (map (escape_char False) s)) \<le> 2 * text_bytes s"
    using assms
  proof (induction s)
    case Nil
    then show ?case by simp
  next
    case (Cons c s)
    then have "text_bytes (escape_char False c) \<le> 2 * utf8_size c"
      by (intro escape_size(2)) (auto simp: visible_def)
    with Cons show ?case by simp
  qed
  then show ?thesis by (simp add: quote_str_def utf8_size_def)
qed

lemma joined_size:
  assumes "list_all2 (\<lambda>x y. text_bytes x \<le> text_bytes y) xs ys" and "text_bytes s \<le> text_bytes t"
  shows "text_bytes (joined s xs) \<le> text_bytes (joined t ys)"
  using assms(1)
proof (induction rule: list_all2_induct)
  case Nil
  then show ?case by simp
next
  case (Cons x xs y ys)
  then show ?case
    using assms(2) by (cases xs; cases ys) auto
qed

lemma bracketed_size:
  assumes "list_all2 (\<lambda>x y. text_bytes x \<le> text_bytes y) xs ys" and "0 < n"
  shows "text_bytes (bracketed None l opening closing xs) \<le> text_bytes (bracketed (Some n) m opening closing ys)"
proof -
  have "text_bytes (item_separator None k) \<le> text_bytes (item_separator (Some n) (Suc j))" for k j
    using assms(2) length_le_text_bytes [of "replicate (n + n * j) 32"]
    by (simp add: item_separator_def newline_indent_def utf8_size_def)
  note seps = joined_size [OF assms(1) this]
  have "text_bytes (bracketed None l opening closing xs) =
      utf8_size opening + utf8_size closing + text_bytes (joined (item_separator None (Suc l)) xs)"
    by (simp add: bracketed_def newline_indent_def)
  also have "\<dots> \<le> utf8_size opening + utf8_size closing +
      text_bytes (joined (item_separator (Some n) (Suc m)) ys)"
    using seps by simp
  also have "\<dots> \<le> text_bytes (bracketed (Some n) m opening closing ys)"
    by (simp add: bracketed_def)
  finally show ?thesis .
qed

text \<open>Compact text is at most as long as indented ASCII text.\<close>

lemma compact_size:
  assumes "0 < n"
  shows "text_bytes (dumps_at False None l v) \<le> text_bytes (dumps_at True (Some n) m v)"
proof (induction v arbitrary: l m)
  case (JList xs)
  then show ?case
    using assms by (auto simp: list_all2_conv_all_nth intro!: bracketed_size)
next
  case (JObj kvs)
  let ?t = "\<lambda>a i j (k, v). quote_str a k @ [58, 32] @ dumps_at a i j v"
  have "text_bytes (?t False None (Suc l) kv) \<le> text_bytes (?t True (Some n) (Suc m) kv)"
    if "kv \<in> set kvs" for kv
  proof (cases kv)
    case (Pair k v)
    then show ?thesis
      using quote_size [of k] JObj.IH [of kv v "Suc l" "Suc m"] that Pair by simp
  qed
  then have "list_all2 (\<lambda>x y. text_bytes x \<le> text_bytes y) (map (?t False None (Suc l)) kvs)
      (map (?t True (Some n) (Suc m)) kvs)"
    by (simp add: list_all2_conv_all_nth)
  from bracketed_size [OF this assms] show ?case by simp
qed (simp_all add: quote_size)

end
