(* ===== verification/Prompt_Bounds.thy ===== *)
theory Prompt_Bounds
  imports Prompt Json_Size
begin

text \<open>
  What holds of the rendered prompt: untrusted text cannot contain a framing string and is
  bounded; the memory is bounded by eliding the fewest, oldest records, and always can be;
  and only orders that were listed to the case and belong to its customer reach the prompt.
\<close>

section \<open>Splitting and joining\<close>

lemma split_on_not_Nil [simp]: "split_on old s \<noteq> []"
  by (subst split_on.simps) (auto split: list.splits)

lemma append_split: "a @ b = c @ d \<Longrightarrow> (\<exists>r. a = c @ r \<and> d = r @ b) \<or> (\<exists>r. c = a @ r \<and> b = r @ d)"
  by (fastforce simp: append_eq_append_conv2)

lemma joined_Cons: "ys \<noteq> [] \<Longrightarrow> joined sep (y # ys) = y @ sep @ joined sep ys"
  by (cases ys) simp_all

lemma prefix_joined: "prefix q (joined sep (q # ps))"
  by (cases ps) simp_all

lemma joined_split_on: "joined old (split_on old s) = s"
proof (induction old s rule: split_on.induct)
  case (1 old s)
  consider "s = []" | "s \<noteq> []" "old \<noteq> []" "take (length old) s = old"
    | "s \<noteq> []" "\<not> (old \<noteq> [] \<and> take (length old) s = old)" by blast
  then show ?case
  proof cases
    case 1
    then show ?thesis by (simp add: split_on.simps)
  next
    case 2
    then have "joined old (split_on old s) = old @ drop (length old) s"
      using "1.IH"(1) by (subst split_on.simps) (simp add: joined_Cons)
    with 2 show ?thesis by (metis append_take_drop_id)
  next
    case 3
    obtain p ps where pieces: "split_on old (tl s) = p # ps" by (cases "split_on old (tl s)") auto
    then have "split_on old s = (hd s # p) # ps"
      using 3 by (subst split_on.simps) simp
    moreover have "joined old (p # ps) = tl s" using "1.IH"(2) 3 pieces by metis
    ultimately show ?thesis using 3 by (cases ps) auto
  qed
qed

lemma joined_pieces: "p \<in> set ps \<Longrightarrow> sublist p (joined sep ps)"
proof (induction ps)
  case Nil
  then show ?case by simp
next
  case (Cons q ps)
  show ?case
  proof (cases ps)
    case Nil
    with Cons.prems show ?thesis by simp
  next
    case (Cons r rs)
    have "sublist p q \<or> sublist p (joined sep ps)" using Cons.IH Cons.prems by auto
    then show ?thesis
      unfolding Cons joined.simps by (metis append_assoc sublist_append_leftI sublist_append_rightI sublist_order.order.trans)
  qed
qed

lemma split_on_pieces: "p \<in> set (split_on old s) \<Longrightarrow> sublist p s"
  using joined_pieces [of p "split_on old s" old] by (simp add: joined_split_on)

lemma split_on_clean: "old \<noteq> [] \<Longrightarrow> p \<in> set (split_on old s) \<Longrightarrow> \<not> sublist old p"
proof (induction old s arbitrary: p rule: split_on.induct)
  case (1 old s)
  consider "s = []" | "s \<noteq> []" "take (length old) s = old" | "s \<noteq> []" "take (length old) s \<noteq> old" by blast
  then show ?case
  proof cases
    case 1
    then show ?thesis using "1.prems" by (simp add: split_on.simps)
  next
    case 2
    then have "split_on old s = [] # split_on old (drop (length old) s)"
      using "1.prems"(1) by (subst split_on.simps) simp
    then show ?thesis using "1.IH"(1) 2 "1.prems" by auto
  next
    case 3
    obtain q ps where pieces: "split_on old (tl s) = q # ps" by (cases "split_on old (tl s)") auto
    then have "split_on old s = (hd s # q) # ps"
      using 3 by (subst split_on.simps) simp
    then consider "p = hd s # q" | "p \<in> set ps" using "1.prems"(2) by auto
    then show ?thesis
    proof cases
      case 1
      have "prefix q (tl s)"
        using prefix_joined [of q old ps] joined_split_on [of old "tl s"] pieces by simp
      then have "prefix p s" using 1 3 by (cases s) auto
      moreover have "\<not> prefix old s" using 3 by (auto simp: prefix_def)
      ultimately have "\<not> prefix old p" by (meson prefix_order.trans)
      moreover have "\<not> sublist old q" using "1.IH"(2) 3 pieces "1.prems"(1) by auto
      ultimately show ?thesis using 1 by (simp add: sublist_Cons_right)
    next
      case 2
      then show ?thesis using "1.IH"(2) 3 pieces "1.prems"(1) by auto
    qed
  qed
qed

section \<open>Framing strings cannot be smuggled in\<close>

text \<open>
  \<open>apart v p\<close>: an occurrence of \<open>v\<close> cannot overlap a separator \<open>p\<close>, because \<open>v\<close> does not contain the
  first or last character of \<open>p\<close> where an overlap needs it.
\<close>

definition apart :: "pystr \<Rightarrow> pystr \<Rightarrow> bool" where
  "apart v p \<longleftrightarrow> v \<noteq> [] \<and> p \<noteq> [] \<and> hd p \<notin> set (tl v) \<and> last p \<notin> set (butlast v) \<and> \<not> sublist v p"

lemma apart_sides:
  assumes "apart v p" and "sublist v (x @ p @ y)"
  shows "sublist v x \<or> sublist v y"
proof -
  obtain a b where eq: "x @ p @ y = a @ v @ b" using assms(2) by (auto simp: sublist_def)
  from append_split [OF eq] consider (later) a' where "a = x @ a'" "p @ y = a' @ v @ b"
    | (earlier) x' where "x = a @ x'" "v @ b = x' @ p @ y"
    by blast
  then show ?thesis
  proof cases
    case later
    from append_split [OF later(2)]
    consider (right) r where "a' = p @ r" "y = r @ v @ b" | (inside) p' where "p = a' @ p'" "v @ b = p' @ y"
      by blast
    then show ?thesis
    proof cases
      case right
      then show ?thesis by (auto simp: sublist_def)
    next
      case inside
      from append_split [OF inside(2)] consider (over) r where "v = p' @ r" "y = r @ b" | (within) r where "p' = v @ r"
        by blast
      then show ?thesis
      proof cases
        case over
        then show ?thesis
        proof (cases "p' = []")
          case True
          with over show ?thesis by auto
        next
          case nonempty: False
          show ?thesis
          proof (cases "r = []")
            case True
            with over inside assms(1) show ?thesis by (auto simp: apart_def)
          next
            case False
            then have "last p \<in> set (butlast v)"
              using over inside nonempty by (simp add: butlast_append)
            with assms(1) show ?thesis by (simp add: apart_def)
          qed
        qed
      next
        case within
        with inside assms(1) show ?thesis by (auto simp: apart_def sublist_def)
      qed
    qed
  next
    case earlier
    from append_split [OF earlier(2)] consider (left) r where "x' = v @ r" | (over) r where "v = x' @ r" "p @ y = r @ b"
      by blast
    then show ?thesis
    proof cases
      case left
      with earlier show ?thesis by (auto simp: sublist_def)
    next
      case over
      show ?thesis
      proof (cases "r = []")
        case True
        with over earlier show ?thesis by simp
      next
        case False
        with over assms(1) have "hd r = hd p" by (metis apart_def hd_append2)
        show ?thesis
        proof (cases "x' = []")
          case True
          then have "v @ b = p @ y" using over by simp
          from append_split [OF this] consider (over) t where "v = p @ t" "y = t @ b" | (within) t where "p = v @ t"
            by blast
          then show ?thesis
          proof cases
            case over
            then have "last p \<in> set (butlast v) \<or> v = p"
              using assms(1) by (auto simp: apart_def butlast_append)
            then show ?thesis using assms(1) by (auto simp: apart_def)
          next
            case within
            then show ?thesis using assms(1) by (auto simp: apart_def)
          qed
        next
          case False
          then have "hd p \<in> set (tl v)"
            using over \<open>hd r = hd p\<close> hd_in_set [OF \<open>r \<noteq> []\<close>] by (cases x') auto
          with assms(1) show ?thesis by (simp add: apart_def)
        qed
      qed
    qed
  qed
qed

lemma apart_joined:
  assumes "apart v p" and "\<And>x. x \<in> set xs \<Longrightarrow> \<not> sublist v x" and "xs \<noteq> []"
  shows "\<not> sublist v (joined p xs)"
  using assms(2,3)
proof (induction xs)
  case Nil
  then show ?case by simp
next
  case (Cons x xs)
  then show ?case using apart_sides [OF assms(1)] by (cases xs) auto
qed

lemma replace_all_removes:
  assumes "apart old new"
  shows "\<not> sublist old (replace_all old new s)"
  unfolding replace_all_def
  using assms split_on_clean by (intro apart_joined) (auto simp: apart_def)

lemma replace_all_keeps_out:
  assumes "apart v new" and "\<not> sublist v s"
  shows "\<not> sublist v (replace_all old new s)"
  unfolding replace_all_def
  using assms by (intro apart_joined) (auto dest: split_on_pieces intro: sublist_order.order.trans)

lemma replace_each:
  assumes "\<forall>w\<in>set ws. apart w p" and "\<And>w. w \<in> W \<Longrightarrow> \<not> sublist w s" and "\<And>w. w \<in> W \<Longrightarrow> apart w p"
    and "w \<in> set ws \<union> W"
  shows "\<not> sublist w (foldl (\<lambda>t u. replace_all u p t) s ws)"
  using assms
proof (induction ws arbitrary: s W)
  case Nil
  then show ?case by simp
next
  case (Cons u ws)
  show ?case
    unfolding foldl_Cons
  proof (rule Cons.IH [of "insert u W"])
    show "\<not> sublist w (replace_all u p s)" if "w \<in> insert u W" for w
      using that Cons.prems replace_all_removes replace_all_keeps_out by auto
  qed (use Cons.prems in auto)
qed

lemma sentinels_apart:
  "w \<in> set FRAMING_SENTINELS \<Longrightarrow> apart w NEUTRALIZED_PLACEHOLDER \<and> apart w MEMORY_TRUNCATION_MARKER"
proof -
  have "list_all (\<lambda>w. apart w NEUTRALIZED_PLACEHOLDER \<and> apart w MEMORY_TRUNCATION_MARKER) FRAMING_SENTINELS"
    by (simp add: FRAMING_SENTINELS_def CASE_MEMORY_BEGIN_def CASE_MEMORY_END_def STRUCTURED_STATE_BEGIN_def
        STRUCTURED_STATE_END_def PROVENANCE_CUSTOMER_def PROVENANCE_MODEL_def PROVENANCE_SYSTEM_def
        NEUTRALIZED_PLACEHOLDER_def MEMORY_TRUNCATION_MARKER_def lit_def apart_def sublist_code(2,3))
  then show "w \<in> set FRAMING_SENTINELS \<Longrightarrow> apart w NEUTRALIZED_PLACEHOLDER \<and> apart w MEMORY_TRUNCATION_MARKER"
    by (simp add: list_all_iff)
qed

lemma neutralized_text_clean:
  "w \<in> set FRAMING_SENTINELS \<Longrightarrow> \<not> sublist w (neutralize_framing_sentinels s)"
  unfolding neutralize_framing_sentinels_def
  using replace_each [of FRAMING_SENTINELS NEUTRALIZED_PLACEHOLDER "{}" s w] sentinels_apart by auto

lemma bounded_text_clean:
  assumes "w \<in> set FRAMING_SENTINELS"
  shows "\<not> sublist w (bound_untrusted_text s)"
proof -
  let ?n = "neutralize_framing_sentinels s"
  have "\<not> sublist w (take k ?n)" for k
    using neutralized_text_clean [OF assms] by (meson sublist_order.order.trans sublist_take)
  moreover have "w \<noteq> []" using sentinels_apart [OF assms] by (simp add: apart_def)
  ultimately have "\<not> sublist w (take k ?n @ MEMORY_TRUNCATION_MARKER @ [])" for k
    using sentinels_apart [OF assms] apart_sides [of w MEMORY_TRUNCATION_MARKER "take k ?n" "[]"] by auto
  then show ?thesis
    using neutralized_text_clean [OF assms] by (simp add: bound_untrusted_text_def Let_def)
qed

lemma bounded_text_length: "length (bound_untrusted_text s) \<le> PROMPT_UNTRUSTED_FIELD_MAX_CHARS"
  by (simp add: bound_untrusted_text_def Let_def MEMORY_TRUNCATION_MARKER_def lit_def
      PROMPT_UNTRUSTED_FIELD_MAX_CHARS_def)

text \<open>C16: untrusted text cannot impersonate the prompt's own framing: whatever the customer or the
  model wrote, the text that reaches the prompt contains none of the section delimiters or
  provenance tags, not even assembled from what neutralising or truncating leaves, and has at
  most 2000 characters.\<close>

theorem untrusted_text_cannot_frame:
  "length (bound_untrusted_text s) \<le> PROMPT_UNTRUSTED_FIELD_MAX_CHARS \<and>
   list_all (\<lambda>w. \<not> sublist w (bound_untrusted_text s)) FRAMING_SENTINELS"
  by (simp add: list_all_iff bounded_text_clean bounded_text_length)

section \<open>The memory region\<close>

lemma elide_until_bounded_result:
  assumes "\<And>k. k \<le> length records \<Longrightarrow> list_all scalar (memory_text records k)"
    and "text_bytes (memory_text records m) \<le> PROMPT_MEMORY_SERIALIZED_MAX_BYTES" and "k \<le> m" and "m \<le> length records"
  shows "\<exists>i. k \<le> i \<and> i \<le> m \<and> elide_until_bounded records k = Inr (memory_text records i) \<and>
    text_bytes (memory_text records i) \<le> PROMPT_MEMORY_SERIALIZED_MAX_BYTES \<and>
    (\<forall>j. k \<le> j \<and> j < i \<longrightarrow> PROMPT_MEMORY_SERIALIZED_MAX_BYTES < text_bytes (memory_text records j))"
  using assms(3)
proof (induction "m - k" arbitrary: k)
  case (0 k)
  then have "k \<le> length records" using assms(4) by linarith
  then obtain bs where "utf8_encode (memory_text records k) = Inr bs" "length bs = text_bytes (memory_text records k)"
    using utf8_encode_scalar [OF assms(1)] by blast
  with 0 assms(2) have "elide_until_bounded records k = Inr (memory_text records k)"
    by (subst elide_until_bounded.simps) simp
  with 0 assms(2) show ?case by (intro exI [of _ k]) auto
next
  case (Suc d k)
  then have "k \<le> length records" using assms(4) by linarith
  then obtain bs where bs: "utf8_encode (memory_text records k) = Inr bs" "length bs = text_bytes (memory_text records k)"
    using utf8_encode_scalar [OF assms(1)] by blast
  show ?case
  proof (cases "text_bytes (memory_text records k) \<le> PROMPT_MEMORY_SERIALIZED_MAX_BYTES")
    case True
    with bs have "elide_until_bounded records k = Inr (memory_text records k)"
      by (subst elide_until_bounded.simps) simp
    with True Suc.prems show ?thesis by (intro exI [of _ k]) auto
  next
    case False
    have "k < length records" using Suc.hyps(2) assms(4) by linarith
    with bs False have step: "elide_until_bounded records k = elide_until_bounded records (k + 1)"
      by (subst elide_until_bounded.simps) simp
    have smaller: "d = m - (k + 1)" "k + 1 \<le> m" using Suc.hyps(2) by linarith+
    obtain i where "k + 1 \<le> i" "i \<le> m" "elide_until_bounded records (k + 1) = Inr (memory_text records i)"
      "text_bytes (memory_text records i) \<le> PROMPT_MEMORY_SERIALIZED_MAX_BYTES"
      "\<forall>j. k + 1 \<le> j \<and> j < i \<longrightarrow> PROMPT_MEMORY_SERIALIZED_MAX_BYTES < text_bytes (memory_text records j)"
      using Suc.hyps(1) [OF smaller] by blast
    moreover from this(5) False
    have "\<forall>j. k \<le> j \<and> j < i \<longrightarrow> PROMPT_MEMORY_SERIALIZED_MAX_BYTES < text_bytes (memory_text records j)"
      by (metis Suc_eq_plus1 le_neq_implies_less less_eq_Suc_le not_le)
    ultimately show ?thesis using step by (intro exI [of _ i]) simp
  qed
qed

text \<open>An elision record is small, so the loop always ends with a text that fits.\<close>

definition elision_record :: "nat \<Rightarrow> json" where
  "elision_record n =
     jobj [(''provenance'', JStr PROVENANCE_SYSTEM), (''kind'', JStr (lit ''elided'')), (''count'', JInt (int n))]"

lemma text_bytes_spaces [simp]: "text_bytes (replicate n 32) = n"
  by (induction n) (simp_all add: utf8_size_def)

lemma elision_record_ok:
  assumes "n < 10 ^ 9"
  shows "json_ok (elision_record n)"
    and "text_bytes (dumps False (Some 2) (JList [elision_record n])) \<le> PROMPT_MEMORY_SERIALIZED_MAX_BYTES"
proof -
  have len: "length (nat_str n) \<le> 9"
    using ndigits_le [OF _ assms] by (simp add: nat_str_def ndigits_def)
  then show "json_ok (elision_record n)"
    by (simp add: elision_record_def jobj_def PROVENANCE_SYSTEM_def INT_MAX_STR_DIGITS_def) (simp add: lit_def scalar_def)
  have "text_bytes (nat_str n) = length (nat_str n)"
    by (rule text_bytes_ascii) (auto simp: nat_str_def list_all_iff dest!: nat_digits_less)
  with len show "text_bytes (dumps False (Some 2) (JList [elision_record n])) \<le> PROMPT_MEMORY_SERIALIZED_MAX_BYTES"
    by (simp add: elision_record_def dumps_def jobj_def PROVENANCE_SYSTEM_def PROMPT_MEMORY_SERIALIZED_MAX_BYTES_def
        bracketed_def newline_indent_def item_separator_def quote_str_def escape_char_def lit_def int_str_def utf8_size_def)
qed

lemma memory_text_scalar:
  assumes "list_all json_ok records" and "length records < 10 ^ 9" and "k \<le> length records"
  shows "list_all scalar (memory_text records k)"
proof -
  have "json_ok (elision_record k)" using elision_record_ok(1) [of k] assms(2,3) by simp
  then have "json_ok (JList (memory_records_with_elision records k))"
    using assms by (auto simp: memory_records_with_elision_def list_all_iff elision_record_def dest: in_set_dropD)
  then show ?thesis unfolding memory_text_def by (rule scalar_dumps)
qed

text \<open>C18: the memory region always renders, within its budget, and drops as little as possible:
  the text is that of the records with the \<open>k\<close> oldest replaced by a count of them, it fits the
  byte limit, and keeping one record more would not have fitted.  In particular the error for a
  limit that is too small is never raised.\<close>

theorem memory_is_bounded:
  assumes "list_all json_ok records" and "length records < 10 ^ 9"
  shows "\<exists>k bytes. k \<le> length records \<and> serialize_bounded_memory records = Inr (memory_text records k) \<and>
    utf8_encode (memory_text records k) = Inr bytes \<and> length bytes \<le> PROMPT_MEMORY_SERIALIZED_MAX_BYTES \<and>
    (\<forall>j<k. \<forall>bytes. utf8_encode (memory_text records j) = Inr bytes \<longrightarrow>
       PROMPT_MEMORY_SERIALIZED_MAX_BYTES < length bytes)"
proof -
  have "text_bytes (memory_text records (length records)) \<le> PROMPT_MEMORY_SERIALIZED_MAX_BYTES"
  proof (cases "records = []")
    case True
    then show ?thesis
      by (simp add: memory_text_def memory_records_with_elision_def dumps_def bracketed_def utf8_size_def
          PROMPT_MEMORY_SERIALIZED_MAX_BYTES_def)
  next
    case False
    then show ?thesis
      using elision_record_ok(2) [OF assms(2)]
      by (simp add: memory_text_def memory_records_with_elision_def elision_record_def)
  qed
  from elide_until_bounded_result [OF memory_text_scalar [OF assms] this, of 0]
  obtain k where "k \<le> length records" "elide_until_bounded records 0 = Inr (memory_text records k)"
    "text_bytes (memory_text records k) \<le> PROMPT_MEMORY_SERIALIZED_MAX_BYTES"
    "\<forall>j<k. PROMPT_MEMORY_SERIALIZED_MAX_BYTES < text_bytes (memory_text records j)"
    by auto
  with utf8_encode_scalar [OF memory_text_scalar [OF assms, of k]] show ?thesis
    unfolding serialize_bounded_memory_def by (metis utf8_encode_size)
qed

theorem memory_is_bounded_witness:
  "\<exists>k bytes. k \<le> 1 \<and> serialize_bounded_memory [JStr [97]] = Inr (memory_text [JStr [97]] k) \<and>
    utf8_encode (memory_text [JStr [97]] k) = Inr bytes \<and> length bytes \<le> PROMPT_MEMORY_SERIALIZED_MAX_BYTES"
  using memory_is_bounded [of "[JStr [97]]"] by (auto simp: scalar_def)

section \<open>Disclosure\<close>

lemma scope_filter:
  "scope_order_seeds_for_disclosure (filter (\<lambda>seed. osv_order_id seed \<in> D \<and> osv_customer_id seed = c) seeds) D c =
   scope_order_seeds_for_disclosure seeds D c"
  by (simp add: scope_order_seeds_for_disclosure_def conj_commute)

lemma latest_listing_events:
  assumes "foldE latest_listing ids es = Inr r"
  shows "r = ids \<or> (\<exists>e\<in>set es. ev_event_type e = ET_ORDERS_LISTED \<and> event_payload e = Inr (OrdersListedPayload r))"
  using assms
proof (induction es arbitrary: ids)
  case Nil
  then show ?case by simp
next
  case (Cons e es)
  then obtain ids' where step: "latest_listing ids e = Inr ids'" and rest: "foldE latest_listing ids' es = Inr r"
    by (auto simp: bindE_eq_Inr)
  have "ids' = ids \<or> (ev_event_type e = ET_ORDERS_LISTED \<and> event_payload e = Inr (OrdersListedPayload ids'))"
  proof (cases "ev_event_type e = ET_ORDERS_LISTED")
    case True
    with step obtain p where "validate_payload ET_ORDERS_LISTED (ev_payload e) = Inr p"
      "(case p of OrdersListedPayload order_ids \<Rightarrow> Inr order_ids | _ \<Rightarrow> Inl ValidationError) = Inr ids'"
      by (auto simp: latest_listing_def bindE_eq_Inr)
    with True show ?thesis by (cases p) (simp_all add: event_payload_def)
  next
    case False
    with step show ?thesis by (simp add: latest_listing_def)
  qed
  with Cons.IH [OF rest] show ?case by auto
qed

text \<open>C17: the prompt discloses nothing beyond what was listed to this case.  Every order that
  influences it was named by an \<open>orders_listed\<close> event of the case and belongs to the case's
  customer: two databases that agree on those orders give the same prompt, text and state alike,
  and every order in the structured state is such an order.\<close>

theorem prompt_discloses_listed_orders_only:
  assumes "disclosed_order_ids case_events = Inr D"
  shows "build_prompt cs cust case_events seeds =
      build_prompt cs cust case_events
        (filter (\<lambda>seed. osv_order_id seed \<in> D \<and> osv_customer_id seed = cs_customer_id cs) seeds) \<and>
    (\<forall>id\<in>D. \<exists>e\<in>set case_events. ev_event_type e = ET_ORDERS_LISTED \<and>
       (\<exists>ids. event_payload e = Inr (OrdersListedPayload ids) \<and> id \<in> set ids)) \<and>
    (\<forall>p. build_prompt cs cust case_events seeds = Inr p \<longrightarrow>
       (\<forall>view\<in>set (as_orders (prompt_state p)). \<exists>seed\<in>set seeds. ov_id view = osv_order_id seed \<and>
          osv_order_id seed \<in> D \<and> osv_customer_id seed = cs_customer_id cs))"
proof (intro conjI)
  show "build_prompt cs cust case_events seeds =
      build_prompt cs cust case_events
        (filter (\<lambda>seed. osv_order_id seed \<in> D \<and> osv_customer_id seed = cs_customer_id cs) seeds)"
    using assms
    by (simp add: build_prompt_def render_memory_def scope_filter)
      (simp add: scope_order_seeds_for_disclosure_def)
  show "\<forall>id\<in>D. \<exists>e\<in>set case_events. ev_event_type e = ET_ORDERS_LISTED \<and>
       (\<exists>ids. event_payload e = Inr (OrdersListedPayload ids) \<and> id \<in> set ids)"
    using assms latest_listing_events [of "[]" "sort_key ev_seq case_events"]
    by (fastforce simp: disclosed_order_ids_def bindE_eq_Inr)
  show "\<forall>p. build_prompt cs cust case_events seeds = Inr p \<longrightarrow>
       (\<forall>view\<in>set (as_orders (prompt_state p)). \<exists>seed\<in>set seeds. ov_id view = osv_order_id seed \<and>
          osv_order_id seed \<in> D \<and> osv_customer_id seed = cs_customer_id cs)"
    using assms
    by (auto simp: build_prompt_def Let_def bindE_eq_Inr build_agent_state_def
        scope_order_seeds_for_disclosure_def split: if_splits) blast
qed

text \<open>An order of the customer that was listed, and one of somebody else under a listed number.\<close>

definition sample_listing :: stored_event where
  "sample_listing = sample_event 1 ET_ORDERS_LISTED (OrdersListedPayload [lit ''ORD-1002'']) None"

definition sample_seed :: "pystr \<Rightarrow> pystr \<Rightarrow> order_seed_view" where
  "sample_seed ord cust = \<lparr>osv_order_id = ord, osv_customer_id = cust, osv_item = lit ''Coffee beans 1kg'',
     osv_total = cents 2400, osv_status = OS_DELIVERED\<rparr>"

definition sample_summary :: case_summary where
  "sample_summary = \<lparr>cs_case_id = lit ''case_1'', cs_customer_id = lit ''cust_sophie'', cs_status = CS_OPEN,
     cs_linked_order_id = None, cs_orders_listed = True, cs_step_count = 1, cs_consecutive_denials = 0,
     cs_consecutive_invalid_outputs = 0, cs_last_refund_status = None, cs_reply_sent_after_last_refund = False\<rparr>"

definition sample_customer :: customer_summary where
  "sample_customer = \<lparr>cust_customer_id = lit ''cust_sophie'', cust_email = lit ''s'', cust_verified = True\<rparr>"

theorem prompt_discloses_listed_orders_only_witness:
  "build_prompt sample_summary sample_customer [sample_listing]
     [sample_seed (lit ''ORD-1002'') (lit ''cust_sophie''), sample_seed (lit ''ORD-1002'') (lit ''cust_tom''),
      sample_seed (lit ''ORD-1003'') (lit ''cust_sophie'')] =
   build_prompt sample_summary sample_customer [sample_listing]
     [sample_seed (lit ''ORD-1002'') (lit ''cust_sophie'')]"
proof -
  have "disclosed_order_ids [sample_listing] = Inr {lit ''ORD-1002''}"
    by (simp add: disclosed_order_ids_def latest_listing_def sample_listing_def sample_event_def
        validate_payload_def lit_def only_fields_def strs_field_def bindE_def)
  from prompt_discloses_listed_orders_only [OF this, of sample_summary sample_customer
      "[sample_seed (lit ''ORD-1002'') (lit ''cust_sophie''), sample_seed (lit ''ORD-1002'') (lit ''cust_tom''),
        sample_seed (lit ''ORD-1003'') (lit ''cust_sophie'')]"]
  show ?thesis by (simp add: sample_seed_def sample_summary_def lit_def)
qed

end
