(* ===== verification/Envelope.thy ===== *)
theory Envelope
  imports Prompt_Bounds Gateway
begin

text \<open>
  The two size limits agree: a prompt within the application's envelope always serializes to a
  request the worker accepts.  JSON text has no control characters but line ends, so quoting it
  once more at most doubles it, and the compact state is at most as long as the indented state
  the text already holds.
\<close>

section \<open>Printable text\<close>

definition printable :: "nat \<Rightarrow> bool" where
  "printable c \<longleftrightarrow> c = 10 \<or> 32 \<le> c"

fun no_float :: "json \<Rightarrow> bool" where
  "no_float (JFloat _) \<longleftrightarrow> False"
| "no_float (JList xs) \<longleftrightarrow> list_all no_float xs"
| "no_float (JObj kvs) \<longleftrightarrow> list_all (\<lambda>(_, v). no_float v) kvs"
| "no_float _ \<longleftrightarrow> True"

lemma printable_codes [simp]:
  "printable 10" "printable 32" "printable 34" "printable 44" "printable 58" "printable 91" "printable 92"
  "printable 93" "printable 123" "printable 125" "printable 45"
  by (simp_all add: printable_def)

lemma printable_hex4: "list_all printable (hex4 n)"
proof -
  have "printable (hex_digit d)" if "d < 16" for d using hex_digit_range [OF that] by (simp add: printable_def)
  then show ?thesis by (simp add: hex4_def)
qed

lemma printable_escape: "list_all printable (escape_char a c)"
  using printable_hex4 by (simp add: escape_char_def escape_u_def) (simp add: printable_def)

lemma printable_quote: "list_all printable (quote_str a s)"
  by (induction s) (simp_all add: quote_str_def printable_escape)

lemma printable_int_str: "list_all printable (int_str i)"
  using visible_int_str [of i] by (auto simp: list_all_iff visible_def printable_def)

lemma printable_joined: "list_all P sep \<Longrightarrow> list_all (list_all P) xs \<Longrightarrow> list_all P (joined sep xs)"
  by (induction sep xs rule: joined.induct) simp_all

lemma printable_bracketed:
  "list_all (list_all printable) items \<Longrightarrow> printable opening \<Longrightarrow> printable closing \<Longrightarrow>
   list_all printable (bracketed indent l opening closing items)"
proof -
  assume items: "list_all (list_all printable) items" "printable opening" "printable closing"
  have indentation: "list_all printable (newline_indent indent k)" for k
    by (cases indent) (simp_all add: newline_indent_def list_all_iff)
  then have "list_all printable (item_separator indent k)" for k
    by (cases indent) (simp_all add: item_separator_def)
  with items indentation show ?thesis by (simp add: bracketed_def printable_joined)
qed

lemma printable_dumps_at: "no_float v \<Longrightarrow> list_all printable (dumps_at a indent l v)"
proof (induction v arbitrary: l)
  case (JList xs)
  then have "list_all (list_all printable) (map (dumps_at a indent (Suc l)) xs)" by (simp add: list_all_iff)
  then show ?case by (simp add: printable_bracketed)
next
  case (JObj kvs)
  have "list_all printable (quote_str a k @ [58, 32] @ dumps_at a indent (Suc l) v)" if "(k, v) \<in> set kvs" for k v
    using JObj.prems JObj.IH [OF that, of v] that by (auto simp: list_all_iff printable_quote [unfolded list_all_iff])
  then have "list_all (list_all printable) (map (\<lambda>(k, v). quote_str a k @ [58, 32] @ dumps_at a indent (Suc l) v) kvs)"
    by (auto simp: list_all_iff)
  then show ?case by (simp add: printable_bracketed)
qed (simp_all add: printable_int_str printable_quote, simp_all add: lit_def printable_def)

section \<open>The text of a prompt is printable\<close>

lemma details_no_float:
  "no_float (jobj kvs) \<longleftrightarrow> list_all (\<lambda>(_, v). no_float v) kvs"
  "list_all (\<lambda>(_, v). no_float v) (order_detail_record i orders)"
  "list_all no_float (map (\<lambda>i. jobj (order_detail_record i orders)) is)"
  by (simp_all add: jobj_def order_detail_record_def list_all_iff split_def split: option.split)

lemma no_float_renderer:
  "bindE v k = Inr rs \<Longrightarrow> (\<And>p. \<forall>rs. k p = Inr rs \<longrightarrow> list_all no_float rs) \<Longrightarrow> list_all no_float rs"
  by (auto simp: bindE_eq_Inr)

lemma renderers_no_float:
  "render_email_received e orders = Inr rs \<Longrightarrow> list_all no_float rs"
  "render_orders_listed e orders = Inr rs \<Longrightarrow> list_all no_float rs"
  "render_order_linked e orders = Inr rs \<Longrightarrow> list_all no_float rs"
  "render_reply_sent e orders = Inr rs \<Longrightarrow> list_all no_float rs"
  "render_action_denied e orders = Inr rs \<Longrightarrow> list_all no_float rs"
  "render_refund_proposed e orders = Inr rs \<Longrightarrow> list_all no_float rs"
  "render_refund_auto_approved e orders = Inr rs \<Longrightarrow> list_all no_float rs"
  "render_refund_approval_required e orders = Inr rs \<Longrightarrow> list_all no_float rs"
  "render_refund_approved e orders = Inr rs \<Longrightarrow> list_all no_float rs"
  "render_refund_rejected e orders = Inr rs \<Longrightarrow> list_all no_float rs"
  "render_refund_expired e orders = Inr rs \<Longrightarrow> list_all no_float rs"
  "render_refund_executed e orders = Inr rs \<Longrightarrow> list_all no_float rs"
  "render_case_closed e orders = Inr rs \<Longrightarrow> list_all no_float rs"
  unfolding render_email_received_def render_orders_listed_def render_order_linked_def
    render_reply_sent_def render_action_denied_def render_refund_proposed_def
    render_refund_auto_approved_def render_refund_approval_required_def render_refund_approved_def
    render_refund_rejected_def render_refund_expired_def render_refund_executed_def
    render_case_closed_def
  by (erule no_float_renderer, simp add: details_no_float split: payload.split option.split)+

lemma rendered_no_float: "render_case_event e orders = Inr rs \<Longrightarrow> list_all no_float rs"
  by (cases "ev_event_type e") (simp_all add: render_case_event_def renderers_no_float)

lemma memory_printable:
  assumes "render_memory evs seeds c = Inr memory"
  shows "list_all printable memory"
proof -
  obtain orders records where fold: "foldE (\<lambda>records e. bindE (render_case_event e orders) (\<lambda>rs. Inr (records @ rs))) []
      (sort_key ev_seq evs) = Inr records" and memory: "serialize_bounded_memory records = Inr memory"
    using assms by (auto simp: render_memory_def bindE_eq_Inr Let_def)
  have "list_all no_float records"
    by (rule foldE_invariant [OF fold, where I = "list_all no_float"]) (auto simp: bindE_eq_Inr dest: rendered_no_float)
  then have "list_all no_float (memory_records_with_elision records k)" for k
    by (auto simp: memory_records_with_elision_def details_no_float list_all_iff dest: in_set_dropD)
  then have rendered: "list_all printable (memory_text records k)" for k
    unfolding memory_text_def dumps_def by (intro printable_dumps_at) simp
  have "\<exists>k. memory = memory_text records k" if "elide_until_bounded records k = Inr memory" for k
    using that
    by (induction records k rule: elide_until_bounded.induct)
      (subst (asm) (2) elide_until_bounded.simps, auto simp: bindE_eq_Inr split: if_splits)
  with memory rendered show ?thesis by (auto simp: serialize_bounded_memory_def)
qed

lemma state_text: "serialize_agent_state st = dumps True (Some 2) (serialize_state st)"
proof -
  have "order_view_record = serialize_order_view"
    by (simp add: fun_eq_iff order_view_record_def serialize_order_view_def)
  then show ?thesis by (simp add: serialize_agent_state_def serialize_state_def)
qed

lemma state_no_float: "no_float (serialize_state st)"
  by (auto simp: serialize_state_def serialize_order_view_def details_no_float jopt_def list_all_iff split: option.split)

lemma prompt_printable:
  assumes "list_all printable memory"
  shows "list_all printable (assemble_prompt_text st memory)"
proof -
  have "list_all printable (serialize_agent_state st)"
    unfolding state_text dumps_def by (rule printable_dumps_at [OF state_no_float])
  moreover have "list_all printable system_instructions" "list_all printable memory_intro"
    by (simp_all add: system_instructions_def memory_intro_def lit_def printable_def)
  ultimately show ?thesis
    using assms unfolding assemble_prompt_text_def
    by (intro printable_joined)
      (simp_all add: STRUCTURED_STATE_BEGIN_def STRUCTURED_STATE_END_def CASE_MEMORY_BEGIN_def CASE_MEMORY_END_def,
        simp_all add: lit_def printable_def)
qed

section \<open>The request\<close>

lemma encoded_scalar: "utf8_encode s = Inr bytes \<Longrightarrow> list_all scalar s"
  by (induction s arbitrary: bytes)
    (auto simp: bindE_eq_Inr utf8_char_def scalar_def split: option.splits if_splits)

lemma request_size:
  assumes "list_all visible (prompt_text p)"
  shows "text_bytes (dumps False None (prompt_document p)) \<le>
    2 * text_bytes (prompt_text p) + text_bytes (serialize_agent_state (prompt_state p)) + 23"
proof -
  have "text_bytes (dumps False None (prompt_document p)) =
      text_bytes (quote_str False (prompt_text p)) + text_bytes (dumps_at False None 1 (serialize_state (prompt_state p))) + 21"
    by (simp add: prompt_document_def jobj_def dumps_def bracketed_def newline_indent_def item_separator_def utf8_size_def)
      (simp add: quote_str_def escape_char_def lit_def utf8_size_def)
  moreover have "text_bytes (dumps_at False None 1 (serialize_state (prompt_state p))) \<le>
      text_bytes (serialize_agent_state (prompt_state p))"
    unfolding state_text dumps_def by (rule compact_size) simp
  ultimately show ?thesis using quote_doubles [OF assms] by simp
qed

lemma joined_part: "x \<in> set xs \<Longrightarrow> text_bytes x \<le> text_bytes (joined sep xs)"
  by (induction sep xs rule: joined.induct) auto

text \<open>C21: the two limits on a prompt agree.  A prompt that the application built and found within
  its envelope serializes to a request the worker's limit admits, whatever its texts hold and
  however much of them JSON has to escape; so the size check of the subprocess transport never
  fires for the loop.\<close>

theorem envelope_fits_worker_request:
  assumes "build_prompt cs cust evs seeds = Inr p" and "prompt_envelope_violation p n = Inr None"
    and "serialize_prompt p = Inr request"
  shows "length request \<le> MODEL_WORKER_MAX_REQUEST_BYTES"
proof -
  obtain memory where memory: "render_memory evs seeds (cs_customer_id cs) = Inr memory"
    and assembled: "prompt_text p = assemble_prompt_text (prompt_state p) memory"
    using assms(1) by (auto simp: build_prompt_def Let_def bindE_eq_Inr)
  obtain bytes where bytes: "utf8_encode (prompt_text p) = Inr bytes" "length bytes \<le> PROMPT_TOTAL_MAX_BYTES"
    using assms(2) by (auto simp: prompt_envelope_violation_def bindE_eq_Inr split: if_splits)
  have size: "text_bytes (prompt_text p) \<le> PROMPT_TOTAL_MAX_BYTES"
    using utf8_encode_size [OF bytes(1)] bytes(2) by simp
  have "list_all visible (prompt_text p)"
    using encoded_scalar [OF bytes(1)] prompt_printable [OF memory_printable [OF memory], of "prompt_state p"]
    by (auto simp: assembled list_all_iff visible_def printable_def)
  moreover have "text_bytes (serialize_agent_state (prompt_state p)) \<le> text_bytes (prompt_text p)"
    unfolding assembled assemble_prompt_text_def by (rule joined_part) simp
  ultimately have "text_bytes (dumps False None (prompt_document p)) \<le> 3 * PROMPT_TOTAL_MAX_BYTES + 23"
    using request_size [of p] size by simp
  then show ?thesis
    using utf8_encode_size [of "dumps False None (prompt_document p)" request] assms(3)
    by (simp add: serialize_prompt_def PROMPT_TOTAL_MAX_BYTES_def MODEL_WORKER_MAX_REQUEST_BYTES_def)
qed

text \<open>The first prompt of a case that holds no event yet.\<close>

definition first_summary :: case_summary where
  "first_summary = sample_summary\<lparr>cs_orders_listed := False\<rparr>"

definition first_state :: agent_state where
  "first_state = build_agent_state first_summary sample_customer [] (available_actions first_summary sample_customer)"

lemma first_prompt:
  "build_prompt first_summary sample_customer [] [] =
     Inr \<lparr>prompt_text = assemble_prompt_text first_state (lit ''[]''), prompt_state = first_state\<rparr>"
proof -
  have "render_memory [] [] c = Inr (lit ''[]'')" for c
    by (simp add: render_memory_def disclosed_order_ids_def serialize_bounded_memory_def elide_until_bounded.simps
        memory_text_def memory_records_with_elision_def dumps_def bracketed_def utf8_char_def lit_def
        PROMPT_MEMORY_SERIALIZED_MAX_BYTES_def)
  then show ?thesis
    by (simp add: build_prompt_def Let_def scope_order_seeds_for_disclosure_def first_state_def)
      (simp add: first_summary_def)
qed

lemma spaces_scalar: "list_all scalar (replicate n 32)"
  by (simp add: list_all_iff scalar_def)

lemma first_text: "list_all scalar (assemble_prompt_text first_state (lit ''[]''))"
  "text_bytes (assemble_prompt_text first_state (lit ''[]'')) \<le> PROMPT_TOTAL_MAX_BYTES"
  by (simp_all add: assemble_prompt_text_def first_state_def first_summary_def sample_summary_def sample_customer_def
      build_agent_state_def available_actions_def serialize_agent_state_def jobj_def jopt_def dumps_def bracketed_def
      newline_indent_def item_separator_def quote_str_def escape_char_def system_instructions_def memory_intro_def
      STRUCTURED_STATE_BEGIN_def STRUCTURED_STATE_END_def CASE_MEMORY_BEGIN_def CASE_MEMORY_END_def lit_def
      spaces_scalar utf8_size_def PROMPT_TOTAL_MAX_BYTES_def)
    (simp_all add: scalar_def)

theorem envelope_fits_worker_request_witness:
  "\<exists>request. serialize_prompt \<lparr>prompt_text = assemble_prompt_text first_state (lit ''[]''), prompt_state = first_state\<rparr> = Inr request \<and>
     length request \<le> MODEL_WORKER_MAX_REQUEST_BYTES"
proof -
  let ?p = "\<lparr>prompt_text = assemble_prompt_text first_state (lit ''[]''), prompt_state = first_state\<rparr>"
  have "prompt_envelope_violation ?p 0 = Inr None"
    using utf8_encode_scalar [OF first_text(1)] first_text(2)
    by (auto simp: prompt_envelope_violation_def AUTHORIZED_ORDER_COUNT_MAX_def)
  moreover have "json_ok (prompt_document ?p)"
    using first_text(1)
    by (simp add: prompt_document_def serialize_state_def jobj_def first_state_def build_agent_state_def jopt_def
        available_actions_def first_summary_def sample_summary_def sample_customer_def)
      (simp add: lit_def scalar_def)
  then obtain request where "serialize_prompt ?p = Inr request"
    unfolding serialize_prompt_def using utf8_encode_scalar [OF scalar_dumps] by blast
  ultimately show ?thesis using envelope_fits_worker_request [OF first_prompt] by blast
qed

end
