(* ===== verification/Evaluation.thy ===== *)
theory Evaluation
  imports System Envelope "HOL-Library.Code_Target_Numeral"
begin

text \<open>
  Code equations for evaluation by the simplifier.  It rewrites arguments first and also under
  binders, so an operation must not unfold before its world is known, and a continuation not
  before its argument is: every operation gets its defining equation at a world.
\<close>

section \<open>Operations\<close>

fun bind_result :: "('a \<Rightarrow> ('s, 'e, 'b) prog) \<Rightarrow> ('e + 'a) \<times> 's \<Rightarrow> ('e + 'b) \<times> 's" where
  "bind_result f (Inl e, s) = (Inl e, s)"
| "bind_result f (Inr x, s) = f x s"

fun try_result :: "('e + 'a) \<times> 's \<Rightarrow> ('e + ('e + 'a)) \<times> 's" where
  "try_result (r, s) = (Inr r, s)"

fun nested_result :: "world \<Rightarrow> (error + 'a) \<times> world \<Rightarrow> (error + 'a) \<times> world" where
  "nested_result w (Inl e, w') = (Inl e, w'\<lparr>w_db := w_db w\<rparr>)"
| "nested_result w (Inr x, w') = (Inr x, w')"

fun begin_result :: "(error + 'a) \<times> world \<Rightarrow> (error + 'a) \<times> world" where
  "begin_result (Inl e, w) = (Inl e, w\<lparr>w_db := w_committed w\<rparr>)"
| "begin_result (Inr x, w) = (Inr x, w\<lparr>w_committed := w_db w\<rparr>)"

fun scope_result :: "(error + 'a) \<times> world \<Rightarrow> (error + 'a) \<times> world" where
  "scope_result (r, w) = (r, w\<lparr>w_db := w_committed w\<rparr>)"

lemma sequencing_at:
  "bindM m f = (\<lambda>s. bind_result f (m s))"
  "thenM m n = (\<lambda>s. bindM m (\<lambda>_. n) s)"
  "tryM m = (\<lambda>s. try_result (m s))"
  by (auto simp: fun_eq_iff bindM_def thenM_def tryM_def split: prod.split sum.split)

lemma sessions_at:
  "begin_nested m = (\<lambda>w. nested_result w (m w))"
  "session_begin m = (\<lambda>w. begin_result (m (w\<lparr>w_db := w_committed w\<rparr>)))"
  "session_scope m = (\<lambda>w. scope_result (m (w\<lparr>w_db := w_committed w\<rparr>)))"
  by (auto simp: fun_eq_iff begin_nested_def session_begin_def session_scope_def
      split: prod.split sum.split)

lemmas sequencing_pointwise [code] = sequencing_at [THEN fun_cong] sessions_at [THEN fun_cong]

lemmas basic_pointwise [code] =
  returnM_def [THEN fun_cong] raiseM_def [THEN fun_cong] getM_def [THEN fun_cong]
  modifyM_def [THEN fun_cong] liftM_def [THEN fun_cong]

lemmas fold_pointwise [code] = foldM.simps [THEN fun_cong]

lemmas operations_pointwise [code] =
  ensureM_def [THEN fun_cong] modify_db_def [THEN fun_cong] insert_customer_def [THEN fun_cong]
  insert_order_def [THEN fun_cong] insert_case_def [THEN fun_cong] insert_event_def [THEN fun_cong]
  insert_refund_def [THEN fun_cong] flush_refund_update_def [THEN fun_cong] commit_session_def [THEN fun_cong]
  clock_now_def [THEN fun_cong] next_identifier_def [THEN fun_cong] ids_case_id_def [THEN fun_cong]
  ids_refund_id_def [THEN fun_cong] ids_event_id_def [THEN fun_cong] ids_ticket_id_def [THEN fun_cong]
  ids_verification_token_def [THEN fun_cong] mailer_send_def [THEN fun_cong]
  ticketing_escalate_def [THEN fun_cong] payment_refund_def [THEN fun_cong]
  find_customer_by_id_def [THEN fun_cong] lock_customer_for_update_def [THEN fun_cong]
  find_customer_by_email_def [THEN fun_cong] list_orders_for_customer_def [THEN fun_cong]
  find_order_by_id_def [THEN fun_cong] load_disclosed_order_rows_def [THEN fun_cong]
  find_case_by_id_def [THEN fun_cong] list_cases_for_customer_ordered_def [THEN fun_cong]
  find_case_for_customer_by_opening_message_id_def [THEN fun_cong]
  find_verification_request_by_token_def [THEN fun_cong] load_case_customer_id_def [THEN fun_cong]
  load_order_customer_id_def [THEN fun_cong] case_scope_customer_def [THEN fun_cong]
  check_order_scope_def [THEN fun_cong] validate_event_relational_scope_def [THEN fun_cong]
  validate_refund_relational_scope_def [THEN fun_cong] ensure_event_sequence_row_def [THEN fun_cong]
  bump_event_sequence_def [THEN fun_cong] allocate_customer_event_seq_def [THEN fun_cong]
  append_canonical_event_def [THEN fun_cong] load_customer_events_def [THEN fun_cong]
  load_case_events_def [THEN fun_cong] transition_refund_status_def [THEN fun_cong]
  find_refund_by_id_def [THEN fun_cong] require_refund_by_id_def [THEN fun_cong]
  find_open_refund_for_order_def [THEN fun_cong] list_active_pending_refunds_def [THEN fun_cong]
  load_canonical_refund_proposed_event_def [THEN fun_cong]
  validate_refund_intent_against_proposed_evidence_def [THEN fun_cong]
  find_open_case_ids_for_customer_def [THEN fun_cong] load_linked_order_summary_def [THEN fun_cong]
  load_rule_context_for_case_def [THEN fun_cong] due_refund_rows_def [THEN fun_cong]
  expire_one_refund_def [THEN fun_cong] expire_due_refunds_for_customer_def [THEN fun_cong]
  append_action_denied_def [THEN fun_cong] append_escalated_and_case_closed_def [THEN fun_cong]
  escalate_case_def [THEN fun_cong] send_unknown_sender_reply_def [THEN fun_cong]
  allow_get_orders_def [THEN fun_cong] allow_link_order_def [THEN fun_cong]
  require_case_customer_def [THEN fun_cong] allow_send_reply_def [THEN fun_cong]
  allow_request_verification_def [THEN fun_cong] allow_finish_def [THEN fun_cong]
  dispatch_require_approval_verdict_def [THEN fun_cong] dispatch_allow_verdict_def [THEN fun_cong]
  append_refund_proposed_def [THEN fun_cong] append_refund_auto_approved_def [THEN fun_cong]
  append_refund_approved_def [THEN fun_cong] append_refund_rejected_def [THEN fun_cong]
  append_refund_approval_required_def [THEN fun_cong] append_refund_executed_def [THEN fun_cong]
  record_refund_executed_after_payment_def [THEN fun_cong]
  commit_refund_intent_before_payment_def [THEN fun_cong]
  execute_payment_after_committed_intent_def [THEN fun_cong] persist_decided_refund_def [THEN fun_cong]
  persist_refund_proposal_def [THEN fun_cong] append_open_refund_race_denial_def [THEN fun_cong]
  execute_propose_refund_def [THEN fun_cong] finalize_propose_refund_verdict_def [THEN fun_cong]
  execute_agent_action_def [THEN fun_cong] customer_id_for_case_def [THEN fun_cong]
  transition_pending_refund_status_def [THEN fun_cong] approve_refund_def [THEN fun_cong]
  reject_refund_def [THEN fun_cong] confirm_verification_def [THEN fun_cong] call_and_parse_def [THEN fun_cong]
  invoke_model_boundary_def [THEN fun_cong] append_invalid_output_def [THEN fun_cong]
  loop_terminates_at_entry_def [THEN fun_cong] load_loop_prompt_context_def [THEN fun_cong]
  handle_outcome_def [THEN fun_cong] call_model_def [THEN fun_cong] loop_turn_def [THEN fun_cong]
  run_agent_loop_def [THEN fun_cong] case_status_now_def [THEN fun_cong]
  case_may_run_agent_loop_def [THEN fun_cong] case_is_open_def [THEN fun_cong]
  queued_case_runs_def [THEN fun_cong] run_queued_case_def [THEN fun_cong]
  drain_agent_loop_queue_def [THEN fun_cong] resume_cases_in_order_def [THEN fun_cong]
  resume_open_case_def [THEN fun_cong] create_case_for_inbound_email_def [THEN fun_cong]
  resolve_inbound_case_def [THEN fun_cong] build_inbound_email_response_def [THEN fun_cong]
  route_inbound_email_def [THEN fun_cong] post_inbound_email_def [THEN fun_cong]
  get_operator_pending_def [THEN fun_cong] answer_operator_decision_def [THEN fun_cong]
  post_operator_approve_def [THEN fun_cong] post_operator_reject_def [THEN fun_cong]
  post_verification_confirm_def [THEN fun_cong] seed_database_def [THEN fun_cong]

lemmas turns_pointwise [code] = loop_turns.simps [THEN fun_cong]

lemmas drain_pointwise [code] = drain_queue.simps [THEN fun_cong]

section \<open>Prompts\<close>

text \<open>
  Evaluation unfolds this function only on a text that is known: under a binder the seven
  nested replacements would multiply an unknown one.
\<close>

lemma bound_untrusted_text_code [code]:
  "bound_untrusted_text [] = []"
  "bound_untrusted_text (c # cs) =
     (let neutralized = neutralize_framing_sentinels (c # cs) in
      if length neutralized \<le> PROMPT_UNTRUSTED_FIELD_MAX_CHARS then neutralized
      else take (PROMPT_UNTRUSTED_FIELD_MAX_CHARS - length MEMORY_TRUNCATION_MARKER) neutralized @
           MEMORY_TRUNCATION_MARKER)"
proof -
  have "replace_all old new [] = []" if "old \<noteq> []" for old new
    using that by (simp add: replace_all_def split_on.simps)
  then have "neutralize_framing_sentinels [] = []"
    by (simp add: neutralize_framing_sentinels_def FRAMING_SENTINELS_def lit_def CASE_MEMORY_BEGIN_def
        CASE_MEMORY_END_def STRUCTURED_STATE_BEGIN_def STRUCTURED_STATE_END_def)
  then show "bound_untrusted_text [] = []" by (simp add: bound_untrusted_text_def)
qed (simp add: bound_untrusted_text_def)

text \<open>
  Whether a prompt has a UTF-8 form is decided without computing that form, and the request is
  left unevaluated for a transport that does not read it.
\<close>

definition request_bytes :: "bool \<Rightarrow> prompt \<Rightarrow> nat list" where
  "request_bytes wanted p = projr (serialize_prompt p)"

lemma request_bytes_code [code]: "request_bytes True p = projr (serialize_prompt p)"
  by (simp add: request_bytes_def)

definition encodable :: "prompt \<Rightarrow> bool" where
  "encodable p \<longleftrightarrow> list_all scalar (prompt_text p) \<and> json_ok (serialize_state (prompt_state p))"

lemma encodable_serialize: "encodable p \<Longrightarrow> serialize_prompt p = Inr (request_bytes b p)"
proof -
  assume "encodable p"
  then have "json_ok (prompt_document p)"
    by (simp add: encodable_def prompt_document_def jobj_def) (simp add: lit_def scalar_def)
  from utf8_encode_scalar [OF scalar_dumps [OF this], of False None] show ?thesis
    by (auto simp: serialize_prompt_def request_bytes_def)
qed

lemma propose_code [code]:
  "propose h p =
     bindM (if encodable p then returnM (request_bytes False p) else liftM (serialize_prompt p)) (\<lambda>request_bytes.
     bindM (getM (\<lambda>w. h_transport h w request_bytes)) (\<lambda>answer.
     bindM (liftM answer) (\<lambda>response_bytes.
       if length response_bytes > MODEL_RESPONSE_MAX_BYTES
       then raiseM (ModelGatewayProtocolError (response_limit_message (length response_bytes)))
       else liftM (utf8_decode response_bytes))))"
  using encodable_serialize [of p False] by (simp add: propose_def liftM_def returnM_def)

fun no_longer_than :: "int \<Rightarrow> 'a list \<Rightarrow> bool" where
  "no_longer_than k [] \<longleftrightarrow> 0 \<le> k"
| "no_longer_than k (x # xs) \<longleftrightarrow> no_longer_than (k - 1) xs"

lemma no_longer_than: "no_longer_than k xs \<longleftrightarrow> int (length xs) \<le> k"
  by (induction k xs rule: no_longer_than.induct) auto

lemma envelope_code [code]:
  "prompt_envelope_violation p n =
     (if n > AUTHORIZED_ORDER_COUNT_MAX then Inr (Some PROMPT_ENVELOPE_ORDER_COUNT_REASON)
      else if list_all scalar (prompt_text p) \<and> no_longer_than 20000 (prompt_text p) then Inr None
      else bindE (utf8_encode (prompt_text p)) (\<lambda>bytes.
        Inr (if length bytes > PROMPT_TOTAL_MAX_BYTES then Some PROMPT_ENVELOPE_BYTES_REASON else None)))"
proof -
  have size: "text_bytes s \<le> 4 * length s" for s by (induction s) (auto simp: utf8_size_def)
  have "bindE (utf8_encode s) (\<lambda>bytes. Inr (if length bytes > PROMPT_TOTAL_MAX_BYTES
      then Some PROMPT_ENVELOPE_BYTES_REASON else None)) = Inr None"
    if "list_all scalar s" "no_longer_than 20000 s" for s
    using utf8_encode_scalar [OF that(1)] that(2) size [of s]
    by (auto simp: no_longer_than PROMPT_TOTAL_MAX_BYTES_def)
  then show ?thesis unfolding prompt_envelope_violation_def by simp
qed

end
