(* ===== verification/Sample_World.thy ===== *)
theory Sample_World
  imports Evaluation
begin

text \<open>
  A concrete reachable state, used as the input of the witnesses: the seeded database after one
  inbound email that opened a case, before the case's loop has run.
\<close>

definition silent_host :: host where
  "silent_host = \<lparr>h_transport = (\<lambda>_ _. Inl (RuntimeError [])), h_to_decimal = (\<lambda>_. None),
     h_describe = (\<lambda>_. ([], [])), h_json_depth = 0\<rparr>"

definition sample_email :: inbound_email_request where
  "sample_email = \<lparr>ie_envelope_from = SOPHIE_EMAIL, ie_message_id = lit ''m1'', ie_subject = lit ''Help'',
     ie_body = lit ''My machine broke''\<rparr>"

definition seeded_world :: world where
  "seeded_world = snd (session_begin (seed_database STANDARD) (fresh_world 0))"

definition contacted_world :: world where
  "contacted_world = snd (post_inbound_email (0, 0) silent_host sample_email seeded_world)"

lemma seeded_ok: "fst (session_begin (seed_database STANDARD) (fresh_world 0)) = Inr ()"
  by code_simp

lemma reachable_seeded: "reachable seeded_world"
proof (rule seeded)
  show "session_begin (seed_database STANDARD) (fresh_world 0) = (Inr (), seeded_world)"
    using seeded_ok unfolding seeded_world_def by (metis prod.collapse)
qed

lemma reachable_contacted: "reachable contacted_world"
proof -
  have "step seeded_world contacted_world"
    unfolding contacted_world_def by (rule inbound) (rule surjective_pairing)
  with reachable_seeded show ?thesis by (rule stepped)
qed

lemma contacted_facts:
  "map ev_event_type (db_events (w_db contacted_world)) = [ET_CUSTOMER_VERIFIED, ET_CASE_OPENED, ET_EMAIL_RECEIVED] \<and>
   find (\<lambda>r. or_id r = ORD_1002_ID) (db_orders (w_db contacted_world)) =
     Some (order_row_of_spec (hd (tl (sophie_orders ORD_1001_ITEM)))) \<and>
   last_seq (w_db contacted_world) SOPHIE_CUSTOMER_ID = 3"
  by code_simp

lemma contacted_order:
  obtains row where "row \<in> set (db_orders (w_db contacted_world))" and "or_id row = ORD_1002_ID"
    and "or_total row = Dec False 2400 (-2)"
proof
  let ?row = "order_row_of_spec (hd (tl (sophie_orders ORD_1001_ITEM)))"
  from contacted_facts have "find (\<lambda>r. or_id r = ORD_1002_ID) (db_orders (w_db contacted_world)) = Some ?row" by blast
  from find_Some_mem [OF this] show "?row \<in> set (db_orders (w_db contacted_world))" "or_id ?row = ORD_1002_ID" by auto
  show "or_total ?row = Dec False 2400 (-2)" by (simp add: order_row_of_spec_def sophie_orders_def)
qed

end
