(* ===== verification/Paid_World.thy ===== *)
theory Paid_World
  imports Sample_World
begin

text \<open>
  A second concrete reachable state, in which money has moved: the model behind the transport
  links an order and proposes the refund of its total, which the policy pays automatically.
\<close>

definition scripted_answer :: "world \<Rightarrow> nat list \<Rightarrow> error + nat list" where
  "scripted_answer w request =
     (case rev (db_events (w_db w)) of
        [] \<Rightarrow> Inl (RuntimeError [])
      | e # _ \<Rightarrow>
          (case ev_event_type e of
             ET_EMAIL_RECEIVED \<Rightarrow>
               Inr (lit (CHR 0x7B # CHR 0x22 # ''action'' @ CHR 0x22 # '':'' @ CHR 0x22 # ''link_order'' @ CHR 0x22 # '','' @ CHR 0x22 # ''order_id'' @
                 CHR 0x22 # '':'' @ CHR 0x22 # ''ORD-1002'' @ [CHR 0x22, CHR 0x7D]))
           | ET_ORDER_LINKED \<Rightarrow>
               Inr (lit (CHR 0x7B # CHR 0x22 # ''action'' @ CHR 0x22 # '':'' @ CHR 0x22 # ''propose_refund'' @ CHR 0x22 # '','' @ CHR 0x22 # ''amount'' @
                 CHR 0x22 # '':'' @ CHR 0x22 # ''24.00'' @ [CHR 0x22, CHR 0x7D]))
           | _ \<Rightarrow> Inl (RuntimeError [])))"

definition scripted_host :: host where
  "scripted_host = silent_host\<lparr>h_transport := scripted_answer, h_to_decimal := (\<lambda>_. Some (Dec False 2400 (-2))), h_json_depth := 10\<rparr>"

definition paid_world :: world where
  "paid_world = snd (post_inbound_email (1, 2) scripted_host sample_email seeded_world)"

text \<open>One evaluation of the state serves all its facts.\<close>

definition world_summary ::
  "world \<Rightarrow> event_type list \<times> refund_call list \<times> (pystr \<times> refund_status) list \<times> order_row option" where
  "world_summary w =
     (map ev_event_type (db_events (w_db w)), w_payment_calls w,
      map (\<lambda>r. (rf_order_id r, rf_status r)) (db_refunds (w_db w)),
      find (\<lambda>r. or_id r = ORD_1002_ID) (db_orders (w_db w)))"

lemma paid_summary:
  "world_summary paid_world =
     ([ET_CUSTOMER_VERIFIED, ET_CASE_OPENED, ET_EMAIL_RECEIVED, ET_ORDER_LINKED, ET_REFUND_PROPOSED,
       ET_REFUND_AUTO_APPROVED, ET_REFUND_EXECUTED],
      [\<lparr>pc_idempotency_key = lit ''rfnd_6'', pc_amount = Dec False 2400 (-2)\<rparr>],
      [(ORD_1002_ID, RS_EXECUTED)],
      Some (order_row_of_spec (hd (tl (sophie_orders ORD_1001_ITEM)))))"
  by code_simp

lemma paid_facts:
  "map ev_event_type (db_events (w_db paid_world)) =
     [ET_CUSTOMER_VERIFIED, ET_CASE_OPENED, ET_EMAIL_RECEIVED, ET_ORDER_LINKED, ET_REFUND_PROPOSED,
      ET_REFUND_AUTO_APPROVED, ET_REFUND_EXECUTED]"
  "w_payment_calls paid_world = [\<lparr>pc_idempotency_key = lit ''rfnd_6'', pc_amount = Dec False 2400 (-2)\<rparr>]"
  "map (\<lambda>r. (rf_order_id r, rf_status r)) (db_refunds (w_db paid_world)) = [(ORD_1002_ID, RS_EXECUTED)]"
  "find (\<lambda>r. or_id r = ORD_1002_ID) (db_orders (w_db paid_world)) =
     Some (order_row_of_spec (hd (tl (sophie_orders ORD_1001_ITEM))))"
  using paid_summary by (simp_all add: world_summary_def)

lemma paid_order:
  obtains row where "row \<in> set (db_orders (w_db paid_world))" and "or_id row = ORD_1002_ID"
    and "or_total row = Dec False 2400 (-2)"
proof
  let ?row = "order_row_of_spec (hd (tl (sophie_orders ORD_1001_ITEM)))"
  from find_Some_mem [OF paid_facts(4)] show "?row \<in> set (db_orders (w_db paid_world))" "or_id ?row = ORD_1002_ID" by auto
  show "or_total ?row = Dec False 2400 (-2)" by (simp add: order_row_of_spec_def sophie_orders_def)
qed

lemma reachable_paid: "reachable paid_world"
proof -
  have "step seeded_world paid_world"
    unfolding paid_world_def by (rule inbound) (rule surjective_pairing)
  with reachable_seeded show ?thesis by (rule stepped)
qed

end
