(* ===== verification/Outcomes.thy ===== *)
theory Outcomes
  imports Expiry Paid_World
begin

text \<open>
  What an operation answers and stores, on every branch: an escalation always closes the case, a
  failure of the model is an escalation and nothing else, an operator cannot decide a refund
  twice, and every catalogued event can be stored.
\<close>

section \<open>Storing an event\<close>

definition moves_money :: "event_type \<Rightarrow> bool" where
  "moves_money et \<longleftrightarrow> et \<in> {ET_REFUND_PROPOSED, ET_REFUND_EXECUTED, ET_REFUND_REJECTED, ET_REFUND_EXPIRED}"

text \<open>The state after an event has been stored; everything but the log and the counters is kept.\<close>

definition logged :: "world \<Rightarrow> stored_event list \<Rightarrow> world \<Rightarrow> bool" where
  "logged w es w' \<longleftrightarrow> (\<exists>seqs n tickets. w' = w\<lparr>w_counter := n, w_escalations := tickets,
     w_db := (w_db w)\<lparr>db_events := db_events (w_db w) @ es, db_event_sequences := seqs\<rparr>\<rparr>)"

lemma logged_trans: "logged w es v \<Longrightarrow> logged v fs w' \<Longrightarrow> logged w (es @ fs) w'"
  unfolding logged_def by (elim exE) (simp, (rule exI)+, rule refl)

lemma loggedI:
  "w' = w\<lparr>w_counter := n,
     w_db := (w_db w)\<lparr>db_events := db_events (w_db w) @ es, db_event_sequences := seqs\<rparr>\<rparr> \<Longrightarrow> logged w es w'"
  unfolding logged_def by (rule exI [of _ seqs], rule exI [of _ n], rule exI [of _ "w_escalations w"]) (cases w; simp)

lemma logged_frame:
  assumes "logged w es w'"
  shows "db_events (w_db w') = db_events (w_db w) @ es" and "db_customers (w_db w') = db_customers (w_db w)"
    and "db_orders (w_db w') = db_orders (w_db w)" and "db_cases (w_db w') = db_cases (w_db w)"
    and "db_refunds (w_db w') = db_refunds (w_db w)" and "w_payment_calls w' = w_payment_calls w"
    and "w_outbox w' = w_outbox w" and "w_committed w' = w_committed w"
  using assms by (auto simp: logged_def)

lemma append_logs:
  assumes good: "world_good w" and fresh: "identifiers_fresh k w" and customer: "customer_exists (w_db w) u"
    and cs: "case c of None \<Rightarrow> True | Some i \<Rightarrow> case_of_customer (w_db w) i u"
    and scope: "catalogue_scope_ok et c None" and actor: "(a, ch) = catalogue_actor p"
    and model: "payload_class p = payload_model_for_event_type et" and finite: "payload_finite p"
    and quiet: "\<not> moves_money et"
  obtains e w' where "append_canonical_event (EvMember et) u c None a ch (model_dump p) w = (Inr e, w')"
    and "logged w [e] w'" and "world_good w'" and "identifiers_fresh k w'"
    and "ev_event_type e = et" and "ev_case_id e = c" and "event_payload e = Inr p" and "ev_customer_id e = u"
proof -
  have ok: "db_ok (w_db w)" using good by (simp add: world_good_def good_def)
  obtain e w' where run: "append_canonical_event (EvMember et) u c None a ch (model_dump p) w = (Inr e, w')"
    using append_succeeds [OF ok fresh customer cs _ scope actor model finite] by fastforce
  have no_amount: "\<And>r amt ref. p = RefundExecutedPayload r amt ref \<Longrightarrow> is_money amt"
    using model quiet by (cases et) (auto simp: moves_money_def)
  have appended: "event_appended (w_db w) e (w_db w')" "w' = w\<lparr>w_counter := w_counter w + 1, w_db := w_db w'\<rparr>"
    "ev_event_type e = et" "ev_case_id e = c" "event_payload e = Inr p" "ev_customer_id e = u"
    using append_run [OF run model _ world_goodD(1) [OF good]] no_amount by blast+
  obtain seqs where "w_db w' = (w_db w)\<lparr>db_events := db_events (w_db w) @ [e], db_event_sequences := seqs\<rparr>"
    using appended(1) by (auto simp: event_appended_def)
  with appended(2) have "w' = w\<lparr>w_counter := w_counter w + 1,
      w_db := (w_db w)\<lparr>db_events := db_events (w_db w) @ [e], db_event_sequences := seqs\<rparr>\<rparr>" by simp
  then have "logged w [e] w'" by (rule loggedI)
  moreover have "world_good w'"
    using hoareD(1) [OF safe_append [OF model] good run] quiet by (simp add: moves_money_def)
  moreover have "identifiers_fresh k w'"
    using preservesD [OF identifiers.keeps_append fresh run] .
  ultimately show thesis using run appended(3-6) that by blast
qed

section \<open>Escalation\<close>

lemma ticketing_logs:
  obtains tkt w' where "ticketing_escalate why w = (Inr tkt, w')" and "logged w [] w'" and "w_db w' = w_db w"
    and "w_committed w' = w_committed w" and "w_payment_calls w' = w_payment_calls w"
proof -
  let ?w = "w\<lparr>w_counter := Suc (w_counter w), w_escalations :=
    w_escalations w @ [\<lparr>er_reason = why, er_ticket_id = lit ''tkt_'' @ nat_str (w_counter w)\<rparr>]\<rparr>"
  have "logged w [] ?w"
    unfolding logged_def
    by (rule exI [of _ "db_event_sequences (w_db w)"], rule exI [of _ "w_counter ?w"], rule exI [of _ "w_escalations ?w"])
      (cases w; cases "w_db w"; simp)
  then show thesis
    by (rule that [rotated])
      (simp_all add: ticketing_escalate_def ids_ticket_id_def next_identifier_def bindM_def thenM_def)
qed

lemma escalation_closes:
  assumes good: "world_good w" and fresh: "identifiers_fresh k w"
    and row: "row \<in> set (db_cases (w_db w))" and id: "ca_id row = c"
    and reason: "escalation_reason c origin reason auth fe = Inr why"
  obtains e f tkt w' where "escalate_case c origin reason auth fe w = (Inr f, w')" and "logged w [e, f] w'"
    and "ev_case_id e = Some c" and "event_payload e = Inr (EscalatedPayload why origin tkt)"
    and "ev_case_id f = Some c"
    and "event_payload f = Inr (CaseClosedPayload (case_outcome_for_escalation_origin origin) None)"
proof -
  have keys: "distinct (map ca_id (db_cases (w_db w)))"
    using good by (simp add: world_good_def good_def db_ok_def keys_ok_def)
  have found: "find_case_by_id c w = (Inr (Some row), w)"
    using find_key_unique [OF _ row, of ca_id] keys id by (simp add: find_case_by_id_def)
  obtain tkt w1 where ticket: "ticketing_escalate why w = (Inr tkt, w1)" and w1: "logged w [] w1"
    and db: "w_db w1 = w_db w" "w_committed w1 = w_committed w" "w_payment_calls w1 = w_payment_calls w"
    by (rule ticketing_logs)
  have good1: "world_good w1" using good db by (simp add: world_good_def)
  have fresh1: "identifiers_fresh k w1" using preservesD [OF identifiers.keeps_basic(3) fresh ticket] .
  let ?u = "ca_customer_id row"
  have scope1: "customer_exists (w_db w1) ?u" "case Some c of None \<Rightarrow> True | Some i \<Rightarrow> case_of_customer (w_db w1) i ?u"
    using good row id db by (auto simp: world_good_def good_def db_ok_def references_ok_def case_of_customer_def)
  let ?p = "EscalatedPayload why origin tkt" and ?q = "CaseClosedPayload (case_outcome_for_escalation_origin origin) None"
  obtain e w2 where first: "append_canonical_event (EvMember ET_ESCALATED) ?u (Some c) None
      (escalated_actor_for_origin origin) Channel_INTERNAL (model_dump ?p) w1 = (Inr e, w2)"
    and w2: "logged w1 [e] w2" "world_good w2" "identifiers_fresh k w2" "ev_case_id e = Some c" "event_payload e = Inr ?p"
    by (rule append_logs [OF good1 fresh1 scope1, where et = ET_ESCALATED and p = ?p])
      (auto simp: catalogue_scope_ok_def escalated_actor_for_origin_def moves_money_def split: if_splits)
  have scope2: "customer_exists (w_db w2) ?u" "case Some c of None \<Rightarrow> True | Some i \<Rightarrow> case_of_customer (w_db w2) i ?u"
    using scope1 logged_frame [OF w2(1)] by (simp_all add: case_of_customer_def customer_exists_def)
  obtain f w3 where second: "append_canonical_event (EvMember ET_CASE_CLOSED) ?u (Some c) None
      Actor_SYSTEM Channel_INTERNAL (model_dump ?q) w2 = (Inr f, w3)"
    and w3: "logged w2 [f] w3" "ev_case_id f = Some c" "event_payload f = Inr ?q"
    by (rule append_logs [OF w2(2,3) scope2, where et = ET_CASE_CLOSED and p = ?q])
      (auto simp: catalogue_scope_ok_def moves_money_def)
  have "escalate_case c origin reason auth fe w = (Inr f, w3)"
    using found reason ticket first second
    by (simp add: escalate_case_def append_escalated_and_case_closed_def bindM_def thenM_def del: model_dump.simps)
  moreover have "logged w [e, f] w3"
    using logged_trans [OF logged_trans [OF w1 w2(1)] w3(1)] by simp
  ultimately show thesis using w2(4,5) w3(2,3) that by blast
qed

lemma model_failure_escalates: "escalation_reason c EO_MODEL_FAILURE (Some why) None None = Inr why"
  by (simp add: escalation_reason_def)

text \<open>C28: every event the catalogue allows can be stored.  In every reachable state an event of a
  type with its payload, for a customer, a case and an order that exist and belong together, is
  appended: no drawn identifier and no sequence number collides with a stored one, and what is
  stored reads back as the payload that was given.\<close>

theorem catalogued_events_are_stored:
  assumes "reachable w" and "customer_exists (w_db w) u"
    and "case cs of None \<Rightarrow> True | Some c \<Rightarrow> case_of_customer (w_db w) c u"
    and "case ord of None \<Rightarrow> True | Some c \<Rightarrow> order_of_customer (w_db w) c u"
    and "catalogue_scope_ok et cs ord" and "payload_class p = payload_model_for_event_type et" and "payload_finite p"
  shows "\<exists>e w'. append_canonical_event (EvMember et) u cs ord (fst (catalogue_actor p)) (snd (catalogue_actor p))
      (model_dump p) w = (Inr e, w') \<and>
    db_events (w_db w') = db_events (w_db w) @ [e] \<and> ev_seq e = last_seq (w_db w) u + 1 \<and>
    event_payload e = Inr p \<and> ev_customer_id e = u \<and> ev_case_id e = cs \<and> ev_order_id e = ord"
proof -
  obtain e w' where run: "append_canonical_event (EvMember et) u cs ord (fst (catalogue_actor p))
      (snd (catalogue_actor p)) (model_dump p) w = (Inr e, w')"
    using append_succeeds [OF _ reachable_identifiers [OF assms(1)] assms(2-5) prod.collapse assms(6,7)]
      reachable_db_ok [OF assms(1)] by blast
  from run assms(6) show ?thesis by (rule append_steps) (auto intro!: exI [of _ e] exI [of _ w'] simp: run)
qed

lemma contacted_case:
  "map (\<lambda>r. (ca_customer_id r, ca_opening_message_id r)) (db_cases (w_db contacted_world)) =
     [(SOPHIE_CUSTOMER_ID, lit ''m1'')]"
  by code_simp

theorem catalogued_events_are_stored_witness:
  "\<exists>e. fst (append_canonical_event (EvMember ET_CUSTOMER_VERIFIED) SOPHIE_CUSTOMER_ID None None Actor_SYSTEM
     Channel_VERIFICATION_API (model_dump (CustomerVerifiedPayload VM_TOKEN)) contacted_world) = Inr e \<and> ev_seq e = 4"
proof -
  have "customer_exists (w_db contacted_world) SOPHIE_CUSTOMER_ID"
  proof -
    obtain row where "row \<in> set (db_cases (w_db contacted_world))" "ca_customer_id row = SOPHIE_CUSTOMER_ID"
      using contacted_case by auto
    with reachable_db_ok [OF reachable_contacted] show ?thesis by (auto simp: db_ok_def references_ok_def)
  qed
  from catalogued_events_are_stored [OF reachable_contacted this,
      of None None ET_CUSTOMER_VERIFIED "CustomerVerifiedPayload VM_TOKEN"] contacted_facts
  show ?thesis by (auto simp: catalogue_scope_ok_def simp del: model_dump.simps)
qed

text \<open>C13: when the model fails, the case is closed and nothing else happens.  Whatever exception
  the transport, the byte limit, the UTF-8 decoding or the parser raises, the boundary itself does
  not raise: it appends to the log exactly an \<open>escalated\<close> event that names the type of the
  exception and a \<open>case_closed\<close> event, both of the case, and changes no refund, no payment, no
  message and nothing that was committed.\<close>

theorem model_failures_close_the_case:
  assumes "world_good w" and "identifiers_fresh k w" and "row \<in> set (db_cases (w_db w))"
    and "fst (call_and_parse h prompt w) = Inl failure"
  shows "\<exists>w' e f ticket. invoke_model_boundary h (ca_id row) prompt w = (Inr None, w') \<and>
    db_events (w_db w') = db_events (w_db w) @ [e, f] \<and>
    ev_case_id e = Some (ca_id row) \<and>
    event_payload e = Inr (EscalatedPayload (model_failure_reason failure) EO_MODEL_FAILURE ticket) \<and>
    ev_case_id f = Some (ca_id row) \<and> event_payload f = Inr (CaseClosedPayload CO_MODEL_FAILURE None) \<and>
    db_refunds (w_db w') = db_refunds (w_db w) \<and> w_payment_calls w' = w_payment_calls w \<and>
    w_outbox w' = w_outbox w \<and> w_committed w' = w_committed w"
proof (rule invoke_cases [of h "ca_id row" prompt w])
  fix result assume "call_and_parse h prompt w = (Inr result, w)"
  with assms(4) show ?thesis by simp
next
  fix raised assume "call_and_parse h prompt w = (Inl raised, w)"
    and run: "invoke_model_boundary h (ca_id row) prompt w =
      thenM (escalate_case (ca_id row) EO_MODEL_FAILURE (Some (model_failure_reason raised)) None None) (returnM None) w"
  with assms(4) have raised: "raised = failure" by simp
  obtain e f ticket w' where "escalate_case (ca_id row) EO_MODEL_FAILURE (Some (model_failure_reason raised)) None None w = (Inr f, w')"
    and "logged w [e, f] w'" and "ev_case_id e = Some (ca_id row)" and "ev_case_id f = Some (ca_id row)"
    and "event_payload e = Inr (EscalatedPayload (model_failure_reason raised) EO_MODEL_FAILURE ticket)"
    and "event_payload f = Inr (CaseClosedPayload (case_outcome_for_escalation_origin EO_MODEL_FAILURE) None)"
    by (rule escalation_closes [OF assms(1-3) refl model_failure_escalates]) simp
  with run raised show ?thesis by (auto simp: thenM_def bindM_def logged_frame)
qed

theorem model_failures_close_the_case_witness:
  "\<exists>c w' e f. invoke_model_boundary silent_host c \<lparr>prompt_text = [],
      prompt_state = \<lparr>as_verified = False, as_orders = [], as_orders_listed = False, as_linked_order_id = None,
        as_last_refund_status = None, as_reply_sent_after_last_refund = False, as_menu = []\<rparr>\<rparr> contacted_world =
      (Inr None, w') \<and> db_events (w_db w') = db_events (w_db contacted_world) @ [e, f] \<and> ev_case_id f = Some c"
proof -
  let ?p = "\<lparr>prompt_text = [], prompt_state = \<lparr>as_verified = False, as_orders = [], as_orders_listed = False,
    as_linked_order_id = None, as_last_refund_status = None, as_reply_sent_after_last_refund = False, as_menu = []\<rparr>\<rparr>"
  have "db_cases (w_db contacted_world) \<noteq> []" using contacted_case by auto
  then obtain row where row: "row \<in> set (db_cases (w_db contacted_world))" by (meson list.set_sel(1))
  have "isl (serialize_prompt ?p) = False" by code_simp
  then obtain bytes where "serialize_prompt ?p = Inr bytes" by (metis isl_def sum.exhaust)
  then have "fst (call_and_parse silent_host ?p contacted_world) = Inl (RuntimeError [])"
    by (auto simp: call_and_parse_def propose_def silent_host_def bindM_def)
  from model_failures_close_the_case [OF reachable_good [OF reachable_contacted]
      reachable_identifiers [OF reachable_contacted] row this]
  show ?thesis by blast
qed

section \<open>Decisions are final\<close>

definition settled_as :: "pystr \<Rightarrow> refund_status \<Rightarrow> world \<Rightarrow> bool" where
  "settled_as rid s w \<longleftrightarrow> rid \<in> rf_id ` set (db_refunds (w_db w)) \<and> (\<forall>r\<in>set (db_refunds (w_db w)). rf_id r = rid \<longrightarrow> rf_status r = s)"

lemma settled_modify: "(\<And>d. db_refunds (f d) = db_refunds d) \<Longrightarrow> preserves (settled_as rid s) (modify_db f)"
  unfolding modify_db_def by (rule preserves_modifyM) (simp add: settled_as_def)

lemma settled_append: "preserves (settled_as rid s) (append_canonical_event et u cs ord a ch p)"
  unfolding append_canonical_event_def lock_customer_for_update_def find_customer_by_id_def
    validate_event_relational_scope_def case_scope_customer_def check_order_scope_def load_case_customer_id_def
    load_order_customer_id_def allocate_customer_event_seq_def bump_event_sequence_def ensure_event_sequence_row_def
    clock_now_def ids_event_id_def next_identifier_def insert_event_def Let_def
  by (intro preserves_rules settled_modify preserves_modifyM) (simp_all add: settled_as_def)

lemma settled_transition:
  "s \<noteq> from_status \<Longrightarrow> preserves (settled_as rid s) (transition_refund_status rid' from_status to_status b clr)"
  unfolding transition_refund_status_def modify_db_def
  by (intro preserves_rules preserves_modifyM) (auto simp: settled_as_def transition_matches_def set_refund_status_def image_iff)

lemma settled_expire:
  assumes "s \<noteq> RS_PENDING_APPROVAL"
  shows "preserves (settled_as rid s) (expire_due_refunds_for_customer u)"
  unfolding expire_due_refunds_for_customer_def expire_one_refund_def lock_customer_for_update_def
    find_customer_by_id_def clock_now_def due_refund_rows_def load_customer_events_def
  by (intro preserves_rules settled_append settled_transition assms)

abbreviation settled_still :: "pystr \<Rightarrow> refund_status \<Rightarrow> db \<Rightarrow> refund_call list \<Rightarrow> world \<Rightarrow> bool" where
  "settled_still rid s c k w \<equiv> settled_as rid s w \<and> unmoved c k w"

lemma returning_still:
  assumes "preserves (settled_as rid s) m" and "preserves (unmoved c k) m" and "returning (sound_world u) m"
  shows "returning (\<lambda>w. settled_still rid s c k w \<and> sound_world u w) m"
  unfolding hoare_def
proof (intro allI impI)
  fix w assume inv: "settled_still rid s c k w \<and> sound_world u w"
  obtain x w' where run: "m w = (x, w')" by fastforce
  have "settled_still rid s c k w'"
    using preservesD [OF preserves_conj [OF assms(1,2)] _ run] inv by simp
  with inv run assms(3) show "case m w of (Inr x, w') \<Rightarrow> settled_still rid s c k w' \<and> sound_world u w' | (Inl e, w') \<Rightarrow> False"
    by (cases x) (auto dest: hoareD)
qed

text \<open>Both decisions begin alike, and with a refund that is not pending they end there.\<close>

lemma hoare_decision:
  assumes "s \<noteq> RS_PENDING_APPROVAL"
  shows "hoare (\<lambda>w. settled_still rid s c k w \<and> sound_world u w)
    (bindM (lock_customer_for_update u) (\<lambda>_.
     bindM (expire_due_refunds_for_customer u) (\<lambda>reopened.
     bindM (require_refund_by_id rid) (\<lambda>row.
       if rf_status row \<noteq> RS_PENDING_APPROVAL
       then returnM (operator_conflict cs rid (rf_status row) reopened)
       else rest reopened row))))
    (\<lambda>outcome w. settled_still rid s c k w \<and> oo_kind outcome = OR_CONFLICT \<and>
       oo_case_id outcome = cs \<and> oo_refund_id outcome = rid \<and> oo_refund_status outcome = s)
    (\<lambda>_. False)"
proof -
  let ?I = "\<lambda>w. settled_still rid s c k w \<and> sound_world u w"
  have row: "hoare ?I (require_refund_by_id rid) (\<lambda>row w. ?I w \<and> rf_status row = s) (\<lambda>_. False)"
    unfolding require_refund_by_id_def find_refund_by_id_def
    by (rule hoareI)
      (auto simp: prog_inversion settled_as_def find_None_iff dest!: find_Some_mem split: option.splits)
  have lock: "preserves I (lock_customer_for_update u)" for I
    unfolding lock_customer_for_update_def find_customer_by_id_def by (intro preserves_rules)
  have expire: "preserves (unmoved c k) (expire_due_refunds_for_customer u)"
    unfolding expire_due_refunds_for_customer_def due_refund_rows_def load_customer_events_def
    by (intro preserves_rules quiet_rules)
  show ?thesis
    by (rule hoare_bindM [OF returning_still [OF lock lock returning_lock]],
        rule hoare_bindM [OF returning_still [OF settled_expire [OF assms] expire returning_expire]],
        rule hoare_bindM [OF row]) (use assms in \<open>auto simp: hoare_def operator_conflict_def\<close>)
qed

lemma bindM_known: "m w = (Inr x, w') \<Longrightarrow> bindM m f w = f x w'"
  by (simp add: bindM_def)

lemma decision_lookups:
  assumes good: "world_good w" and r: "r \<in> set (db_refunds (w_db w))"
  shows "require_refund_by_id (rf_id r) w = (Inr r, w)"
    and "customer_id_for_case (rf_case_id r) w = (Inr (rf_customer_id r), w)"
    and "customer_exists (w_db w) (rf_customer_id r)"
proof -
  have ok: "keys_ok (w_db w)" "references_ok (w_db w)"
    using good by (simp_all add: world_good_def good_def db_ok_def)
  from ok(1) have "find (\<lambda>x. rf_id x = rf_id r) (db_refunds (w_db w)) = Some r"
    by (intro find_key_unique [OF _ r]) (simp add: keys_ok_def)
  then show "require_refund_by_id (rf_id r) w = (Inr r, w)"
    by (simp add: require_refund_by_id_def find_refund_by_id_def bindM_def)
  have owner: "case_of_customer (w_db w) (rf_case_id r) (rf_customer_id r)"
    using ok(2) r by (auto simp: references_ok_def refund_ok_def)
  then show "customer_exists (w_db w) (rf_customer_id r)"
    using ok(2) by (auto simp: references_ok_def case_of_customer_def)
  show "customer_id_for_case (rf_case_id r) w = (Inr (rf_customer_id r), w)"
    using case_owner_found [OF ok(1) owner]
    by (auto simp: customer_id_for_case_def find_case_by_id_def bindM_def)
qed

lemma decision_start:
  assumes "world_good w" and "r \<in> set (db_refunds (w_db w))"
    and m: "m \<in> {approve_refund (rf_id r) operator, reject_refund (rf_id r) operator why}"
  obtains rest where "m w = (bindM (lock_customer_for_update (rf_customer_id r)) (\<lambda>_.
     bindM (expire_due_refunds_for_customer (rf_customer_id r)) (\<lambda>reopened.
     bindM (require_refund_by_id (rf_id r)) (\<lambda>row.
       if rf_status row \<noteq> RS_PENDING_APPROVAL
       then returnM (operator_conflict (rf_case_id r) (rf_id r) (rf_status row) reopened)
       else rest reopened row)))) w"
proof -
  note lookups = decision_lookups [OF assms(1,2)]
  note known = bindM_known [where m = "require_refund_by_id (rf_id r)", OF lookups(1)]
    bindM_known [where m = "customer_id_for_case (rf_case_id r)", OF lookups(2)]
  consider "m = approve_refund (rf_id r) operator" | "m = reject_refund (rf_id r) operator why" using m by blast
  then show thesis
  proof cases
    case 1
    show thesis by (rule that, unfold 1 approve_refund_def Let_def known, rule refl)
  next
    case 2
    show thesis by (rule that, unfold 2 reject_refund_def Let_def known, rule refl)
  qed
qed

text \<open>C14: a refund that has been decided cannot be decided again.  When a refund is approved,
  executed, rejected or expired, approving or rejecting it does not raise: it answers with a
  conflict that names the case, the refund and that status; no payment is made, the refund keeps
  its status and nothing is committed on the way.\<close>

theorem settled_refunds_are_not_decided_again:
  assumes "reachable w" and "r \<in> set (db_refunds (w_db w))" and "rf_status r \<noteq> RS_PENDING_APPROVAL"
    and "(outcome, w') \<in> {approve_refund (rf_id r) operator w, reject_refund (rf_id r) operator why w}"
  shows "(\<exists>decision. outcome = Inr decision \<and> oo_kind decision = OR_CONFLICT \<and>
      oo_case_id decision = rf_case_id r \<and> oo_refund_id decision = rf_id r \<and> oo_refund_status decision = rf_status r) \<and>
    w_payment_calls w' = w_payment_calls w \<and> w_committed w' = w_committed w \<and>
    (\<exists>r'\<in>set (db_refunds (w_db w')). rf_id r' = rf_id r \<and> rf_status r' = rf_status r)"
proof -
  let ?u = "rf_customer_id r"
  let ?S = "settled_still (rf_id r) (rf_status r) (w_committed w) (w_payment_calls w)"
  have good: "world_good w" by (rule reachable_good [OF assms(1)])
  note lookups = decision_lookups [OF good assms(2)]
  have "r' = r" if "r' \<in> set (db_refunds (w_db w))" "rf_id r' = rf_id r" for r'
    using refund_row_unique [OF good that(1) assms(2)] that(2) .
  with assms(2) lookups(3) good reachable_identifiers [OF assms(1)] have start: "?S w \<and> sound_world ?u w"
    by (auto simp: settled_as_def sound_world_def)
  note decision = hoare_decision [OF assms(3), of "rf_id r" "w_committed w" "w_payment_calls w" ?u "rf_case_id r"]
  have decided: "case m w of (Inr d, w') \<Rightarrow> ?S w' \<and> oo_kind d = OR_CONFLICT \<and> oo_case_id d = rf_case_id r \<and>
      oo_refund_id d = rf_id r \<and> oo_refund_status d = rf_status r | (Inl e, w') \<Rightarrow> False"
    if m: "m \<in> {approve_refund (rf_id r) operator, reject_refund (rf_id r) operator why}" for m
  proof -
    obtain rest where "m w = (bindM (lock_customer_for_update ?u) (\<lambda>_.
       bindM (expire_due_refunds_for_customer ?u) (\<lambda>reopened.
       bindM (require_refund_by_id (rf_id r)) (\<lambda>row.
         if rf_status row \<noteq> RS_PENDING_APPROVAL
         then returnM (operator_conflict (rf_case_id r) (rf_id r) (rf_status row) reopened)
         else rest reopened row)))) w"
      by (rule decision_start [OF good assms(2) m])
    with decision [of rest] start show ?thesis unfolding hoare_def by auto
  qed
  obtain m where m: "m \<in> {approve_refund (rf_id r) operator, reject_refund (rf_id r) operator why}" "m w = (outcome, w')"
    using assms(4) by (metis insert_iff singletonD)
  from decided [OF m(1)] m(2) show ?thesis by (cases outcome) (auto simp: settled_as_def)
qed

theorem settled_refunds_are_not_decided_again_witness:
  "\<exists>r\<in>set (db_refunds (w_db paid_world)). rf_status r = RS_EXECUTED \<and>
     (\<exists>decision. fst (approve_refund (rf_id r) (lit ''ops'') paid_world) = Inr decision \<and>
       oo_kind decision = OR_CONFLICT \<and> oo_refund_status decision = RS_EXECUTED) \<and>
     w_payment_calls (snd (approve_refund (rf_id r) (lit ''ops'') paid_world)) = w_payment_calls paid_world"
proof -
  have "RS_EXECUTED \<in> rf_status ` set (db_refunds (w_db paid_world))"
    using arg_cong [OF paid_facts(3), of "\<lambda>rows. snd ` set rows"] by (simp add: image_image)
  then obtain r where r: "r \<in> set (db_refunds (w_db paid_world))" "rf_status r = RS_EXECUTED" by auto
  let ?run = "approve_refund (rf_id r) (lit ''ops'') paid_world"
  have "(fst ?run, snd ?run) \<in> {?run, reject_refund (rf_id r) (lit ''ops'') [] paid_world}"
    by (simp only: prod.collapse insertI1)
  from settled_refunds_are_not_decided_again [OF reachable_paid r(1) _ this] r
  have "(\<exists>decision. fst ?run = Inr decision \<and> oo_kind decision = OR_CONFLICT \<and> oo_refund_status decision = RS_EXECUTED) \<and>
      w_payment_calls (snd ?run) = w_payment_calls paid_world"
    by (simp only: refund_status.distinct not_False_eq_True) blast
  with r show ?thesis by blast
qed

end
