(* ===== verification/Locks.thy ===== *)
theory Locks
  imports Prelude
begin

text \<open>
  Single flight per case (\<open>agent/locks.py\<close>).  Tasks of one event loop enter
  \<open>case_execution_lock\<close> for a case, run the agent loop of that case, and leave.  An
  \<open>asyncio.Lock\<close> is its flag and the queue of the tasks that wait; a released lock goes to the
  head of the queue, which takes it when it is resumed.  The registry maps a case to the lock
  made for it, an index into the list of all locks.  The section under \<open>_registry_lock\<close> has no
  suspension point, so it is part of the step that enters.
\<close>

section \<open>The lock of the standard library\<close>

record aio_lock =
  lk_locked :: bool
  lk_waiters :: "nat list"

definition new_lock :: aio_lock where
  "new_lock = \<lparr>lk_locked = False, lk_waiters = []\<rparr>"

text \<open>\<open>acquire\<close> up to its suspension: whether the task has the lock, or waits.\<close>

definition lock_acquire :: "nat \<Rightarrow> aio_lock \<Rightarrow> bool \<times> aio_lock" where
  "lock_acquire t l =
     (if \<not> lk_locked l \<and> lk_waiters l = [] then (True, l\<lparr>lk_locked := True\<rparr>)
      else (False, l\<lparr>lk_waiters := lk_waiters l @ [t]\<rparr>))"

text \<open>The rest of \<open>acquire\<close> in a task that was woken, and a wait that is cancelled.\<close>

definition lock_resume :: "nat \<Rightarrow> aio_lock \<Rightarrow> aio_lock option" where
  "lock_resume t l =
     (case lk_waiters l of
        [] \<Rightarrow> None
      | u # us \<Rightarrow> if u = t \<and> \<not> lk_locked l then Some \<lparr>lk_locked = True, lk_waiters = us\<rparr> else None)"

definition lock_cancel :: "nat \<Rightarrow> aio_lock \<Rightarrow> aio_lock" where
  "lock_cancel t l = l\<lparr>lk_waiters := remove1 t (lk_waiters l)\<rparr>"

definition lock_release :: "aio_lock \<Rightarrow> aio_lock" where
  "lock_release l = l\<lparr>lk_locked := False\<rparr>"

section \<open>The registry\<close>

datatype task_phase = Outside | Waiting pystr nat | Running pystr nat

record lock_state =
  case_locks :: "pystr \<rightharpoonup> nat"
  all_locks :: "aio_lock list"
  task_phases :: "nat \<Rightarrow> task_phase"

definition no_locks :: lock_state where
  "no_locks = \<lparr>case_locks = Map.empty, all_locks = [], task_phases = (\<lambda>_. Outside)\<rparr>"

text \<open>\<open>_case_locks.setdefault(case_id, asyncio.Lock())\<close>\<close>

definition lock_of_case :: "pystr \<Rightarrow> lock_state \<Rightarrow> nat \<times> lock_state" where
  "lock_of_case c s =
     (case case_locks s c of
        Some k \<Rightarrow> (k, s)
      | None \<Rightarrow>
          (length (all_locks s),
           s\<lparr>case_locks := (case_locks s)(c \<mapsto> length (all_locks s)), all_locks := all_locks s @ [new_lock]\<rparr>))"

definition enter_case_lock :: "nat \<Rightarrow> pystr \<Rightarrow> lock_state \<Rightarrow> lock_state option" where
  "enter_case_lock t c s =
     (if task_phases s t \<noteq> Outside then None
      else let (k, s1) = lock_of_case c s;
               (got, l) = lock_acquire t (all_locks s1 ! k) in
           Some (s1\<lparr>all_locks := (all_locks s1)[k := l],
                   task_phases := (task_phases s1)(t := if got then Running c k else Waiting c k)\<rparr>))"

definition resume_case_lock :: "nat \<Rightarrow> lock_state \<Rightarrow> lock_state option" where
  "resume_case_lock t s =
     (case task_phases s t of
        Waiting c k \<Rightarrow>
          map_option (\<lambda>l. s\<lparr>all_locks := (all_locks s)[k := l], task_phases := (task_phases s)(t := Running c k)\<rparr>)
            (lock_resume t (all_locks s ! k))
      | _ \<Rightarrow> None)"

definition cancel_case_lock :: "nat \<Rightarrow> lock_state \<Rightarrow> lock_state option" where
  "cancel_case_lock t s =
     (case task_phases s t of
        Waiting c k \<Rightarrow>
          Some (s\<lparr>all_locks := (all_locks s)[k := lock_cancel t (all_locks s ! k)],
                 task_phases := (task_phases s)(t := Outside)\<rparr>)
      | _ \<Rightarrow> None)"

definition leave_case_lock :: "nat \<Rightarrow> lock_state \<Rightarrow> lock_state option" where
  "leave_case_lock t s =
     (case task_phases s t of
        Running c k \<Rightarrow>
          Some (s\<lparr>all_locks := (all_locks s)[k := lock_release (all_locks s ! k)],
                 task_phases := (task_phases s)(t := Outside)\<rparr>)
      | _ \<Rightarrow> None)"

text \<open>The tests clear the registry between runs, when no task is inside.\<close>

definition reset_case_locks_for_tests :: "lock_state \<Rightarrow> lock_state" where
  "reset_case_locks_for_tests s = s\<lparr>case_locks := Map.empty\<rparr>"

inductive lock_step :: "lock_state \<Rightarrow> lock_state \<Rightarrow> bool" where
  Enter: "enter_case_lock t c s = Some s' \<Longrightarrow> lock_step s s'"
| Resume: "resume_case_lock t s = Some s' \<Longrightarrow> lock_step s s'"
| Cancel: "cancel_case_lock t s = Some s' \<Longrightarrow> lock_step s s'"
| Leave: "leave_case_lock t s = Some s' \<Longrightarrow> lock_step s s'"
| Reset: "(\<And>t. task_phases s t = Outside) \<Longrightarrow> lock_step s (reset_case_locks_for_tests s)"

inductive lock_reachable :: "lock_state \<Rightarrow> bool" where
  Start: "lock_reachable no_locks"
| Step: "lock_reachable s \<Longrightarrow> lock_step s s' \<Longrightarrow> lock_reachable s'"

inductive_cases lock_stepE: "lock_step s s'"

section \<open>Single flight\<close>

definition waiting_tasks :: "lock_state \<Rightarrow> nat \<Rightarrow> nat set" where
  "waiting_tasks s k = {t. \<exists>c. task_phases s t = Waiting c k}"

definition running_tasks :: "lock_state \<Rightarrow> nat \<Rightarrow> nat set" where
  "running_tasks s k = {t. \<exists>c. task_phases s t = Running c k}"

text \<open>
  A lock between steps: its queue holds the tasks that wait for it, once each, and it is taken
  exactly when one task runs under it.
\<close>

definition lock_ok :: "aio_lock \<Rightarrow> nat set \<Rightarrow> nat set \<Rightarrow> bool" where
  "lock_ok l W R \<longleftrightarrow> set (lk_waiters l) = W \<and> distinct (lk_waiters l) \<and>
     (if lk_locked l then \<exists>t. R = {t} else R = {})"

lemma lock_ok_new: "lock_ok new_lock {} {}"
  by (simp add: lock_ok_def new_lock_def)

lemma lock_ok_acquire:
  "lock_ok l W R \<Longrightarrow> t \<notin> W \<Longrightarrow> lock_acquire t l = (got, l') \<Longrightarrow>
   (got \<longrightarrow> lock_ok l' W (insert t R)) \<and> (\<not> got \<longrightarrow> lock_ok l' (insert t W) R)"
  by (auto simp: lock_ok_def lock_acquire_def split: if_splits)

lemma lock_ok_resume:
  "lock_ok l W R \<Longrightarrow> lock_resume t l = Some l' \<Longrightarrow> lock_ok l' (W - {t}) (insert t R)"
  by (auto simp: lock_ok_def lock_resume_def split: list.splits if_splits)

lemma lock_ok_cancel: "lock_ok l W R \<Longrightarrow> lock_ok (lock_cancel t l) (W - {t}) R"
  by (auto simp: lock_ok_def lock_cancel_def)

lemma lock_ok_release: "lock_ok l W R \<Longrightarrow> t \<in> R \<Longrightarrow> lock_ok (lock_release l) W (R - {t})"
  by (auto simp: lock_ok_def lock_release_def split: if_splits)

text \<open>The phase of every task names the registered lock of its case.\<close>

fun phase_ok :: "(pystr \<rightharpoonup> nat) \<Rightarrow> task_phase \<Rightarrow> bool" where
  "phase_ok m Outside \<longleftrightarrow> True"
| "phase_ok m (Waiting c k) \<longleftrightarrow> m c = Some k"
| "phase_ok m (Running c k) \<longleftrightarrow> m c = Some k"

definition locks_ok :: "lock_state \<Rightarrow> bool" where
  "locks_ok s \<longleftrightarrow>
     (\<forall>t. phase_ok (case_locks s) (task_phases s t)) \<and>
     (\<forall>c k. case_locks s c = Some k \<longrightarrow> k < length (all_locks s)) \<and>
     (\<forall>k < length (all_locks s). lock_ok (all_locks s ! k) (waiting_tasks s k) (running_tasks s k))"

lemma locks_okD:
  assumes "locks_ok s"
  shows "phase_ok (case_locks s) (task_phases s t)"
    and "case_locks s c = Some k \<Longrightarrow> k < length (all_locks s)"
    and "k < length (all_locks s) \<Longrightarrow> lock_ok (all_locks s ! k) (waiting_tasks s k) (running_tasks s k)"
  using assms by (auto simp: locks_ok_def)

text \<open>A step of one task at one lock: the others keep their phases, the other locks their state.\<close>

lemma locks_ok_update:
  assumes ok: "locks_ok s" and k: "k < length (all_locks s)"
    and phase: "phase_ok (case_locks s) p"
    and others: "\<And>j. j \<noteq> k \<Longrightarrow> t \<notin> waiting_tasks s j \<and> t \<notin> running_tasks s j"
    and target: "\<And>c j. p = Waiting c j \<or> p = Running c j \<Longrightarrow> j = k"
    and l: "lock_ok l (if \<exists>c. p = Waiting c k then insert t (waiting_tasks s k) else waiting_tasks s k - {t})
      (if \<exists>c. p = Running c k then insert t (running_tasks s k) else running_tasks s k - {t})"
  shows "locks_ok (s\<lparr>all_locks := (all_locks s)[k := l], task_phases := (task_phases s)(t := p)\<rparr>)"
proof -
  let ?s = "s\<lparr>all_locks := (all_locks s)[k := l], task_phases := (task_phases s)(t := p)\<rparr>"
  have changed: "waiting_tasks ?s k = (if \<exists>c. p = Waiting c k then insert t (waiting_tasks s k) else waiting_tasks s k - {t})"
    "running_tasks ?s k = (if \<exists>c. p = Running c k then insert t (running_tasks s k) else running_tasks s k - {t})"
    by (auto simp: waiting_tasks_def running_tasks_def)
  have same: "waiting_tasks ?s j = waiting_tasks s j" "running_tasks ?s j = running_tasks s j" if "j \<noteq> k" for j
    using others [OF that] target that by (auto simp: waiting_tasks_def running_tasks_def)
  have "lock_ok (all_locks ?s ! j) (waiting_tasks ?s j) (running_tasks ?s j)" if "j < length (all_locks s)" for j
  proof (cases "j = k")
    case True
    with l k show ?thesis by (simp only: changed) simp
  next
    case False
    with same locks_okD(3) [OF ok that] show ?thesis by simp
  qed
  then show ?thesis using locks_okD(1,2) [OF ok] phase by (auto simp: locks_ok_def)
qed

lemma registered:
  assumes "locks_ok s"
  obtains k s1 where "lock_of_case c s = (k, s1)" and "locks_ok s1" and "case_locks s1 c = Some k"
    and "task_phases s1 = task_phases s" and "k < length (all_locks s1)"
proof (cases "case_locks s c")
  case (Some k)
  then show thesis using that [of k s] assms locks_okD(2) [OF assms] by (simp add: lock_of_case_def)
next
  case None
  let ?k = "length (all_locks s)"
  let ?s = "s\<lparr>case_locks := (case_locks s)(c \<mapsto> ?k), all_locks := all_locks s @ [new_lock]\<rparr>"
  have phases: "phase_ok ((case_locks s)(c \<mapsto> ?k)) (task_phases s t)" for t
    using locks_okD(1) [OF assms, of t] None by (cases "task_phases s t") auto
  have "task_phases s t \<noteq> Waiting d ?k" "task_phases s t \<noteq> Running d ?k" for t d
    using locks_okD(1) [OF assms, of t] locks_okD(2) [OF assms, of d ?k] by auto
  then have unused: "waiting_tasks s ?k = {}" "running_tasks s ?k = {}"
    by (simp_all add: waiting_tasks_def running_tasks_def)
  have "locks_ok ?s"
    using phases locks_okD(2,3) [OF assms] unused lock_ok_new
    by (auto simp: locks_ok_def nth_append waiting_tasks_def [abs_def] running_tasks_def [abs_def] less_Suc_eq)
  with None show thesis using that [of ?k ?s] by (simp add: lock_of_case_def)
qed

lemma enter_ok:
  assumes ok: "locks_ok s" and enter: "enter_case_lock t c s = Some s'"
  shows "locks_ok s'"
proof -
  obtain k s1 where s1: "lock_of_case c s = (k, s1)" "locks_ok s1" "case_locks s1 c = Some k"
    "task_phases s1 = task_phases s" "k < length (all_locks s1)" by (rule registered [OF ok])
  obtain got l where l: "lock_acquire t (all_locks s1 ! k) = (got, l)" by fastforce
  have outside: "task_phases s1 t = Outside" using enter s1(4) by (simp add: enter_case_lock_def split: if_splits)
  have s': "s' = s1\<lparr>all_locks := (all_locks s1)[k := l],
      task_phases := (task_phases s1)(t := if got then Running c k else Waiting c k)\<rparr>"
    using enter s1(1,4) l outside by (simp add: enter_case_lock_def)
  have "t \<notin> waiting_tasks s1 k" using outside by (simp add: waiting_tasks_def)
  note after = lock_ok_acquire [OF locks_okD(3) [OF s1(2,5)] this l]
  show ?thesis
    unfolding s'
  proof (rule locks_ok_update [OF s1(2,5)])
    have "t \<notin> waiting_tasks s1 k" "t \<notin> running_tasks s1 k"
      using outside by (simp_all add: waiting_tasks_def running_tasks_def)
    then show "lock_ok l
        (if \<exists>d. (if got then Running c k else Waiting c k) = Waiting d k then insert t (waiting_tasks s1 k)
         else waiting_tasks s1 k - {t})
        (if \<exists>d. (if got then Running c k else Waiting c k) = Running d k then insert t (running_tasks s1 k)
         else running_tasks s1 k - {t})"
      using after by (cases got) simp_all
  qed (use s1(3) outside in \<open>auto simp: waiting_tasks_def running_tasks_def split: if_splits\<close>)
qed

lemma task_lock:
  assumes ok: "locks_ok s" and phase: "task_phases s t = Waiting c k \<or> task_phases s t = Running c k"
  shows "k < length (all_locks s)" and "case_locks s c = Some k"
    and "j \<noteq> k \<Longrightarrow> t \<notin> waiting_tasks s j \<and> t \<notin> running_tasks s j"
  using locks_okD(1) [OF ok, of t] locks_okD(2) [OF ok, of c k] phase
  by (auto simp: waiting_tasks_def running_tasks_def)

lemma locks_ok_step:
  assumes "lock_step s s'" and ok: "locks_ok s"
  shows "locks_ok s'"
  using assms(1)
proof cases
  case (Enter t c)
  with ok show ?thesis by (rule enter_ok)
next
  case (Resume t)
  then obtain c k l where phase: "task_phases s t = Waiting c k" and l: "lock_resume t (all_locks s ! k) = Some l"
    and s': "s' = s\<lparr>all_locks := (all_locks s)[k := l], task_phases := (task_phases s)(t := Running c k)\<rparr>"
    by (auto simp: resume_case_lock_def split: task_phase.splits)
  note lock = task_lock [OF ok disjI1 [OF phase]]
  show ?thesis
    unfolding s' using lock_ok_resume [OF locks_okD(3) [OF ok lock(1)] l] lock
    by (intro locks_ok_update [OF ok]) auto
next
  case (Cancel t)
  then obtain c k where phase: "task_phases s t = Waiting c k"
    and s': "s' = s\<lparr>all_locks := (all_locks s)[k := lock_cancel t (all_locks s ! k)],
      task_phases := (task_phases s)(t := Outside)\<rparr>"
    by (auto simp: cancel_case_lock_def split: task_phase.splits)
  note lock = task_lock [OF ok disjI1 [OF phase]]
  have "t \<notin> running_tasks s k" using phase by (simp add: running_tasks_def)
  then show ?thesis
    unfolding s' using lock_ok_cancel [OF locks_okD(3) [OF ok lock(1)], of t] lock
    by (intro locks_ok_update [OF ok]) auto
next
  case (Leave t)
  then obtain c k where phase: "task_phases s t = Running c k"
    and s': "s' = s\<lparr>all_locks := (all_locks s)[k := lock_release (all_locks s ! k)],
      task_phases := (task_phases s)(t := Outside)\<rparr>"
    by (auto simp: leave_case_lock_def split: task_phase.splits)
  note lock = task_lock [OF ok disjI2 [OF phase]]
  have "t \<notin> waiting_tasks s k" "t \<in> running_tasks s k" using phase by (simp_all add: waiting_tasks_def running_tasks_def)
  then show ?thesis
    unfolding s' using lock_ok_release [OF locks_okD(3) [OF ok lock(1)], of t] lock
    by (intro locks_ok_update [OF ok]) auto
next
  case Reset
  then show ?thesis
    using locks_okD(3) [OF ok]
    by (auto simp: locks_ok_def reset_case_locks_for_tests_def waiting_tasks_def running_tasks_def)
qed

lemma reachable_locks_ok: "lock_reachable s \<Longrightarrow> locks_ok s"
proof (induction rule: lock_reachable.induct)
  case Start
  show ?case by (simp add: locks_ok_def no_locks_def)
qed (rule locks_ok_step)

section \<open>Fairness\<close>

text \<open>The tasks that a waiting task has to let pass.\<close>

definition ahead_of :: "lock_state \<Rightarrow> nat \<Rightarrow> nat \<Rightarrow> nat list" where
  "ahead_of s k t = takeWhile (\<lambda>u. u \<noteq> t) (lk_waiters (all_locks s ! k))"

lemma takeWhile_remove1: "x \<noteq> t \<Longrightarrow> distinct xs \<Longrightarrow> length (takeWhile (\<lambda>u. u \<noteq> t) (remove1 x xs)) \<le> length (takeWhile (\<lambda>u. u \<noteq> t) xs)"
  by (induction xs) auto

lemma ahead_update:
  "k < length (all_locks s) \<Longrightarrow> ahead_of (s\<lparr>all_locks := (all_locks s)[j := l], task_phases := f\<rparr>) k t =
     (if j = k then takeWhile (\<lambda>u. u \<noteq> t) (lk_waiters l) else ahead_of s k t)"
  by (simp add: ahead_of_def nth_list_update)

text \<open>No step lets another task pass one that waits.\<close>

lemma no_overtaking:
  assumes step: "lock_step s s'" and ok: "locks_ok s" and waits: "task_phases s t = Waiting c k"
    and still: "task_phases s' t = Waiting c k"
  shows "length (ahead_of s' k t) \<le> length (ahead_of s k t)"
proof -
  have k: "k < length (all_locks s)" using task_lock(1) [OF ok disjI1 [OF waits]] .
  then have lock: "t \<in> set (lk_waiters (all_locks s ! k))" "distinct (lk_waiters (all_locks s ! k))"
    using locks_okD(3) [OF ok k] waits by (auto simp: lock_ok_def waiting_tasks_def)
  from step show ?thesis
  proof cases
    case (Enter u d)
    then obtain j s1 where s1: "lock_of_case d s = (j, s1)" by fastforce
    have old: "all_locks s1 ! k = all_locks s ! k" "k < length (all_locks s1)"
      using s1 k by (auto simp: lock_of_case_def nth_append split: option.splits)
    obtain got l where l: "lock_acquire u (all_locks s1 ! j) = (got, l)" by fastforce
    have "takeWhile (\<lambda>u. u \<noteq> t) (lk_waiters l) = takeWhile (\<lambda>u. u \<noteq> t) (lk_waiters (all_locks s ! k))" if "j = k"
      using l that lock(1) old(1) by (auto simp: lock_acquire_def takeWhile_append split: if_splits)
    moreover have "s' = s1\<lparr>all_locks := (all_locks s1)[j := l],
        task_phases := (task_phases s1)(u := if got then Running d j else Waiting d j)\<rparr>"
      using Enter s1 l by (simp add: enter_case_lock_def split: if_splits)
    ultimately show ?thesis using old by (simp add: ahead_update) (simp add: ahead_of_def)
  next
    case (Resume u)
    then obtain d j l where "lock_resume u (all_locks s ! j) = Some l"
      "s' = s\<lparr>all_locks := (all_locks s)[j := l], task_phases := (task_phases s)(u := Running d j)\<rparr>"
      by (auto simp: resume_case_lock_def split: task_phase.splits)
    then show ?thesis
      using k still by (auto simp: ahead_update) (auto simp: ahead_of_def lock_resume_def split: list.splits if_splits)
  next
    case (Cancel u)
    then obtain d j where s': "s' = s\<lparr>all_locks := (all_locks s)[j := lock_cancel u (all_locks s ! j)],
        task_phases := (task_phases s)(u := Outside)\<rparr>" and "task_phases s u = Waiting d j"
      by (auto simp: cancel_case_lock_def split: task_phase.splits)
    have "u \<noteq> t" using s' still by auto
    from takeWhile_remove1 [OF this lock(2)] s' k show ?thesis
      by (simp add: ahead_update) (simp add: ahead_of_def lock_cancel_def)
  next
    case (Leave u)
    then obtain d j where "s' = s\<lparr>all_locks := (all_locks s)[j := lock_release (all_locks s ! j)],
        task_phases := (task_phases s)(u := Outside)\<rparr>"
      by (auto simp: leave_case_lock_def split: task_phase.splits)
    with k show ?thesis by (simp add: ahead_update) (simp add: ahead_of_def lock_release_def)
  qed (simp add: ahead_of_def reset_case_locks_for_tests_def)
qed

text \<open>C24: at most one run of the agent loop per case.  In every state that tasks of the event loop
  can reach by entering the lock of a case, waiting, being cancelled and leaving, two tasks that
  run under the lock of the same case are the same task.\<close>

theorem single_flight_per_case:
  assumes "lock_reachable s" and "task_phases s t = Running c k" and "task_phases s u = Running c j"
  shows "t = u"
proof -
  have ok: "locks_ok s" using assms(1) by (rule reachable_locks_ok)
  have "j = k" using task_lock(2) [OF ok disjI2 [OF assms(2)]] task_lock(2) [OF ok disjI2 [OF assms(3)]] by simp
  then have "t \<in> running_tasks s k" "u \<in> running_tasks s k" using assms(2,3) by (auto simp: running_tasks_def)
  then show ?thesis
    using locks_okD(3) [OF ok task_lock(1) [OF ok disjI2 [OF assms(2)]]] by (auto simp: lock_ok_def split: if_splits)
qed

text \<open>Two tasks that enter the same case, one after the other.\<close>

definition two_tasks :: lock_state where
  "two_tasks = the (enter_case_lock 2 (lit ''case_1'') (the (enter_case_lock 1 (lit ''case_1'') no_locks)))"

lemma two_tasks: "lock_reachable two_tasks" "task_phases two_tasks 1 = Running (lit ''case_1'') 0"
  "task_phases two_tasks 2 = Waiting (lit ''case_1'') 0"
proof -
  have "\<exists>s. enter_case_lock 1 (lit ''case_1'') no_locks = Some s \<and> enter_case_lock 2 (lit ''case_1'') s = Some two_tasks"
    by (simp add: two_tasks_def enter_case_lock_def no_locks_def lock_of_case_def lock_acquire_def new_lock_def Let_def)
  then show "lock_reachable two_tasks" by (blast intro: lock_reachable.intros lock_step.Enter)
qed (simp_all add: two_tasks_def enter_case_lock_def no_locks_def lock_of_case_def lock_acquire_def new_lock_def Let_def)

theorem single_flight_per_case_witness:
  "task_phases two_tasks 1 = Running (lit ''case_1'') 0 \<and> task_phases two_tasks 2 \<noteq> Running (lit ''case_1'') 0"
  using single_flight_per_case [OF two_tasks(1) two_tasks(2), of 2 0] two_tasks(2) by auto

text \<open>C25: the lock is fair and does not strand a task.  While a task waits for a case, either another
  task runs under that lock or the first task of the queue can be resumed; and no step of the
  others puts more tasks ahead of it.\<close>

theorem waiting_for_a_case_is_fair:
  assumes "lock_reachable s" and "task_phases s t = Waiting c k"
  shows "((\<exists>u d. task_phases s u = Running d k) \<or> (\<exists>u s'. resume_case_lock u s = Some s' \<and> u \<in> set (ahead_of s k t) \<union> {t})) \<and>
    (\<forall>s'. lock_step s s' \<and> task_phases s' t = Waiting c k \<longrightarrow> length (ahead_of s' k t) \<le> length (ahead_of s k t))"
proof (intro conjI allI impI)
  have ok: "locks_ok s" using assms(1) by (rule reachable_locks_ok)
  note lock = locks_okD(3) [OF ok task_lock(1) [OF ok disjI1 [OF assms(2)]]]
  show "(\<exists>u d. task_phases s u = Running d k) \<or> (\<exists>u s'. resume_case_lock u s = Some s' \<and> u \<in> set (ahead_of s k t) \<union> {t})"
  proof (cases "lk_locked (all_locks s ! k)")
    case True
    with lock show ?thesis by (auto simp: lock_ok_def running_tasks_def)
  next
    case False
    have "t \<in> set (lk_waiters (all_locks s ! k))" using lock assms(2) by (auto simp: lock_ok_def waiting_tasks_def)
    then obtain u us where queue: "lk_waiters (all_locks s ! k) = u # us" by (cases "lk_waiters (all_locks s ! k)") auto
    then have "u \<in> waiting_tasks s k" using lock by (auto simp: lock_ok_def)
    then obtain d where "task_phases s u = Waiting d k" by (auto simp: waiting_tasks_def)
    then have "\<exists>s'. resume_case_lock u s = Some s'"
      using queue False by (simp add: resume_case_lock_def lock_resume_def)
    moreover have "u \<in> set (ahead_of s k t) \<union> {t}" using queue by (simp add: ahead_of_def)
    ultimately show ?thesis by blast
  qed
  fix s' assume "lock_step s s' \<and> task_phases s' t = Waiting c k"
  then show "length (ahead_of s' k t) \<le> length (ahead_of s k t)" using no_overtaking [OF _ ok assms(2)] by blast
qed

theorem waiting_for_a_case_is_fair_witness:
  "(\<exists>u d. task_phases two_tasks u = Running d 0) \<or> (\<exists>u s'. resume_case_lock u two_tasks = Some s')"
  using waiting_for_a_case_is_fair [OF two_tasks(1) two_tasks(3)] by blast

end
