(* ===== verification/Models.thy ===== *)
theory Models
  imports Gateway Json_Roundtrip
begin

text \<open>
  The deterministic model that stands for an LLM (\<open>agent/models.py\<close>), the decoding of a request
  (\<open>deserialize_prompt_bytes\<close> of \<open>agent/prompt_serialization.py\<close>) and the in-process transports of
  \<open>agent/gateway.py\<close>.  A \<open>python\<close> holds what the interpreter does beyond the values the program
  sends: \<open>repr\<close>, the truth value of a float, the equality of values that are not strings, and
  \<open>Decimal\<close> on anything but a plain fixed-point text.
\<close>

record python =
  py_repr :: "json \<Rightarrow> pystr"
  py_float_true :: "pystr \<Rightarrow> bool"
  py_equal :: "json \<Rightarrow> json \<Rightarrow> bool"
  py_decimal :: "json \<Rightarrow> error + decimal"
  py_json_depth :: nat

text \<open>An interpreter for the witnesses.\<close>

definition sample_python :: python where
  "sample_python = \<lparr>py_repr = (\<lambda>_. []), py_float_true = (\<lambda>_. True), py_equal = (=),
     py_decimal = (\<lambda>_. Inl InvalidOperation), py_json_depth = 100\<rparr>"

section \<open>Decimals from text\<close>

text \<open>\<open>Decimal("-12.50")\<close>: the texts \<open>format(_, "f")\<close> writes; every other argument is left to the interpreter.\<close>

definition dec_of_fixed :: "pystr \<Rightarrow> decimal option" where
  "dec_of_fixed s =
     (let neg = (s \<noteq> [] \<and> hd s = 45); t = (if neg then tl s else s);
          whole = takeWhile is_digit t; rest = dropWhile is_digit t in
      if whole = [] then None
      else if rest = [] then Some (Dec neg (nat (digits_int whole)) 0)
      else if hd rest = 46 \<and> list_all is_digit (tl rest)
      then Some (Dec neg (nat (digits_int (whole @ tl rest))) (- int (length (tl rest))))
      else None)"

definition decimal_of :: "python \<Rightarrow> json \<Rightarrow> error + decimal" where
  "decimal_of py v =
     (case v of
        JStr s \<Rightarrow> (case dec_of_fixed s of Some d \<Rightarrow> Inr d | None \<Rightarrow> py_decimal py v)
      | _ \<Rightarrow> py_decimal py v)"

lemma is_digit_iff: "is_digit c \<longleftrightarrow> 48 \<le> c \<and> c \<le> 57"
  by (auto simp: is_digit_def)

lemma nat_str_digits: "list_all is_digit (nat_str n)"
  using nat_digits_less [of _ n] by (fastforce simp: nat_str_def list_all_iff is_digit_iff)

lemma digits_int_zeros: "digits_int (replicate k 48 @ ds) = digits_int ds"
  by (induction k) (simp_all add: digits_int_def)

lemma dec_of_fixed_parts:
  assumes "list_all is_digit whole" "whole \<noteq> []" "list_all is_digit places"
  shows "dec_of_fixed ((if neg then [45] else []) @ whole @ 46 # places) =
    Some (Dec neg (nat (digits_int (whole @ places))) (- int (length places)))"
    and "dec_of_fixed ((if neg then [45] else []) @ whole) = Some (Dec neg (nat (digits_int whole)) 0)"
proof -
  have head: "hd whole \<noteq> 45" using assms(1,2) by (auto simp: list_all_iff is_digit_iff dest!: hd_in_set)
  have digits: "\<forall>c\<in>set whole. is_digit c" and point: "\<not> is_digit 46" using assms(1) by (simp_all add: list_all_iff is_digit_iff)
  note take = takeWhile_append2 [of whole is_digit] dropWhile_append2 [of whole is_digit]
    takeWhile_eq_all_conv [THEN iffD2, OF digits] dropWhile_eq_Nil_conv [THEN iffD2, OF digits]
  show "dec_of_fixed ((if neg then [45] else []) @ whole @ 46 # places) =
    Some (Dec neg (nat (digits_int (whole @ places))) (- int (length places)))"
    using assms(2,3) head digits point by (cases neg) (simp_all add: dec_of_fixed_def Let_def hd_append take)
  show "dec_of_fixed ((if neg then [45] else []) @ whole) = Some (Dec neg (nat (digits_int whole)) 0)"
    using assms(2) head by (cases neg) (simp_all add: dec_of_fixed_def Let_def take)
qed

lemma dec_of_fixed_format:
  assumes "e \<le> 0"
  shows "dec_of_fixed (dec_format_f (Dec neg c e)) = Some (Dec neg c e)"
proof (cases "e = 0")
  case True
  with dec_of_fixed_parts(2) [of "nat_str c" "[]" neg] nat_str_digits [of c] show ?thesis
    using nat_str_first [of c] by (cases neg) (auto simp: lit_def digits_int_nat_str)
next
  case False
  let ?ds = "nat_str c" and ?p = "e + int (length (nat_str c))"
  have e: "e < 0" using assms False by simp
  show ?thesis
  proof (cases "?p \<le> 0")
    case True
    have "dec_format_f (Dec neg c e) = (if neg then [45] else []) @ [48] @ 46 # (replicate (nat (- ?p)) 48 @ ?ds)"
      using e True by (simp add: place_point_def lit_def)
    moreover have "list_all is_digit (replicate (nat (- ?p)) 48 @ ?ds)"
      using nat_str_digits [of c] by (auto simp: list_all_iff is_digit_iff)
    moreover have "int (length (replicate (nat (- ?p)) 48 @ ?ds)) = - e" using True by simp
    ultimately show ?thesis
      using dec_of_fixed_parts(1) [where whole = "[48]" and places = "replicate (nat (- ?p)) 48 @ ?ds" and neg = neg]
        digits_int_zeros [of 1 "replicate (nat (- ?p)) 48 @ ?ds"]
      by (simp add: is_digit_iff digits_int_zeros digits_int_nat_str)
  next
    case inside: False
    have "dec_format_f (Dec neg c e) = (if neg then [45] else []) @ take (nat ?p) ?ds @ 46 # drop (nat ?p) ?ds"
      using e inside by (simp add: place_point_def lit_def Let_def)
    moreover have "list_all is_digit (take (nat ?p) ?ds)" "list_all is_digit (drop (nat ?p) ?ds)"
      using nat_str_digits [of c] by (auto simp: list_all_iff dest: in_set_takeD in_set_dropD)
    moreover have "take (nat ?p) ?ds \<noteq> []" using inside by (simp add: nat_str_def)
    moreover have "int (length (drop (nat ?p) ?ds)) = - e" using e inside by simp
    ultimately show ?thesis
      using dec_of_fixed_parts(1) [where whole = "take (nat ?p) ?ds" and places = "drop (nat ?p) ?ds" and neg = neg]
      by (simp add: digits_int_nat_str)
  qed
qed

section \<open>Reading a request\<close>

text \<open>A generator expression whose element may raise.\<close>

primrec mapE :: "('a \<Rightarrow> error + 'b) \<Rightarrow> 'a list \<Rightarrow> error + 'b list" where
  "mapE f [] = Inr []"
| "mapE f (x # xs) = bindE (f x) (\<lambda>y. bindE (mapE f xs) (\<lambda>ys. Inr (y # ys)))"

lemma mapE_Inr: "(\<And>x. x \<in> set xs \<Longrightarrow> f (g x) = Inr x) \<Longrightarrow> mapE f (map g xs) = Inr xs"
  by (induction xs) simp_all

definition subscript :: "json \<Rightarrow> string \<Rightarrow> error + json" where
  "subscript v k =
     (case v of
        JObj kvs \<Rightarrow> (case map_of kvs (lit k) of Some x \<Rightarrow> Inr x | None \<Rightarrow> Inl (KeyError (lit k)))
      | _ \<Rightarrow> Inl (TypeError (lit ''not subscriptable by a string'')))"

definition as_tuple :: "json \<Rightarrow> error + json list" where
  "as_tuple v =
     (case v of
        JList xs \<Rightarrow> Inr xs
      | JStr s \<Rightarrow> Inr (map (\<lambda>c. JStr [c]) s)
      | JObj kvs \<Rightarrow> Inr (map (\<lambda>(k, _). JStr k) kvs)
      | _ \<Rightarrow> Inl (TypeError (lit ''object is not iterable'')))"

text \<open>
  The dataclasses of a prompt declare the types of their fields but do not check them; a value of
  another type, which no serialized prompt holds, is refused here where it is read.
\<close>

definition undeclared :: error where
  "undeclared = TypeError (lit ''value outside the declared type'')"

definition declared_bool :: "json \<Rightarrow> error + bool" where
  "declared_bool v = (case v of JBool b \<Rightarrow> Inr b | _ \<Rightarrow> Inl undeclared)"

definition declared_str :: "json \<Rightarrow> error + pystr" where
  "declared_str v = (case v of JStr s \<Rightarrow> Inr s | _ \<Rightarrow> Inl undeclared)"

definition declared_opt_str :: "json \<Rightarrow> error + pystr option" where
  "declared_opt_str v = (case v of JNull \<Rightarrow> Inr None | JStr s \<Rightarrow> Inr (Some s) | _ \<Rightarrow> Inl undeclared)"

definition order_status_of :: "json \<Rightarrow> error + order_status" where
  "order_status_of v =
     (case find (\<lambda>st. v = JStr (order_status_value st)) [OS_DELIVERED, OS_DELIVERED_DAMAGED, OS_SHIPPED] of
        Some st \<Rightarrow> Inr st
      | None \<Rightarrow> Inl (ValueError (lit ''not a valid OrderStatus'')))"

definition refund_status_of :: "json \<Rightarrow> error + refund_status" where
  "refund_status_of v =
     (case find (\<lambda>st. v = JStr (refund_status_value st))
             [RS_PENDING_APPROVAL, RS_APPROVED, RS_EXECUTED, RS_REJECTED, RS_EXPIRED] of
        Some st \<Rightarrow> Inr st
      | None \<Rightarrow> Inl (ValueError (lit ''not a valid RefundStatus'')))"

definition deserialize_order_view :: "python \<Rightarrow> json \<Rightarrow> error + order_view" where
  "deserialize_order_view py order =
     bindE (subscript order ''id'') (\<lambda>i. bindE (declared_str i) (\<lambda>id.
     bindE (subscript order ''item'') (\<lambda>item. bindE (subscript item ''value'') (\<lambda>v.
     bindE (declared_str v) (\<lambda>value.
     bindE (subscript order ''total'') (\<lambda>t. bindE (decimal_of py t) (\<lambda>total.
     bindE (subscript order ''status'') (\<lambda>st. bindE (order_status_of st) (\<lambda>status.
       Inr \<lparr>ov_id = id, ov_item = \<lparr>uf_provenance = lit ''untrusted'', uf_value = value\<rparr>,
            ov_total = total, ov_status = status\<rparr>)))))))))"

definition deserialize_state :: "python \<Rightarrow> json \<Rightarrow> error + agent_state" where
  "deserialize_state py d =
     bindE (subscript d ''orders'') (\<lambda>os. bindE (as_tuple os) (\<lambda>documents.
     bindE (mapE (deserialize_order_view py) documents) (\<lambda>orders.
     bindE (subscript d ''last_refund_status'') (\<lambda>last.
     bindE (subscript d ''verified'') (\<lambda>v. bindE (declared_bool v) (\<lambda>verified.
     bindE (subscript d ''orders_listed'') (\<lambda>l. bindE (declared_bool l) (\<lambda>orders_listed.
     bindE (subscript d ''linked_order_id'') (\<lambda>k. bindE (declared_opt_str k) (\<lambda>linked_order_id.
     bindE (if last = JNull \<or> last = JStr [] then Inr None
            else bindE (refund_status_of last) (\<lambda>st. Inr (Some st))) (\<lambda>last_refund_status.
     bindE (subscript d ''reply_sent_after_last_refund'') (\<lambda>r. bindE (declared_bool r) (\<lambda>reply_sent.
     bindE (subscript d ''menu'') (\<lambda>m. bindE (as_tuple m) (\<lambda>names. bindE (mapE declared_str names) (\<lambda>menu.
       Inr \<lparr>as_verified = verified, as_orders = orders, as_orders_listed = orders_listed,
            as_linked_order_id = linked_order_id, as_last_refund_status = last_refund_status,
            as_reply_sent_after_last_refund = reply_sent, as_menu = menu\<rparr>))))))))))))))))"

definition deserialize_prompt_bytes :: "python \<Rightarrow> nat list \<Rightarrow> error + prompt" where
  "deserialize_prompt_bytes py payload =
     bindE (utf8_decode payload) (\<lambda>text.
     bindE (loads (py_json_depth py) text) (\<lambda>document.
     bindE (subscript document ''state'') (\<lambda>state_document.
     bindE (deserialize_state py state_document) (\<lambda>state.
     bindE (subscript document ''text'') (\<lambda>t. bindE (declared_str t) (\<lambda>prompt_text.
       Inr \<lparr>prompt_text = prompt_text, prompt_state = state\<rparr>))))))"

section \<open>What was sent is what is read\<close>

text \<open>Prompts the application sends: totals have no positive exponent, items are tagged untrusted.\<close>

definition sendable_order :: "order_view \<Rightarrow> bool" where
  "sendable_order v \<longleftrightarrow> uf_provenance (ov_item v) = lit ''untrusted'' \<and>
     (case ov_total v of Dec _ _ e \<Rightarrow> e \<le> 0 | _ \<Rightarrow> False)"

lemma subscript_jobj:
  "subscript (jobj kvs) k = (case map_of (map (\<lambda>(k, v). (lit k, v)) kvs) (lit k) of Some x \<Rightarrow> Inr x
     | None \<Rightarrow> Inl (KeyError (lit k)))"
  by (simp add: subscript_def jobj_def)

lemma status_of_value [simp]:
  "order_status_of (JStr (order_status_value st)) = Inr st"
  "refund_status_of (JStr (refund_status_value rs)) = Inr rs"
  by (cases st; simp add: order_status_of_def lit_def) (cases rs; simp add: refund_status_of_def lit_def)

lemma deserialize_serialize_order:
  "sendable_order v \<Longrightarrow> deserialize_order_view py (serialize_order_view v) = Inr v"
  by (cases v; cases "ov_item v"; cases "ov_total v")
    (auto simp: sendable_order_def deserialize_order_view_def serialize_order_view_def subscript_jobj declared_str_def
      decimal_of_def dec_of_fixed_format lit_def simp del: dec_format_f.simps)

lemma serialized_fields:
  "subscript (serialize_state st) ''verified'' = Inr (JBool (as_verified st))"
  "subscript (serialize_state st) ''orders'' = Inr (JList (map serialize_order_view (as_orders st)))"
  "subscript (serialize_state st) ''orders_listed'' = Inr (JBool (as_orders_listed st))"
  "subscript (serialize_state st) ''linked_order_id'' = Inr (jopt (as_linked_order_id st))"
  "subscript (serialize_state st) ''last_refund_status'' =
     Inr (jopt (map_option refund_status_value (as_last_refund_status st)))"
  "subscript (serialize_state st) ''reply_sent_after_last_refund'' = Inr (JBool (as_reply_sent_after_last_refund st))"
  "subscript (serialize_state st) ''menu'' = Inr (JList (map JStr (as_menu st)))"
  by (simp_all add: serialize_state_def subscript_jobj lit_def)

lemma deserialize_serialize_state:
  assumes "list_all sendable_order (as_orders st)"
  shows "deserialize_state py (serialize_state st) = Inr st"
proof -
  have orders: "mapE (deserialize_order_view py) (map serialize_order_view (as_orders st)) = Inr (as_orders st)"
    using assms by (intro mapE_Inr deserialize_serialize_order) (simp add: list_all_iff)
  have menu: "mapE declared_str (map JStr names) = Inr names" for names
    by (rule mapE_Inr) (simp add: declared_str_def)
  have linked: "declared_opt_str (jopt k) = Inr k" for k
    by (simp add: declared_opt_str_def jopt_def split: option.split)
  have last: "(if jopt (map_option refund_status_value r) = JNull \<or> jopt (map_option refund_status_value r) = JStr []
      then Inr None else bindE (refund_status_of (jopt (map_option refund_status_value r))) (\<lambda>st. Inr (Some st))) = Inr r" for r
  proof (cases r)
    case (Some rs)
    moreover have "refund_status_value rs \<noteq> []" by (cases rs) (simp_all add: lit_def)
    ultimately show ?thesis by (simp add: jopt_def)
  qed (simp add: jopt_def)
  show ?thesis
    unfolding deserialize_state_def
    by (simp add: serialized_fields as_tuple_def orders menu linked last declared_bool_def)
qed

text \<open>Reading back a serialized prompt gives the prompt.\<close>

lemma deserialize_serialize_prompt:
  assumes "json_ok (prompt_document p)" and "json_depth (prompt_document p) \<le> py_json_depth py"
    and "list_all sendable_order (as_orders (prompt_state p))" and "serialize_prompt p = Inr bytes"
  shows "deserialize_prompt_bytes py bytes = Inr p"
proof -
  have "loads (py_json_depth py) (dumps False None (prompt_document p)) = Inr (prompt_document p)"
    by (rule loads_dumps [OF assms(1,2)])
  moreover have "utf8_decode bytes = Inr (dumps False None (prompt_document p))"
    using assms(4) by (simp add: serialize_prompt_def utf8_decode_encode)
  moreover have "subscript (prompt_document p) ''state'' = Inr (serialize_state (prompt_state p))"
    "subscript (prompt_document p) ''text'' = Inr (JStr (prompt_text p))"
    by (simp_all add: prompt_document_def subscript_jobj lit_def)
  ultimately show ?thesis
    using deserialize_serialize_state [OF assms(3), of py]
    by (simp add: deserialize_prompt_bytes_def declared_str_def)
qed

section \<open>The heuristic\<close>

definition FINISH_AFTER_PENDING_SUMMARY :: pystr where
  "FINISH_AFTER_PENDING_SUMMARY = lit ''Refund submitted for operator approval.''"

definition FINISH_RESOLVED_SUMMARY :: pystr where
  "FINISH_RESOLVED_SUMMARY = lit ''Case resolved.''"

text \<open>The dictionary covers every member of \<open>RefundStatus\<close>, so its \<open>KeyError\<close> cannot occur.\<close>

fun refund_reply_by_status :: "refund_status \<Rightarrow> pystr \<times> pystr" where
  "refund_reply_by_status RS_PENDING_APPROVAL =
     (lit ''Refund pending approval'', lit ''Your refund request is pending operator approval.'')"
| "refund_reply_by_status RS_APPROVED =
     (lit ''Refund approved'', lit ''Your refund has been approved and will be processed shortly.'')"
| "refund_reply_by_status RS_EXECUTED =
     (lit ''Refund processed'', lit ''Your refund has been processed successfully.'')"
| "refund_reply_by_status RS_REJECTED =
     (lit ''Refund update'', lit ''Your refund request was not approved.'')"
| "refund_reply_by_status RS_EXPIRED =
     (lit ''Refund approval expired'', lit ''The approval window for your refund request has expired.'')"

text \<open>Only called with at least one order.\<close>

definition order_id_to_link :: "order_view list \<Rightarrow> pystr" where
  "order_id_to_link orders =
     (case find (\<lambda>order. ov_status order = OS_DELIVERED_DAMAGED) orders of
        Some order \<Rightarrow> ov_id order
      | None \<Rightarrow> ov_id (hd orders))"

definition linked_order_total :: "agent_state \<Rightarrow> decimal option" where
  "linked_order_total state =
     (case as_linked_order_id state of
        None \<Rightarrow> None
      | Some linked \<Rightarrow> map_option ov_total (find (\<lambda>order. ov_id order = linked) (as_orders state)))"

definition decide_heuristic_action :: "python \<Rightarrow> agent_state \<Rightarrow> json" where
  "decide_heuristic_action py state =
     (if \<not> as_verified state then jobj [(''action'', JStr (lit ''request_verification''))]
      else if \<not> as_orders_listed state then jobj [(''action'', JStr (lit ''get_orders''))]
      else case as_linked_order_id state of
        None \<Rightarrow>
          (if as_orders state = []
           then jobj [(''action'', JStr (lit ''escalate'')),
                      (''reason'', JStr (lit ''heuristic link_order requires at least one order in state''))]
           else jobj [(''action'', JStr (lit ''link_order'')),
                      (''order_id'', JStr (order_id_to_link (as_orders state)))])
      | Some linked \<Rightarrow>
          (case as_last_refund_status state of
             None \<Rightarrow>
               (case linked_order_total state of
                  None \<Rightarrow> jobj [(''action'', JStr (lit ''escalate'')),
                                (''reason'', JStr (lit ''linked order '' @ py_repr py (JStr linked) @
                                   lit '' missing from state.orders''))]
                | Some amount \<Rightarrow> jobj [(''action'', JStr (lit ''propose_refund'')),
                                      (''amount'', JStr (dec_format_f amount))])
           | Some status \<Rightarrow>
               (if status = RS_PENDING_APPROVAL
                then jobj [(''action'', JStr (lit ''finish'')), (''summary'', JStr FINISH_AFTER_PENDING_SUMMARY)]
                else if \<not> as_reply_sent_after_last_refund state
                then jobj [(''action'', JStr (lit ''send_reply'')),
                           (''subject'', JStr (fst (refund_reply_by_status status))),
                           (''body'', JStr (snd (refund_reply_by_status status)))]
                else jobj [(''action'', JStr (lit ''finish'')), (''summary'', JStr FINISH_RESOLVED_SUMMARY)])))"

definition heuristic_action_json :: "python \<Rightarrow> agent_state \<Rightarrow> pystr" where
  "heuristic_action_json py state = dumps True None (decide_heuristic_action py state)"

section \<open>In-process transports\<close>

definition heuristic_transport_invoke :: "python \<Rightarrow> nat list \<Rightarrow> error + nat list" where
  "heuristic_transport_invoke py request_bytes =
     bindE (deserialize_prompt_bytes py request_bytes) (\<lambda>prompt.
       utf8_encode (heuristic_action_json py (prompt_state prompt)))"

text \<open>A script of answers; the pending ones are its state.\<close>

definition scripted_transport_init :: "pystr list \<Rightarrow> error + nat list list" where
  "scripted_transport_init responses = mapE utf8_encode responses"

definition scripted_transport_invoke :: "nat list list \<Rightarrow> (error + nat list) \<times> nat list list" where
  "scripted_transport_invoke pending_outputs =
     (case pending_outputs of
        [] \<Rightarrow> (Inl (ScriptedModelExhaustedError (lit ''scripted model outputs exhausted'')), [])
      | answer # rest \<Rightarrow> (Inr answer, rest))"

end
