(* ===== verification/Heuristic_Menu.thy ===== *)
theory Heuristic_Menu
  imports Models Prompt_Bounds
begin

text \<open>
  The answers of the heuristic pass through the boundary: each parses to an action, and to one
  the menu of the prompt offers.
\<close>

section \<open>Parsing an answer\<close>

lemma strip_braces: "strip ([123] @ t @ [125]) = [123] @ t @ [125]"
  by (simp add: strip_def is_space_def)

lemma dumps_object_braces:
  assumes "kvs \<noteq> []"
  obtains t where "dumps True None (JObj kvs) = [123] @ t @ [125]"
proof -
  obtain kv kvs' where "kvs = kv # kvs'" using assms by (cases kvs) auto
  then have "\<exists>t. dumps True None (JObj kvs) = [123] @ t @ [125]"
    by (simp add: dumps_def bracketed_def newline_indent_def)
  with that show thesis by blast
qed

lemma parse_document:
  assumes "json_ok (JObj kvs)" and "json_depth (JObj kvs) \<le> depth" and "action_of_document to_decimal kvs = Some a"
    and "\<And>amount. a = ProposeRefund amount \<Longrightarrow> propose_refund_decimal_error amount = None"
  shows "parse to_decimal describe depth (dumps True None (JObj kvs)) = Inr (ParseSuccess a)"
proof -
  have "kvs \<noteq> []" using assms(3) by (auto simp: action_of_document_def field_def)
  then obtain t where "dumps True None (JObj kvs) = [123] @ t @ [125]" by (rule dumps_object_braces)
  then have "strip (dumps True None (JObj kvs)) = dumps True None (JObj kvs)" "dumps True None (JObj kvs) \<noteq> []"
    using strip_braces [of t] by simp_all
  with loads_dumps [OF assms(1,2), of True] assms(3,4) show ?thesis
    by (cases a) (simp_all add: parse_def validate_action_def)
qed

section \<open>The heuristic follows the menu\<close>

definition text_ok :: "nat \<Rightarrow> pystr \<Rightarrow> bool" where
  "text_ok hi s \<longleftrightarrow> length_between 1 hi s \<and> list_all scalar s"

lemma text_field_ok:
  "map_of d (lit k) = Some (JStr s) \<Longrightarrow> text_ok hi s \<Longrightarrow> text_field d k hi = Some s"
  by (auto simp: text_field_def field_def text_ok_def list_all_iff scalar_def)

lemma text_ok_lit: "list_all (\<lambda>c. c < 128) (lit s) \<Longrightarrow> 1 \<le> length s \<Longrightarrow> length s \<le> 4000 \<Longrightarrow> text_ok ACTION_TEXT_FIELD_MAX_LENGTH (lit s)"
  by (auto simp: text_ok_def length_between_def ACTION_TEXT_FIELD_MAX_LENGTH_def list_all_iff scalar_def lit_def)

text \<open>Documents of the shapes the heuristic writes.\<close>

lemma answers_read:
  "action_of_document td [(lit ''action'', JStr (lit ''request_verification''))] = Some RequestVerification"
  "action_of_document td [(lit ''action'', JStr (lit ''get_orders''))] = Some GetOrders"
  "text_ok ACTION_TEXT_FIELD_MAX_LENGTH r \<Longrightarrow>
   action_of_document td [(lit ''action'', JStr (lit ''escalate'')), (lit ''reason'', JStr r)] = Some (Escalate r)"
  "text_ok ACTION_ORDER_ID_MAX_LENGTH i \<Longrightarrow>
   action_of_document td [(lit ''action'', JStr (lit ''link_order'')), (lit ''order_id'', JStr i)] = Some (LinkOrder i)"
  "td (JStr t) = Some amount \<Longrightarrow>
   action_of_document td [(lit ''action'', JStr (lit ''propose_refund'')), (lit ''amount'', JStr t)] =
     Some (ProposeRefund amount)"
  "text_ok ACTION_TEXT_FIELD_MAX_LENGTH r \<Longrightarrow>
   action_of_document td [(lit ''action'', JStr (lit ''finish'')), (lit ''summary'', JStr r)] = Some (Finish r)"
  "text_ok ACTION_TEXT_FIELD_MAX_LENGTH r \<Longrightarrow> text_ok ACTION_TEXT_FIELD_MAX_LENGTH b \<Longrightarrow>
   action_of_document td [(lit ''action'', JStr (lit ''send_reply'')), (lit ''subject'', JStr r), (lit ''body'', JStr b)] =
     Some (SendReply r b)"
  by (simp_all add: action_of_document_def field_def text_field_ok has_only_def lit_def)

lemma reply_texts_ok:
  "text_ok ACTION_TEXT_FIELD_MAX_LENGTH (fst (refund_reply_by_status rs))"
  "text_ok ACTION_TEXT_FIELD_MAX_LENGTH (snd (refund_reply_by_status rs))"
  by (cases rs; simp; rule text_ok_lit; simp add: lit_def)+

lemma order_id_to_link_mem: "vs \<noteq> [] \<Longrightarrow> \<exists>v\<in>set vs. order_id_to_link vs = ov_id v"
  by (auto simp: order_id_to_link_def split: option.split dest: find_Some_mem)

lemma money_text_scalar:
  assumes "is_money d"
  shows "list_all scalar (dec_format_f d)"
proof -
  obtain n where d: "d = cents n" using assms by (rule is_moneyE)
  have "list_all scalar (nat_str n)"
    using nat_str_digits [of n] by (auto simp: list_all_iff is_digit_iff scalar_def)
  then show ?thesis
    by (auto simp: d cents_def place_point_def Let_def list_all_iff lit_def scalar_def dest: in_set_takeD in_set_dropD)
qed

lemma money_amount_ok: "is_money d \<Longrightarrow> propose_refund_decimal_error d = None"
  by (auto simp: cents_def propose_refund_decimal_error_def MAX_REFUND_DECIMAL_PLACES_def elim!: is_moneyE)

lemma texts_document_ok:
  assumes "list_all (\<lambda>(k, t). list_all scalar (lit k) \<and> list_all scalar t) kvs" and "distinct (map (\<lambda>(k, _). lit k) kvs)"
  shows "json_ok (JObj (map (\<lambda>(k, t). (lit k, JStr t)) kvs))"
    and "json_depth (JObj (map (\<lambda>(k, t). (lit k, JStr t)) kvs)) = 1"
proof -
  show "json_ok (JObj (map (\<lambda>(k, t). (lit k, JStr t)) kvs))"
    using assms by (auto simp: list_all_iff split_def comp_def)
  have "foldr max (map (\<lambda>(k, v). json_depth v) (map (\<lambda>(k, t). (lit k, JStr t)) kvs)) 0 \<le> 0"
    by (subst foldr_max_le) auto
  then show "json_depth (JObj (map (\<lambda>(k, t). (lit k, JStr t)) kvs)) = 1" by simp
qed

text \<open>An answer written from texts parses to the action its document reads as.\<close>

lemma answer_parses:
  assumes "decide_heuristic_action py st = jobj (map (\<lambda>(k, t). (k, JStr t)) kvs)"
    and "list_all (\<lambda>(k, t). list_all scalar (lit k) \<and> list_all scalar t) kvs" "distinct (map (\<lambda>(k, _). lit k) kvs)"
    and "action_of_document td (map (\<lambda>(k, t). (lit k, JStr t)) kvs) = Some a" and "1 \<le> depth"
    and "\<And>amount. a = ProposeRefund amount \<Longrightarrow> propose_refund_decimal_error amount = None"
  shows "parse td describe depth (heuristic_action_json py st) = Inr (ParseSuccess a)"
proof -
  have "decide_heuristic_action py st = JObj (map (\<lambda>(k, t). (lit k, JStr t)) kvs)"
    by (simp add: assms(1) jobj_def split_def comp_def)
  with parse_document [OF texts_document_ok(1) [OF assms(2,3)] _ assms(4,6)] texts_document_ok(2) [OF assms(2,3)] assms(5)
  show ?thesis by (simp add: heuristic_action_json_def)
qed

lemma heuristic_answer:
  assumes ids: "\<forall>v\<in>set (as_orders st). text_ok ACTION_ORDER_ID_MAX_LENGTH (ov_id v) \<and> is_money (ov_total v)"
    and linked: "\<And>l. as_linked_order_id st = Some l \<Longrightarrow> l \<in> ov_id ` set (as_orders st)"
    and td: "\<And>d. is_money d \<Longrightarrow> td (JStr (dec_format_f d)) = Some d" and depth: "1 \<le> depth"
  obtains a where "parse td describe depth (heuristic_action_json py st) = Inr (ParseSuccess a)"
    and "a = RequestVerification \<and> \<not> as_verified st \<or> a = GetOrders \<and> \<not> as_orders_listed st \<or>
      (\<exists>i. a = LinkOrder i) \<and> as_orders_listed st \<and> as_linked_order_id st = None \<or>
      (\<exists>m. a = ProposeRefund m) \<and> as_linked_order_id st \<noteq> None \<or>
      (\<exists>x y. a = SendReply x y) \<and> as_last_refund_status st \<noteq> None \<and> \<not> as_reply_sent_after_last_refund st \<or>
      (\<exists>r. a = Escalate r) \<or> (\<exists>r. a = Finish r)"
proof -
  note parses = answer_parses [OF _ _ _ _ depth]
  show thesis
  proof (cases "as_verified st")
    case False
    have "parse td describe depth (heuristic_action_json py st) = Inr (ParseSuccess RequestVerification)"
      by (rule parses [where kvs = "[(''action'', lit ''request_verification'')]"])
        (simp_all add: decide_heuristic_action_def False answers_read, simp_all add: lit_def scalar_def)
    then show thesis by (rule that) (simp add: False)
  next
    case verified: True
    show thesis
    proof (cases "as_orders_listed st")
      case False
      have "parse td describe depth (heuristic_action_json py st) = Inr (ParseSuccess GetOrders)"
        by (rule parses [where kvs = "[(''action'', lit ''get_orders'')]"])
          (simp_all add: decide_heuristic_action_def verified False answers_read, simp_all add: lit_def scalar_def)
      then show thesis by (rule that) (simp add: False)
    next
      case listed: True
      show thesis
      proof (cases "as_linked_order_id st")
        case unlinked: None
        show thesis
        proof (cases "as_orders st = []")
          case True
          let ?r = "lit ''heuristic link_order requires at least one order in state''"
          have "text_ok ACTION_TEXT_FIELD_MAX_LENGTH ?r" by (rule text_ok_lit) (simp_all add: lit_def)
          then have "parse td describe depth (heuristic_action_json py st) = Inr (ParseSuccess (Escalate ?r))"
            by (intro parses [where kvs = "[(''action'', lit ''escalate''), (''reason'', ?r)]"])
              (simp_all add: decide_heuristic_action_def verified listed unlinked True answers_read, simp_all add: lit_def scalar_def)
          then show thesis by (rule that) simp
        next
          case False
          let ?i = "order_id_to_link (as_orders st)"
          have i: "text_ok ACTION_ORDER_ID_MAX_LENGTH ?i" using order_id_to_link_mem [OF False] ids by auto
          then have "parse td describe depth (heuristic_action_json py st) = Inr (ParseSuccess (LinkOrder ?i))"
            by (intro parses [where kvs = "[(''action'', lit ''link_order''), (''order_id'', ?i)]"])
              (simp_all add: decide_heuristic_action_def verified listed unlinked False answers_read text_ok_def,
                simp_all add: lit_def scalar_def)
          then show thesis by (rule that) (simp add: listed unlinked)
        qed
      next
        case link: (Some l)
        show thesis
        proof (cases "as_last_refund_status st")
          case none: None
          from linked [OF link] have "find (\<lambda>v. ov_id v = l) (as_orders st) \<noteq> None" by (auto simp: find_None_iff)
          then obtain v where v: "find (\<lambda>v. ov_id v = l) (as_orders st) = Some v" by blast
          have money: "is_money (ov_total v)" using find_Some_mem [OF v] ids by simp
          have "parse td describe depth (heuristic_action_json py st) = Inr (ParseSuccess (ProposeRefund (ov_total v)))"
            by (rule parses [where kvs = "[(''action'', lit ''propose_refund''), (''amount'', dec_format_f (ov_total v))]"])
              (use money_amount_ok [OF money] in \<open>simp_all add: decide_heuristic_action_def verified listed link none
                 linked_order_total_def v answers_read td [OF money] money_text_scalar [OF money]\<close>,
               simp_all add: lit_def scalar_def)
          then show thesis by (rule that) (simp add: link)
        next
          case some: (Some rs)
          have summaries: "text_ok ACTION_TEXT_FIELD_MAX_LENGTH FINISH_AFTER_PENDING_SUMMARY"
            "text_ok ACTION_TEXT_FIELD_MAX_LENGTH FINISH_RESOLVED_SUMMARY"
            unfolding FINISH_AFTER_PENDING_SUMMARY_def FINISH_RESOLVED_SUMMARY_def
            by (rule text_ok_lit; simp add: lit_def)+
          consider "rs = RS_PENDING_APPROVAL" | "rs \<noteq> RS_PENDING_APPROVAL" "as_reply_sent_after_last_refund st"
            | "rs \<noteq> RS_PENDING_APPROVAL" "\<not> as_reply_sent_after_last_refund st" by blast
          then show thesis
          proof cases
            case 1
            have "parse td describe depth (heuristic_action_json py st) = Inr (ParseSuccess (Finish FINISH_AFTER_PENDING_SUMMARY))"
              using summaries(1)
              by (intro parses [where kvs = "[(''action'', lit ''finish''), (''summary'', FINISH_AFTER_PENDING_SUMMARY)]"])
                (simp_all add: decide_heuristic_action_def verified listed link some 1 answers_read text_ok_def,
                  simp_all add: lit_def scalar_def)
            then show thesis by (rule that) simp
          next
            case 2
            have "parse td describe depth (heuristic_action_json py st) = Inr (ParseSuccess (Finish FINISH_RESOLVED_SUMMARY))"
              using summaries(2)
              by (intro parses [where kvs = "[(''action'', lit ''finish''), (''summary'', FINISH_RESOLVED_SUMMARY)]"])
                (simp_all add: decide_heuristic_action_def verified listed link some 2 answers_read text_ok_def,
                  simp_all add: lit_def scalar_def)
            then show thesis by (rule that) simp
          next
            case 3
            let ?r = "refund_reply_by_status rs"
            have "parse td describe depth (heuristic_action_json py st) = Inr (ParseSuccess (SendReply (fst ?r) (snd ?r)))"
              using reply_texts_ok [of rs]
              by (intro parses [where kvs = "[(''action'', lit ''send_reply''), (''subject'', fst ?r), (''body'', snd ?r)]"])
                (simp_all add: decide_heuristic_action_def verified listed link some 3 answers_read text_ok_def,
                  simp_all add: lit_def scalar_def)
            then show thesis by (rule that) (simp add: some 3)
          qed
        qed
      qed
    qed
  qed
qed

text \<open>C20: the heuristic model works within the protocol.  On every state the application builds for
  a prompt, with valid order numbers, money totals and a linked order among those shown, its
  answer parses to an action, never to a failure, and the action is one the state's menu offers.
  (Pydantic is taken to read the text of a money amount as that amount.)\<close>

theorem heuristic_follows_the_menu:
  assumes "st = build_agent_state cs cust seeds (available_actions cs cust)"
    and "\<forall>seed\<in>set seeds. text_ok ACTION_ORDER_ID_MAX_LENGTH (osv_order_id seed) \<and> is_money (osv_total seed)"
    and "\<And>l. cs_linked_order_id cs = Some l \<Longrightarrow> l \<in> osv_order_id ` set seeds"
    and "\<And>d. is_money d \<Longrightarrow> to_decimal (JStr (dec_format_f d)) = Some d" and "1 \<le> depth"
  shows "\<exists>a. parse to_decimal describe depth (heuristic_action_json py st) = Inr (ParseSuccess a) \<and>
    action_discriminator a \<in> set (as_menu st)"
proof -
  have fields: "as_verified st = cust_verified cust" "as_orders_listed st = cs_orders_listed cs"
    "as_linked_order_id st = cs_linked_order_id cs" "as_last_refund_status st = cs_last_refund_status cs"
    "as_reply_sent_after_last_refund st = cs_reply_sent_after_last_refund cs"
    "as_menu st = available_actions cs cust"
    using assms(1) by (simp_all add: build_agent_state_def)
  have orders: "ov_id ` set (as_orders st) = osv_order_id ` set seeds"
    "\<forall>v\<in>set (as_orders st). text_ok ACTION_ORDER_ID_MAX_LENGTH (ov_id v) \<and> is_money (ov_total v)"
    using assms(1,2) by (simp_all add: build_agent_state_def image_image)
  have linked: "l \<in> ov_id ` set (as_orders st)" if "as_linked_order_id st = Some l" for l
    using assms(3) that orders(1) fields(3) by simp
  obtain a where "parse to_decimal describe depth (heuristic_action_json py st) = Inr (ParseSuccess a)"
    and "a = RequestVerification \<and> \<not> as_verified st \<or> a = GetOrders \<and> \<not> as_orders_listed st \<or>
      (\<exists>i. a = LinkOrder i) \<and> as_orders_listed st \<and> as_linked_order_id st = None \<or>
      (\<exists>m. a = ProposeRefund m) \<and> as_linked_order_id st \<noteq> None \<or>
      (\<exists>x y. a = SendReply x y) \<and> as_last_refund_status st \<noteq> None \<and> \<not> as_reply_sent_after_last_refund st \<or>
      (\<exists>r. a = Escalate r) \<or> (\<exists>r. a = Finish r)"
    by (rule heuristic_answer [OF orders(2) linked assms(4,5)])
  moreover from this(2) have "action_discriminator a \<in> set (as_menu st)"
    unfolding fields by (elim disjE conjE exE) (simp_all add: available_actions_def)
  ultimately show ?thesis by blast
qed

definition money_reader :: "json \<Rightarrow> decimal option" where
  "money_reader v = (case v of JStr t \<Rightarrow> dec_of_fixed t | _ \<Rightarrow> None)"

theorem heuristic_follows_the_menu_witness:
  "let st = build_agent_state sample_summary sample_customer
         [sample_seed (lit ''ORD-1002'') (lit ''cust_sophie'')] (available_actions sample_summary sample_customer) in
   \<exists>a. parse money_reader (\<lambda>_. ([], [])) 5 (heuristic_action_json sample_python st) = Inr (ParseSuccess a) \<and>
    action_discriminator a \<in> set (as_menu st)"
proof -
  have "money_reader (JStr (dec_format_f d)) = Some d" if money: "is_money d" for d
  proof -
    obtain n where "d = Dec False n (-2)" using is_moneyE [OF money] unfolding cents_def by blast
    then show ?thesis by (simp add: money_reader_def dec_of_fixed_format del: dec_format_f.simps)
  qed
  moreover have "text_ok ACTION_ORDER_ID_MAX_LENGTH (lit ''ORD-1002'')"
    by (simp add: text_ok_def length_between_def ACTION_ORDER_ID_MAX_LENGTH_def lit_def scalar_def)
  ultimately show ?thesis
    unfolding Let_def
    by (intro heuristic_follows_the_menu [OF refl]) (simp_all add: sample_seed_def sample_summary_def)
qed

end
