(* ===== verification/Worker.thy ===== *)
theory Worker
  imports Models Json_Size
begin

text \<open>
  The isolated worker (\<open>worker/saferefund_model_worker\<close>): its own decoding of the request, its
  own copy of the heuristic over undeclared JSON values, the main function, and the transport that
  runs it (\<open>SubprocessModelGatewayTransport\<close> of \<open>agent/gateway.py\<close>).  What the operating system
  does to the process is an argument.
\<close>

section \<open>The request as the worker reads it\<close>

record prompt_state_data =
  ws_verified :: json
  ws_orders :: "json list"
  ws_orders_listed :: json
  ws_linked_order_id :: json
  ws_last_refund_status :: json
  ws_reply_sent_after_last_refund :: json
  ws_menu :: "json list"

record prompt_data =
  wp_text :: json
  wp_state :: prompt_state_data

definition decode_prompt :: "python \<Rightarrow> nat list \<Rightarrow> error + prompt_data" where
  "decode_prompt py prompt_bytes =
     bindE (utf8_decode prompt_bytes) (\<lambda>text.
     bindE (loads (py_json_depth py) text) (\<lambda>document.
     bindE (subscript document ''state'') (\<lambda>d.
     bindE (subscript d ''verified'') (\<lambda>verified.
     bindE (subscript d ''orders'') (\<lambda>os. bindE (as_tuple os) (\<lambda>orders.
     bindE (subscript d ''orders_listed'') (\<lambda>orders_listed.
     bindE (subscript d ''linked_order_id'') (\<lambda>linked_order_id.
     bindE (subscript d ''last_refund_status'') (\<lambda>last_refund_status.
     bindE (subscript d ''reply_sent_after_last_refund'') (\<lambda>reply_sent.
     bindE (subscript d ''menu'') (\<lambda>m. bindE (as_tuple m) (\<lambda>menu.
     bindE (subscript document ''text'') (\<lambda>prompt_text.
       Inr \<lparr>wp_text = prompt_text,
            wp_state = \<lparr>ws_verified = verified, ws_orders = orders, ws_orders_listed = orders_listed,
              ws_linked_order_id = linked_order_id, ws_last_refund_status = last_refund_status,
              ws_reply_sent_after_last_refund = reply_sent, ws_menu = menu\<rparr>\<rparr>)))))))))))))"

text \<open>Truth and equality of JSON values; strings are compared by value with strings only.\<close>

definition truthy :: "python \<Rightarrow> json \<Rightarrow> bool" where
  "truthy py v =
     (case v of
        JNull \<Rightarrow> False | JBool b \<Rightarrow> b | JInt i \<Rightarrow> i \<noteq> 0 | JFloat f \<Rightarrow> py_float_true py f
      | JStr s \<Rightarrow> s \<noteq> [] | JList xs \<Rightarrow> xs \<noteq> [] | JObj kvs \<Rightarrow> kvs \<noteq> [])"

definition equal_values :: "python \<Rightarrow> json \<Rightarrow> json \<Rightarrow> bool" where
  "equal_values py a b =
     (case a of
        JStr s \<Rightarrow> b = JStr s
      | _ \<Rightarrow> (case b of JStr _ \<Rightarrow> False | _ \<Rightarrow> py_equal py a b))"

section \<open>The worker's heuristic\<close>

text \<open>The worker imports nothing of the application, so its texts are its own.\<close>

definition WORKER_FINISH_AFTER_PENDING_SUMMARY :: pystr where
  "WORKER_FINISH_AFTER_PENDING_SUMMARY = lit ''Refund submitted for operator approval.''"

definition WORKER_FINISH_RESOLVED_SUMMARY :: pystr where
  "WORKER_FINISH_RESOLVED_SUMMARY = lit ''Case resolved.''"

definition WORKER_REFUND_REPLY_BY_STATUS :: "(pystr \<times> pystr \<times> pystr) list" where
  "WORKER_REFUND_REPLY_BY_STATUS =
     [(lit ''pending_approval'', lit ''Refund pending approval'',
       lit ''Your refund request is pending operator approval.''),
      (lit ''approved'', lit ''Refund approved'',
       lit ''Your refund has been approved and will be processed shortly.''),
      (lit ''executed'', lit ''Refund processed'', lit ''Your refund has been processed successfully.''),
      (lit ''rejected'', lit ''Refund update'', lit ''Your refund request was not approved.''),
      (lit ''expired'', lit ''Refund approval expired'',
       lit ''The approval window for your refund request has expired.'')]"

fun worker_order_id_to_link_from :: "python \<Rightarrow> json list \<Rightarrow> error + json option" where
  "worker_order_id_to_link_from py [] = Inr None"
| "worker_order_id_to_link_from py (order # orders) =
     bindE (subscript order ''status'') (\<lambda>status.
       if equal_values py status (JStr (lit ''delivered_damaged''))
       then bindE (subscript order ''id'') (\<lambda>i. Inr (Some i))
       else worker_order_id_to_link_from py orders)"

definition worker_order_id_to_link :: "python \<Rightarrow> json list \<Rightarrow> error + json" where
  "worker_order_id_to_link py orders =
     bindE (worker_order_id_to_link_from py orders) (\<lambda>found.
       case found of Some i \<Rightarrow> Inr i | None \<Rightarrow> subscript (hd orders) ''id'')"

fun worker_total_of :: "python \<Rightarrow> json \<Rightarrow> json list \<Rightarrow> error + decimal option" where
  "worker_total_of py linked [] = Inr None"
| "worker_total_of py linked (order # orders) =
     bindE (subscript order ''id'') (\<lambda>i.
       if equal_values py i linked
       then bindE (subscript order ''total'') (\<lambda>t. bindE (decimal_of py t) (\<lambda>amount. Inr (Some amount)))
       else worker_total_of py linked orders)"

definition worker_linked_order_total :: "python \<Rightarrow> prompt_state_data \<Rightarrow> error + decimal option" where
  "worker_linked_order_total py state =
     (if ws_linked_order_id state = JNull then Inr None
      else worker_total_of py (ws_linked_order_id state) (ws_orders state))"

text \<open>A list or a dictionary is not hashable; any other key that is not in the table raises \<open>ValueError\<close>.\<close>

definition worker_refund_reply_by_status :: "python \<Rightarrow> json \<Rightarrow> error + pystr \<times> pystr" where
  "worker_refund_reply_by_status py refund_status =
     (case (case refund_status of JStr s \<Rightarrow> map_of WORKER_REFUND_REPLY_BY_STATUS s | _ \<Rightarrow> None) of
        Some reply \<Rightarrow> Inr reply
      | None \<Rightarrow>
          (case refund_status of
             JList _ \<Rightarrow> Inl (TypeError (lit ''unhashable type''))
           | JObj _ \<Rightarrow> Inl (TypeError (lit ''unhashable type''))
           | _ \<Rightarrow> Inl (ValueError (lit ''no reply template for refund status '' @ py_repr py refund_status))))"

definition worker_decide_heuristic_action :: "python \<Rightarrow> prompt_data \<Rightarrow> error + json" where
  "worker_decide_heuristic_action py prompt =
     (let state = wp_state prompt in
      if \<not> truthy py (ws_verified state) then Inr (jobj [(''action'', JStr (lit ''request_verification''))])
      else if \<not> truthy py (ws_orders_listed state) then Inr (jobj [(''action'', JStr (lit ''get_orders''))])
      else if ws_linked_order_id state = JNull then
        (if ws_orders state = []
         then Inr (jobj [(''action'', JStr (lit ''escalate'')),
                (''reason'', JStr (lit ''heuristic link_order requires at least one order in state''))])
         else bindE (worker_order_id_to_link py (ws_orders state)) (\<lambda>i.
                Inr (jobj [(''action'', JStr (lit ''link_order'')), (''order_id'', i)])))
      else if ws_last_refund_status state = JNull then
        bindE (worker_linked_order_total py state) (\<lambda>found. case found of
            None \<Rightarrow> Inr (jobj [(''action'', JStr (lit ''escalate'')),
                       (''reason'', JStr (lit ''linked order '' @ py_repr py (ws_linked_order_id state) @
                          lit '' missing from state.orders''))])
          | Some amount \<Rightarrow> Inr (jobj [(''action'', JStr (lit ''propose_refund'')),
                              (''amount'', JStr (dec_format_f amount))]))
      else if equal_values py (ws_last_refund_status state) (JStr (lit ''pending_approval''))
      then Inr (jobj [(''action'', JStr (lit ''finish'')), (''summary'', JStr WORKER_FINISH_AFTER_PENDING_SUMMARY)])
      else if \<not> truthy py (ws_reply_sent_after_last_refund state)
      then bindE (worker_refund_reply_by_status py (ws_last_refund_status state)) (\<lambda>(subject, body).
             Inr (jobj [(''action'', JStr (lit ''send_reply'')), (''subject'', JStr subject), (''body'', JStr body)]))
      else Inr (jobj [(''action'', JStr (lit ''finish'')), (''summary'', JStr WORKER_FINISH_RESOLVED_SUMMARY)]))"

definition propose_heuristic :: "python \<Rightarrow> nat list \<Rightarrow> error + nat list" where
  "propose_heuristic py prompt_bytes =
     bindE (decode_prompt py prompt_bytes) (\<lambda>prompt.
     bindE (worker_decide_heuristic_action py prompt) (\<lambda>action_payload.
       utf8_encode (dumps True None action_payload)))"

section \<open>The process\<close>

text \<open>
  The worker's \<open>main\<close> on the chunks its standard input delivers, after the import path has been
  verified and the limits applied: the exit status with what it writes to standard output and
  standard error.  An exception other than a protocol violation ends the interpreter with status
  1; the traceback is the interpreter's.
\<close>

record process_exit =
  px_status :: int
  px_stdout :: "nat list"
  px_stderr :: pystr

definition worker_main :: "python \<Rightarrow> (error \<Rightarrow> pystr) \<Rightarrow> nat \<Rightarrow> nat \<Rightarrow> nat list list \<Rightarrow> process_exit" where
  "worker_main py traceback request_max_bytes response_max_bytes stdin =
     (case bindE (read_message stdin request_max_bytes) (\<lambda>(request_bytes, _).
             bindE (propose_heuristic py request_bytes) (\<lambda>response_bytes.
               write_message response_bytes response_max_bytes)) of
        Inr written \<Rightarrow> \<lparr>px_status = 0, px_stdout = written, px_stderr = []\<rparr>
      | Inl (ProtocolViolationError msg) \<Rightarrow> \<lparr>px_status = 2, px_stdout = [], px_stderr = msg @ [10]\<rparr>
      | Inl e \<Rightarrow> \<lparr>px_status = 1, px_stdout = [], px_stderr = traceback e\<rparr>)"

text \<open>What the operating system makes of running the worker on an input: \<open>None\<close> is the wall-clock limit.\<close>

type_synonym process = "nat list \<Rightarrow> process_exit option"

definition subprocess_transport_invoke :: "process \<Rightarrow> nat list \<Rightarrow> error + nat list" where
  "subprocess_transport_invoke run_worker request_bytes =
     (if length request_bytes > MODEL_WORKER_MAX_REQUEST_BYTES
      then Inl (ModelGatewayProtocolError (lit ''model request exceeds configured byte limit ('' @
             nat_str (length request_bytes) @ lit '' > '' @ nat_str MODEL_WORKER_MAX_REQUEST_BYTES @ lit '')''))
      else bindE (frame_message request_bytes) (\<lambda>input.
        case run_worker input of
          None \<Rightarrow> Inl (ModelGatewayProtocolError (lit ''model worker exceeded wall-clock limit''))
        | Some finished \<Rightarrow>
            if px_status finished \<noteq> 0
            then (let detail = strip (px_stderr finished);
                      message = lit ''model worker exited with status '' @ int_str (px_status finished) in
                  Inl (ModelGatewayProtocolError (if detail \<noteq> [] then message @ lit '': '' @ detail else message)))
            else read_framed_message (px_stdout finished)))"

text \<open>The environment of the worker: fixed settings, and of the host's variables the listed ones.\<close>

definition WORKER_ENV_ALLOWLIST :: "pystr list" where
  "WORKER_ENV_ALLOWLIST = map lit [''PATH'', ''HOME'', ''LANG'', ''LC_ALL'', ''TMPDIR'', ''TEMP'', ''TMP'']"

definition MODEL_WORKER_CPU_SECONDS :: nat where "MODEL_WORKER_CPU_SECONDS = 5"
definition MODEL_WORKER_MEMORY_BYTES :: nat where "MODEL_WORKER_MEMORY_BYTES = 128 * 1024 * 1024"

definition worker_environment :: "pystr \<Rightarrow> (pystr \<rightharpoonup> pystr) \<Rightarrow> pystr \<rightharpoonup> pystr" where
  "worker_environment worker_root environ =
     foldl (\<lambda>environment key. case environ key of None \<Rightarrow> environment | Some v \<Rightarrow> environment(key \<mapsto> v))
       (map_of [(lit ''PYTHONNOUSERSITE'', lit ''1''), (lit ''PYTHONPATH'', worker_root),
          (lit ''SAFEREFUND_WORKER_CPU_SECONDS'', nat_str MODEL_WORKER_CPU_SECONDS),
          (lit ''SAFEREFUND_WORKER_MEMORY_BYTES'', nat_str MODEL_WORKER_MEMORY_BYTES),
          (lit ''SAFEREFUND_WORKER_REQUEST_MAX_BYTES'', nat_str MODEL_WORKER_MAX_REQUEST_BYTES),
          (lit ''SAFEREFUND_WORKER_RESPONSE_MAX_BYTES'', nat_str MODEL_RESPONSE_MAX_BYTES)])
       WORKER_ENV_ALLOWLIST"

section \<open>The worker agrees with the application\<close>

lemma prompt_document_depth: "json_depth (prompt_document p) \<le> 5"
proof -
  have "json_depth (serialize_order_view v) \<le> 2" for v
    by (simp add: serialize_order_view_def jobj_def)
  then have "json_depth (JList (map serialize_order_view orders)) \<le> 3" for orders
    by (simp add: foldr_max_le)
  then have "json_depth (serialize_state st) \<le> 4" for st
    by (auto simp: serialize_state_def jobj_def jopt_def foldr_max_le split: option.split)
  then show ?thesis by (simp add: prompt_document_def jobj_def le_Suc_eq)
qed

definition state_data :: "agent_state \<Rightarrow> prompt_state_data" where
  "state_data st =
     \<lparr>ws_verified = JBool (as_verified st), ws_orders = map serialize_order_view (as_orders st),
      ws_orders_listed = JBool (as_orders_listed st), ws_linked_order_id = jopt (as_linked_order_id st),
      ws_last_refund_status = jopt (map_option refund_status_value (as_last_refund_status st)),
      ws_reply_sent_after_last_refund = JBool (as_reply_sent_after_last_refund st),
      ws_menu = map JStr (as_menu st)\<rparr>"

lemma decode_serialized:
  assumes "json_ok (prompt_document p)" and "5 \<le> py_json_depth py" and "serialize_prompt p = Inr bytes"
  shows "decode_prompt py bytes = Inr \<lparr>wp_text = JStr (prompt_text p), wp_state = state_data (prompt_state p)\<rparr>"
proof -
  have "loads (py_json_depth py) (dumps False None (prompt_document p)) = Inr (prompt_document p)"
    using assms(2) prompt_document_depth [of p] by (intro loads_dumps [OF assms(1)]) simp
  moreover have "utf8_decode bytes = Inr (dumps False None (prompt_document p))"
    using assms(3) by (simp add: serialize_prompt_def utf8_decode_encode)
  moreover have "subscript (prompt_document p) ''state'' = Inr (serialize_state (prompt_state p))"
    "subscript (prompt_document p) ''text'' = Inr (JStr (prompt_text p))"
    by (simp_all add: prompt_document_def subscript_jobj lit_def)
  ultimately show ?thesis
    by (simp add: decode_prompt_def serialized_fields as_tuple_def state_data_def)
qed

lemma order_fields:
  "subscript (serialize_order_view v) ''status'' = Inr (JStr (order_status_value (ov_status v)))"
  "subscript (serialize_order_view v) ''id'' = Inr (JStr (ov_id v))"
  "subscript (serialize_order_view v) ''total'' = Inr (JStr (dec_format_f (ov_total v)))"
  by (simp_all add: serialize_order_view_def subscript_jobj lit_def)

lemma damaged_value:
  "lit ''delivered_damaged'' = order_status_value st \<longleftrightarrow> st = OS_DELIVERED_DAMAGED"
  "order_status_value st = lit ''delivered_damaged'' \<longleftrightarrow> st = OS_DELIVERED_DAMAGED"
  by (cases st; simp add: lit_def)+

lemma worker_link_from:
  "worker_order_id_to_link_from py (map serialize_order_view vs) =
     Inr (map_option (\<lambda>v. JStr (ov_id v)) (find (\<lambda>v. ov_status v = OS_DELIVERED_DAMAGED) vs))"
  by (induction vs) (simp_all add: order_fields equal_values_def damaged_value)

lemma worker_total:
  "list_all sendable_order vs \<Longrightarrow> worker_total_of py (JStr linked) (map serialize_order_view vs) =
     Inr (map_option ov_total (find (\<lambda>v. ov_id v = linked) vs))"
proof (induction vs)
  case (Cons v vs)
  have "decimal_of py (JStr (dec_format_f (ov_total v))) = Inr (ov_total v)"
    using Cons.prems by (cases "ov_total v") (simp_all add: sendable_order_def decimal_of_def dec_of_fixed_format del: dec_format_f.simps)
  with Cons show ?case by (auto simp: order_fields equal_values_def)
qed simp

lemma worker_texts:
  "WORKER_FINISH_AFTER_PENDING_SUMMARY = FINISH_AFTER_PENDING_SUMMARY"
  "WORKER_FINISH_RESOLVED_SUMMARY = FINISH_RESOLVED_SUMMARY"
  "worker_refund_reply_by_status py (JStr (refund_status_value rs)) = Inr (refund_reply_by_status rs)"
  by (simp_all add: WORKER_FINISH_AFTER_PENDING_SUMMARY_def FINISH_AFTER_PENDING_SUMMARY_def
      WORKER_FINISH_RESOLVED_SUMMARY_def FINISH_RESOLVED_SUMMARY_def)
    (cases rs; simp add: worker_refund_reply_by_status_def WORKER_REFUND_REPLY_BY_STATUS_def lit_def)

lemma worker_decides_the_same:
  assumes "list_all sendable_order (as_orders st)"
  shows "worker_decide_heuristic_action py \<lparr>wp_text = t, wp_state = state_data st\<rparr> =
    Inr (decide_heuristic_action py st)"
proof (cases "as_linked_order_id st")
  case None
  then show ?thesis
    by (auto simp: worker_decide_heuristic_action_def decide_heuristic_action_def state_data_def truthy_def jopt_def
        worker_order_id_to_link_def order_id_to_link_def worker_link_from order_fields hd_map split: option.split)
next
  case (Some linked)
  show ?thesis
  proof (cases "as_last_refund_status st")
    case None
    with Some assms show ?thesis
      by (auto simp: worker_decide_heuristic_action_def decide_heuristic_action_def state_data_def truthy_def jopt_def
          worker_linked_order_total_def linked_order_total_def worker_total split: option.split)
  next
    case (Some rs)
    have "refund_status_value rs = lit ''pending_approval'' \<longleftrightarrow> rs = RS_PENDING_APPROVAL"
      by (cases rs) (simp_all add: lit_def)
    with Some \<open>as_linked_order_id st = Some linked\<close> show ?thesis
      by (auto simp: worker_decide_heuristic_action_def decide_heuristic_action_def state_data_def truthy_def jopt_def
          equal_values_def worker_texts split: prod.split)
  qed
qed

text \<open>An answer is ASCII, so its encoding cannot fail and has its length.\<close>

lemma utf8_encode_ascii: "list_all (\<lambda>c. c < 128) s \<Longrightarrow> utf8_encode s = Inr s"
  by (induction s) (simp_all add: utf8_char_def)

lemma hex4_ascii: "list_all (\<lambda>c. c < 128) (hex4 n)"
proof -
  have "hex_digit d < 128" if "d < 16" for d using that by (simp add: hex_digit_def)
  then show ?thesis by (simp add: hex4_def)
qed

lemma escape_ascii: "list_all (\<lambda>c. c < 128) (escape_char True c)"
  using hex4_ascii by (simp add: escape_char_def escape_u_def)

lemma quote_ascii: "list_all (\<lambda>c. c < 128) (quote_str True s)"
  using escape_ascii by (induction s) (simp_all add: quote_str_def)

lemma joined_all: "list_all P sep \<Longrightarrow> list_all (list_all P) xs \<Longrightarrow> list_all P (joined sep xs)"
  by (induction sep xs rule: joined.induct) simp_all

lemma texts_ascii: "list_all (\<lambda>c. c < 128) (dumps True None (jobj (map (\<lambda>(k, s). (k, JStr s)) kvs)))"
proof -
  have "list_all (list_all (\<lambda>c. c < 128)) (map (\<lambda>(k, v). quote_str True k @ [58, 32] @ dumps_at True None (Suc 0) v)
      (map (\<lambda>(k, v). (lit k, v)) (map (\<lambda>(k, s). (k, JStr s)) kvs)))"
    using quote_ascii by (induction kvs) auto
  then show ?thesis
    unfolding dumps_def jobj_def dumps_at.simps
    by (simp only: bracketed_def newline_indent_def item_separator_def option.case append_Nil append_Nil2 list.map_comp)
      (simp add: joined_all)
qed

lemma answer_ascii: "list_all (\<lambda>c. c < 128) (heuristic_action_json py st)"
proof -
  have "\<exists>kvs. decide_heuristic_action py st = jobj (map (\<lambda>(k, s). (k, JStr s)) kvs)"
  proof -
    have "\<exists>kvs. jobj [(''action'', JStr a)] = jobj (map (\<lambda>(k, s). (k, JStr s)) kvs)"
      "\<exists>kvs. jobj [(''action'', JStr a), (k, JStr t)] = jobj (map (\<lambda>(k, s). (k, JStr s)) kvs)"
      "\<exists>kvs. jobj [(''action'', JStr a), (k, JStr t), (k', JStr t')] = jobj (map (\<lambda>(k, s). (k, JStr s)) kvs)"
      for a k t k' t'
      by (rule exI [of _ "[(''action'', a)]"], simp, rule exI [of _ "[(''action'', a), (k, t)]"], simp,
          rule exI [of _ "[(''action'', a), (k, t), (k', t')]"], simp)
    then show ?thesis by (simp add: decide_heuristic_action_def split: option.split)
  qed
  with texts_ascii show ?thesis by (auto simp: heuristic_action_json_def)
qed

text \<open>C19: the isolated worker is the in-process heuristic.  For every prompt the application can
  send, and however the pipe cuts the request into chunks, the subprocess transport over the
  worker's main function returns byte for byte what the in-process transport returns, namely the
  UTF-8 of the heuristic's answer to the state that was sent; so the two copies of the heuristic,
  one on typed states and one on raw JSON values, decide alike.\<close>

theorem worker_equals_in_process_heuristic:
  assumes "json_ok (prompt_document p)" and "5 \<le> py_json_depth py"
    and "list_all sendable_order (as_orders (prompt_state p))"
    and "serialize_prompt p = Inr request" and "length request \<le> MODEL_WORKER_MAX_REQUEST_BYTES"
    and "length (heuristic_action_json py (prompt_state p)) \<le> MODEL_RESPONSE_MAX_BYTES"
    and "\<And>input. concat (pipe input) = input \<and> [] \<notin> set (pipe input)"
  shows "subprocess_transport_invoke
      (\<lambda>input. Some (worker_main py traceback MODEL_WORKER_MAX_REQUEST_BYTES MODEL_RESPONSE_MAX_BYTES (pipe input)))
      request = heuristic_transport_invoke py request \<and>
    heuristic_transport_invoke py request = utf8_encode (heuristic_action_json py (prompt_state p))"
proof -
  let ?answer = "heuristic_action_json py (prompt_state p)"
  have depth: "json_depth (prompt_document p) \<le> py_json_depth py"
    using assms(2) prompt_document_depth [of p] by simp
  have answer: "utf8_encode ?answer = Inr ?answer" by (rule utf8_encode_ascii [OF answer_ascii])
  have in_process: "heuristic_transport_invoke py request = utf8_encode ?answer"
    using deserialize_serialize_prompt [OF assms(1) depth assms(3,4)]
    by (simp add: heuristic_transport_invoke_def)
  have worker: "propose_heuristic py request = Inr ?answer"
    using decode_serialized [OF assms(1,2,4)] worker_decides_the_same [OF assms(3)] answer
    by (simp add: propose_heuristic_def heuristic_action_json_def)
  obtain input where input: "frame_message request = Inr input"
    using assms(5) by (simp add: frame_message_def MODEL_WORKER_MAX_REQUEST_BYTES_def)
  then obtain rest where "read_message (pipe input) MODEL_WORKER_MAX_REQUEST_BYTES = Inr (request, rest)"
    using read_message_frame [OF input, of "pipe input" "[]" MODEL_WORKER_MAX_REQUEST_BYTES] assms(5,7) by auto
  moreover obtain reply where out: "frame_message ?answer = Inr reply"
    using assms(6) by (simp add: frame_message_def MODEL_RESPONSE_MAX_BYTES_def)
  moreover have "write_message ?answer MODEL_RESPONSE_MAX_BYTES = Inr reply"
    using assms(6) out by (simp add: write_message_def)
  ultimately have "worker_main py traceback MODEL_WORKER_MAX_REQUEST_BYTES MODEL_RESPONSE_MAX_BYTES (pipe input) =
      \<lparr>px_status = 0, px_stdout = reply, px_stderr = []\<rparr>"
    using worker by (simp add: worker_main_def)
  then have "subprocess_transport_invoke
      (\<lambda>input. Some (worker_main py traceback MODEL_WORKER_MAX_REQUEST_BYTES MODEL_RESPONSE_MAX_BYTES (pipe input)))
      request = Inr ?answer"
    using assms(5) input read_framed_message_frame [OF out] by (simp add: subprocess_transport_invoke_def)
  with in_process answer show ?thesis by simp
qed

definition sample_prompt :: prompt where
  "sample_prompt = \<lparr>prompt_text = lit ''hello'', prompt_state =
     \<lparr>as_verified = True,
      as_orders = [\<lparr>ov_id = lit ''ORD-1001'', ov_item = \<lparr>uf_provenance = lit ''untrusted'', uf_value = lit ''cup''\<rparr>,
        ov_total = cents 24900, ov_status = OS_DELIVERED_DAMAGED\<rparr>],
      as_orders_listed = True, as_linked_order_id = None, as_last_refund_status = None,
      as_reply_sent_after_last_refund = False, as_menu = [lit ''link_order'']\<rparr>\<rparr>"

lemma sample_prompt_ok: "json_ok (prompt_document sample_prompt)"
  "list_all sendable_order (as_orders (prompt_state sample_prompt))"
  by (simp_all add: sample_prompt_def prompt_document_def serialize_state_def serialize_order_view_def jobj_def jopt_def
      lit_def scalar_def cents_def place_point_def nat_str_def nat_digits.simps sendable_order_def)

lemma sample_request: "\<exists>request. serialize_prompt sample_prompt = Inr request \<and> length request < 400"
  by (simp add: serialize_prompt_def sample_prompt_def prompt_document_def serialize_state_def serialize_order_view_def
      jobj_def jopt_def dumps_def bracketed_def newline_indent_def item_separator_def quote_str_def escape_char_def
      lit_def cents_def place_point_def nat_str_def nat_digits.simps utf8_char_def)

theorem worker_equals_in_process_heuristic_witness:
  "\<exists>request. serialize_prompt sample_prompt = Inr request \<and>
     subprocess_transport_invoke (\<lambda>input. Some (worker_main sample_python (\<lambda>_. []) MODEL_WORKER_MAX_REQUEST_BYTES
       MODEL_RESPONSE_MAX_BYTES (map (\<lambda>b. [b]) input))) request =
     utf8_encode (lit ''{\"action\": \"link_order\", \"order_id\": \"ORD-1001\"}'')"
proof -
  obtain request where r: "serialize_prompt sample_prompt = Inr request" "length request < 400"
    using sample_request by blast
  have answer: "heuristic_action_json sample_python (prompt_state sample_prompt) =
      lit ''{\"action\": \"link_order\", \"order_id\": \"ORD-1001\"}''"
    by (simp add: heuristic_action_json_def decide_heuristic_action_def sample_prompt_def order_id_to_link_def
        jobj_def dumps_def bracketed_def newline_indent_def item_separator_def quote_str_def escape_char_def lit_def)
  have "concat (map (\<lambda>b. [b]) input) = input \<and> [] \<notin> set (map (\<lambda>b. [b]) input)" for input :: "nat list"
    by (induction input) simp_all
  from worker_equals_in_process_heuristic [OF sample_prompt_ok(1) _ sample_prompt_ok(2) r(1) _ _ this, of sample_python "\<lambda>_. []"] r answer
  show ?thesis by (simp add: sample_python_def MODEL_WORKER_MAX_REQUEST_BYTES_def MODEL_RESPONSE_MAX_BYTES_def lit_def)
qed

text \<open>C22: a request is the prompt.  What the application serializes, the application reads back as
  the same prompt, text and state with every order's number, item, exact total and status.\<close>

theorem prompt_request_roundtrip:
  assumes "json_ok (prompt_document p)" and "5 \<le> py_json_depth py"
    and "list_all sendable_order (as_orders (prompt_state p))"
  shows "\<exists>request. serialize_prompt p = Inr request \<and> deserialize_prompt_bytes py request = Inr p"
proof -
  obtain request where "serialize_prompt p = Inr request"
    unfolding serialize_prompt_def using utf8_encode_scalar [OF scalar_dumps [OF assms(1)]] by blast
  moreover have "json_depth (prompt_document p) \<le> py_json_depth py"
    using assms(2) prompt_document_depth [of p] by simp
  ultimately show ?thesis using deserialize_serialize_prompt [OF assms(1) _ assms(3)] by blast
qed

theorem prompt_request_roundtrip_witness:
  "\<exists>request. serialize_prompt sample_prompt = Inr request \<and>
     deserialize_prompt_bytes sample_python request = Inr sample_prompt"
  by (rule prompt_request_roundtrip [OF sample_prompt_ok(1) _ sample_prompt_ok(2)]) (simp add: sample_python_def)

lemma copied_variables:
  "foldl (\<lambda>environment key. case environ key of None \<Rightarrow> environment | Some v \<Rightarrow> environment(key \<mapsto> v)) env keys key =
     (case environ key of Some v \<Rightarrow> if key \<in> set keys then Some v else env key | None \<Rightarrow> env key)"
  by (induction keys arbitrary: env) (auto split: option.splits)

text \<open>C37: the worker's environment is exactly this.  The seven listed variables have the value the
  application's environment gives them, the six settings have the values the gateway fixes, and no
  other variable is set; so the environment depends on the application's only through the listed
  variables.\<close>

theorem worker_environment_is_minimal:
  "worker_environment path environ key =
     (if key \<in> lit ` {''PATH'', ''HOME'', ''LANG'', ''LC_ALL'', ''TMPDIR'', ''TEMP'', ''TMP''} then environ key
      else if key = lit ''PYTHONNOUSERSITE'' then Some (lit ''1'')
      else if key = lit ''PYTHONPATH'' then Some path
      else if key = lit ''SAFEREFUND_WORKER_CPU_SECONDS'' then Some (lit ''5'')
      else if key = lit ''SAFEREFUND_WORKER_MEMORY_BYTES'' then Some (lit ''134217728'')
      else if key = lit ''SAFEREFUND_WORKER_REQUEST_MAX_BYTES'' then Some (lit ''524288'')
      else if key = lit ''SAFEREFUND_WORKER_RESPONSE_MAX_BYTES'' then Some (lit ''65536'')
      else None) \<and>
   worker_environment path environ = worker_environment path (environ |` set WORKER_ENV_ALLOWLIST)"
proof
  have "nat_str MODEL_WORKER_CPU_SECONDS = lit ''5''" "nat_str MODEL_WORKER_MEMORY_BYTES = lit ''134217728''"
    "nat_str MODEL_WORKER_MAX_REQUEST_BYTES = lit ''524288''" "nat_str MODEL_RESPONSE_MAX_BYTES = lit ''65536''"
    by (simp_all add: nat_str_def nat_digits.simps lit_def MODEL_WORKER_CPU_SECONDS_def MODEL_WORKER_MEMORY_BYTES_def
        MODEL_WORKER_MAX_REQUEST_BYTES_def MODEL_RESPONSE_MAX_BYTES_def)
  then show "worker_environment path environ key =
     (if key \<in> lit ` {''PATH'', ''HOME'', ''LANG'', ''LC_ALL'', ''TMPDIR'', ''TEMP'', ''TMP''} then environ key
      else if key = lit ''PYTHONNOUSERSITE'' then Some (lit ''1'')
      else if key = lit ''PYTHONPATH'' then Some path
      else if key = lit ''SAFEREFUND_WORKER_CPU_SECONDS'' then Some (lit ''5'')
      else if key = lit ''SAFEREFUND_WORKER_MEMORY_BYTES'' then Some (lit ''134217728'')
      else if key = lit ''SAFEREFUND_WORKER_REQUEST_MAX_BYTES'' then Some (lit ''524288'')
      else if key = lit ''SAFEREFUND_WORKER_RESPONSE_MAX_BYTES'' then Some (lit ''65536'')
      else None)"
    unfolding worker_environment_def copied_variables WORKER_ENV_ALLOWLIST_def
    by (cases "environ key") (auto split: if_splits)
  show "worker_environment path environ = worker_environment path (environ |` set WORKER_ENV_ALLOWLIST)"
    by (rule ext) (simp add: worker_environment_def copied_variables restrict_map_def split: option.split)
qed

end
