(* ===== verification/Worker_Start.thy ===== *)
theory Worker_Start
  imports Worker
begin

text \<open>
  How the worker process starts (\<open>__main__.py\<close> and \<open>limits.py\<close> of \<open>saferefund_model_worker\<close>): it
  removes the application from its import path, refuses to run while the application can still
  be imported, applies the limits of its environment and then serves one request.
\<close>

datatype resource_limit = RLIMIT_CPU int | RLIMIT_AS int

text \<open>
  What the process finds on its machine: how a path resolves (as its components), whether
  \<open>saferefund.adapters\<close> can be imported from an entry of the import path, the system call that
  sets a soft and hard limit, \<open>int\<close> on a text that is not a plain numeral, and the traceback an
  exception leaves on standard error.
\<close>

record machine =
  m_resolve :: "pystr \<Rightarrow> pystr list"
  m_exposes :: "pystr \<Rightarrow> bool"
  m_setrlimit :: "resource_limit \<Rightarrow> error + unit"
  m_int :: "pystr \<Rightarrow> error + int"
  m_traceback :: "error \<Rightarrow> pystr"

section \<open>Import path\<close>

text \<open>An entry goes when it is the application's source root or lies below it; the empty entry stays.\<close>

definition isolate_worker_import_path :: "machine \<Rightarrow> pystr \<Rightarrow> pystr list \<Rightarrow> pystr list \<Rightarrow> pystr list" where
  "isolate_worker_import_path m worker_root application_src_root sys_path =
     (let clean_path = filter (\<lambda>entry. entry = [] \<or>
            take (length application_src_root) (m_resolve m entry) \<noteq> application_src_root) sys_path in
      if worker_root \<in> set clean_path then clean_path else worker_root # clean_path)"

definition verify_isolated_import_path :: "machine \<Rightarrow> pystr list \<Rightarrow> process_exit option" where
  "verify_isolated_import_path m sys_path =
     (if \<exists>entry\<in>set sys_path. m_exposes m entry
      then Some \<lparr>px_status = 3, px_stdout = [],
        px_stderr = lit ''worker import path must not expose saferefund.adapters'' @ [10]\<rparr>
      else None)"

section \<open>Limits\<close>

definition apply_worker_limits :: "machine \<Rightarrow> int \<Rightarrow> int \<Rightarrow> error + resource_limit list" where
  "apply_worker_limits m cpu_seconds memory_bytes =
     (let set_limit = (\<lambda>l. bindE (m_setrlimit m l) (\<lambda>_. Inr [l])) in
      bindE (if cpu_seconds > 0 then set_limit (RLIMIT_CPU cpu_seconds) else Inr []) (\<lambda>cpu.
      bindE (if memory_bytes > 0 then set_limit (RLIMIT_AS memory_bytes) else Inr []) (\<lambda>memory.
        Inr (cpu @ memory))))"

definition environment_int :: "machine \<Rightarrow> (pystr \<rightharpoonup> pystr) \<Rightarrow> string \<Rightarrow> int \<Rightarrow> error + int" where
  "environment_int m environ key otherwise =
     (case environ (lit key) of
        None \<Rightarrow> Inr otherwise
      | Some s \<Rightarrow> (if s \<noteq> [] \<and> list_all is_digit s \<and> length s \<le> INT_MAX_STR_DIGITS then Inr (digits_int s) else m_int m s))"

definition DEFAULT_REQUEST_MAX_BYTES :: int where "DEFAULT_REQUEST_MAX_BYTES = 512 * 1024"
definition DEFAULT_RESPONSE_MAX_BYTES :: int where "DEFAULT_RESPONSE_MAX_BYTES = 65536"
definition DEFAULT_CPU_SECONDS :: int where "DEFAULT_CPU_SECONDS = 5"
definition DEFAULT_MEMORY_BYTES :: int where "DEFAULT_MEMORY_BYTES = 128 * 1024 * 1024"

text \<open>The settings in the order \<open>main\<close> reads them: the limits applied, and the sizes of a request and a response.\<close>

definition worker_settings :: "machine \<Rightarrow> (pystr \<rightharpoonup> pystr) \<Rightarrow> error + resource_limit list \<times> int \<times> int" where
  "worker_settings m environ =
     bindE (environment_int m environ ''SAFEREFUND_WORKER_CPU_SECONDS'' DEFAULT_CPU_SECONDS) (\<lambda>cpu.
     bindE (environment_int m environ ''SAFEREFUND_WORKER_MEMORY_BYTES'' DEFAULT_MEMORY_BYTES) (\<lambda>memory.
     bindE (apply_worker_limits m cpu memory) (\<lambda>limits.
     bindE (environment_int m environ ''SAFEREFUND_WORKER_REQUEST_MAX_BYTES'' DEFAULT_REQUEST_MAX_BYTES) (\<lambda>request_max.
     bindE (environment_int m environ ''SAFEREFUND_WORKER_RESPONSE_MAX_BYTES'' DEFAULT_RESPONSE_MAX_BYTES) (\<lambda>response_max.
       Inr (limits, request_max, response_max))))))"

text \<open>The process from its start; sizes below zero, which the gateway never passes, count as zero.\<close>

definition start_worker ::
  "machine \<Rightarrow> python \<Rightarrow> pystr \<Rightarrow> pystr list \<Rightarrow> (pystr \<rightharpoonup> pystr) \<Rightarrow> pystr list \<Rightarrow> nat list list \<Rightarrow> process_exit" where
  "start_worker m py worker_root application_src_root environ sys_path stdin =
     (case verify_isolated_import_path m (isolate_worker_import_path m worker_root application_src_root sys_path) of
        Some refused \<Rightarrow> refused
      | None \<Rightarrow>
          (case worker_settings m environ of
             Inl e \<Rightarrow> \<lparr>px_status = 1, px_stdout = [], px_stderr = m_traceback m e\<rparr>
           | Inr (_, request_max, response_max) \<Rightarrow>
               worker_main py (m_traceback m) (nat request_max) (nat response_max) stdin))"

section \<open>Isolation\<close>

lemma isolated_path:
  "set (isolate_worker_import_path m worker_root app sys_path) =
     insert worker_root {entry \<in> set sys_path. entry = [] \<or> take (length app) (m_resolve m entry) \<noteq> app}"
  by (auto simp: isolate_worker_import_path_def Let_def)

lemma worker_environment_setting:
  assumes "key \<notin> set WORKER_ENV_ALLOWLIST"
  shows "worker_environment pythonpath environ key = worker_environment pythonpath Map.empty key"
  unfolding worker_environment_def copied_variables if_not_P [OF assms] by (cases "environ key") (simp_all only: option.case)

lemma nat_str_nonempty: "nat_str n \<noteq> []"
  by (simp add: nat_str_def)

lemma environment_int_setting:
  assumes "lit key \<notin> set WORKER_ENV_ALLOWLIST" and "worker_environment pythonpath Map.empty (lit key) = Some (nat_str n)"
    and "length (nat_str n) \<le> INT_MAX_STR_DIGITS"
  shows "environment_int m (worker_environment pythonpath environ) key otherwise = Inr (int n)"
  using assms nat_str_digits [of n] worker_environment_setting [OF assms(1), of pythonpath environ]
    nat_str_nonempty [of n]
  by (simp add: environment_int_def digits_int_nat_str)

lemma settings_short:
  "length (nat_str MODEL_WORKER_CPU_SECONDS) \<le> INT_MAX_STR_DIGITS"
  "length (nat_str MODEL_WORKER_MEMORY_BYTES) \<le> INT_MAX_STR_DIGITS"
  "length (nat_str MODEL_WORKER_MAX_REQUEST_BYTES) \<le> INT_MAX_STR_DIGITS"
  "length (nat_str MODEL_RESPONSE_MAX_BYTES) \<le> INT_MAX_STR_DIGITS"
  by (simp_all add: nat_str_def nat_digits.simps MODEL_WORKER_CPU_SECONDS_def MODEL_WORKER_MEMORY_BYTES_def
      MODEL_WORKER_MAX_REQUEST_BYTES_def MODEL_RESPONSE_MAX_BYTES_def INT_MAX_STR_DIGITS_def)

lemma gateway_settings:
  "worker_settings m (worker_environment pythonpath environ) =
     bindE (apply_worker_limits m (int MODEL_WORKER_CPU_SECONDS) (int MODEL_WORKER_MEMORY_BYTES)) (\<lambda>limits.
       Inr (limits, int MODEL_WORKER_MAX_REQUEST_BYTES, int MODEL_RESPONSE_MAX_BYTES))"
proof -
  note setting = environment_int_setting [where pythonpath = pythonpath and environ = environ and m = m]
  have "environment_int m (worker_environment pythonpath environ) ''SAFEREFUND_WORKER_CPU_SECONDS'' d =
      Inr (int MODEL_WORKER_CPU_SECONDS)"
    "environment_int m (worker_environment pythonpath environ) ''SAFEREFUND_WORKER_MEMORY_BYTES'' d =
      Inr (int MODEL_WORKER_MEMORY_BYTES)"
    "environment_int m (worker_environment pythonpath environ) ''SAFEREFUND_WORKER_REQUEST_MAX_BYTES'' d =
      Inr (int MODEL_WORKER_MAX_REQUEST_BYTES)"
    "environment_int m (worker_environment pythonpath environ) ''SAFEREFUND_WORKER_RESPONSE_MAX_BYTES'' d =
      Inr (int MODEL_RESPONSE_MAX_BYTES)" for d
    by (rule setting; simp add: WORKER_ENV_ALLOWLIST_def worker_environment_def lit_def settings_short)+
  then show ?thesis by (simp add: worker_settings_def)
qed

text \<open>C34: the start of a worker.  In the environment the gateway makes, on any machine and with any
  import path: the worker keeps of its import path exactly the entries that are not the
  application's source root or below it, and its own root.  When the application can be imported
  from an entry that is left, the worker refuses to run (status 3); when the processor or the
  memory limit of the gateway cannot be set, it fails (status 1); otherwise it serves the request
  with exactly the byte limits the gateway checks on its side.  So a worker that succeeds cannot
  import the application and has both limits in force; and where the application lies below its
  source root only, the worker does not refuse.\<close>

theorem worker_is_isolated:
  assumes "path = isolate_worker_import_path m worker_root app sys_path"
    and "run = start_worker m py worker_root app (worker_environment pythonpath environ) sys_path stdin"
  shows "set path = insert worker_root {entry \<in> set sys_path. entry = [] \<or> take (length app) (m_resolve m entry) \<noteq> app} \<and>
    (if \<exists>entry\<in>set path. m_exposes m entry
     then run = \<lparr>px_status = 3, px_stdout = [],
       px_stderr = lit ''worker import path must not expose saferefund.adapters'' @ [10]\<rparr>
     else case (m_setrlimit m (RLIMIT_CPU (int MODEL_WORKER_CPU_SECONDS)), m_setrlimit m (RLIMIT_AS (int MODEL_WORKER_MEMORY_BYTES))) of
         (Inl e, _) \<Rightarrow> run = \<lparr>px_status = 1, px_stdout = [], px_stderr = m_traceback m e\<rparr>
       | (Inr _, Inl e) \<Rightarrow> run = \<lparr>px_status = 1, px_stdout = [], px_stderr = m_traceback m e\<rparr>
       | (Inr _, Inr _) \<Rightarrow>
           run = worker_main py (m_traceback m) MODEL_WORKER_MAX_REQUEST_BYTES MODEL_RESPONSE_MAX_BYTES stdin) \<and>
    (px_status run = 0 \<longrightarrow> (\<forall>entry\<in>set path. \<not> m_exposes m entry) \<and>
       m_setrlimit m (RLIMIT_CPU (int MODEL_WORKER_CPU_SECONDS)) = Inr () \<and>
       m_setrlimit m (RLIMIT_AS (int MODEL_WORKER_MEMORY_BYTES)) = Inr ()) \<and>
    ((\<forall>entry. m_exposes m entry \<longrightarrow> entry \<noteq> [] \<and> entry \<noteq> worker_root \<and> take (length app) (m_resolve m entry) = app) \<longrightarrow>
       px_status run \<noteq> 3)"
    (is "?entries \<and> ?start \<and> ?success \<and> ?confined")
proof (intro conjI)
  show entries: ?entries unfolding assms(1) by (rule isolated_path)
  have limits: "apply_worker_limits m (int MODEL_WORKER_CPU_SECONDS) (int MODEL_WORKER_MEMORY_BYTES) =
      bindE (m_setrlimit m (RLIMIT_CPU (int MODEL_WORKER_CPU_SECONDS))) (\<lambda>_.
      bindE (m_setrlimit m (RLIMIT_AS (int MODEL_WORKER_MEMORY_BYTES))) (\<lambda>_.
        Inr [RLIMIT_CPU (int MODEL_WORKER_CPU_SECONDS), RLIMIT_AS (int MODEL_WORKER_MEMORY_BYTES)]))"
    by (simp add: apply_worker_limits_def MODEL_WORKER_CPU_SECONDS_def MODEL_WORKER_MEMORY_BYTES_def bindE_def split: sum.split)
  show start: ?start
    unfolding assms(2) start_worker_def assms(1) [symmetric] verify_isolated_import_path_def gateway_settings limits
    by (auto split: sum.split)
  then show ?success by (auto split: if_splits sum.splits)
  have "px_status (worker_main py tb a b stdin) \<noteq> 3" for tb a b
    by (auto simp: worker_main_def split: sum.split error.split)
  with start entries show ?confined by (auto split: if_splits sum.splits)
qed

text \<open>A machine whose application lies in \<open>/app/src\<close>.\<close>

definition sample_machine :: machine where
  "sample_machine = \<lparr>m_resolve = (\<lambda>entry. if entry = lit ''/app/src'' then map lit [''/'', ''app'', ''src''] else [lit ''/'', entry]),
     m_exposes = (\<lambda>entry. entry = lit ''/app/src''), m_setrlimit = (\<lambda>_. Inr ()),
     m_int = (\<lambda>_. Inl (ValueError [])), m_traceback = (\<lambda>_. [])\<rparr>"

theorem worker_is_isolated_witness:
  "start_worker sample_machine sample_python (lit ''/app/worker'') (map lit [''/'', ''app'', ''src''])
     (worker_environment (lit ''/app/worker'') Map.empty) (map lit [''/app/src'', ''/lib'']) [] =
   worker_main sample_python (\<lambda>_. []) MODEL_WORKER_MAX_REQUEST_BYTES MODEL_RESPONSE_MAX_BYTES [] \<and>
   px_status (start_worker (sample_machine\<lparr>m_exposes := \<lambda>entry. entry = lit ''/lib''\<rparr>) sample_python (lit ''/app/worker'')
     (map lit [''/'', ''app'', ''src'']) (worker_environment (lit ''/app/worker'') Map.empty)
     (map lit [''/app/src'', ''/lib'']) []) = 3"
proof
  let ?app = "map lit [''/'', ''app'', ''src'']" and ?root = "lit ''/app/worker''" and ?path = "map lit [''/app/src'', ''/lib'']"
  note start = worker_is_isolated [OF refl refl, where worker_root = ?root and app = ?app and sys_path = ?path
      and py = sample_python and pythonpath = ?root and environ = Map.empty and stdin = "[]"]
  have "set (isolate_worker_import_path sample_machine ?root ?app ?path) = {?root, lit ''/lib''}"
    unfolding start [of sample_machine, THEN conjunct1] by (auto simp: sample_machine_def lit_def)
  then have hidden: "\<not> (\<exists>entry\<in>set (isolate_worker_import_path sample_machine ?root ?app ?path). m_exposes sample_machine entry)"
    by (simp add: sample_machine_def)
  have accepted: "m_setrlimit sample_machine l = Inr ()" "m_traceback sample_machine = (\<lambda>_. [])" for l
    by (simp_all add: sample_machine_def)
  show "start_worker sample_machine sample_python ?root ?app (worker_environment ?root Map.empty) ?path [] =
      worker_main sample_python (\<lambda>_. []) MODEL_WORKER_MAX_REQUEST_BYTES MODEL_RESPONSE_MAX_BYTES []"
    using start [of sample_machine, THEN conjunct2, THEN conjunct1]
    by (simp only: hidden if_False accepted prod.case sum.case)
  let ?m = "sample_machine\<lparr>m_exposes := \<lambda>entry. entry = lit ''/lib''\<rparr>"
  have "lit ''/lib'' \<in> set (isolate_worker_import_path ?m ?root ?app ?path)"
    unfolding start [of ?m, THEN conjunct1] by (simp add: sample_machine_def lit_def)
  with start [of ?m]
  show "px_status (start_worker ?m sample_python ?root ?app (worker_environment ?root Map.empty) ?path []) = 3"
    by auto
qed

end
