(* ===== verification/Demonstration.thy ===== *)
theory Demonstration
  imports System
begin

text \<open>
  The demonstration (\<open>demo.py\<close>): it freezes the clock and the counters, prepares a fresh seeded
  database, sends the canonical email through the inbound route and prints two tables
  (\<open>demo_tables.py\<close>).  What it prints is the result of the model.
\<close>

section \<open>Tables\<close>

definition pad_right :: "nat \<Rightarrow> pystr \<Rightarrow> pystr" where
  "pad_right width s = s @ replicate (width - length s) 32"

definition pad_left :: "nat \<Rightarrow> pystr \<Rightarrow> pystr" where
  "pad_left width s = replicate (width - length s) 32 @ s"

definition table_row :: "pystr \<Rightarrow> pystr \<Rightarrow> pystr \<Rightarrow> pystr \<Rightarrow> pystr" where
  "table_row first second third fourth =
     pad_left 4 first @ lit ''  '' @ pad_right 22 second @ lit ''  '' @ pad_right 8 third @ lit ''  '' @ fourth"

text \<open>Only called with a width of 40, so \<open>width - 3\<close> is not negative.\<close>

definition truncate_cell :: "pystr \<Rightarrow> nat \<Rightarrow> pystr" where
  "truncate_cell text_value width =
     (if length text_value \<le> width then text_value else take (width - 3) text_value @ lit ''...'')"

definition join_lines :: "pystr list \<Rightarrow> pystr" where
  "join_lines rows = (case rows of [] \<Rightarrow> [] | r # rs \<Rightarrow> r @ concat (map (\<lambda>x. 10 # x) rs))"

definition format_event_table :: "pystr \<Rightarrow> pystr \<Rightarrow> case_event_response list \<Rightarrow> pystr" where
  "format_event_table case_id status events =
     join_lines
       ([lit ''Case: '' @ case_id, lit ''Status: '' @ status, [],
         table_row (lit ''seq'') (lit ''type'') (lit ''actor'') (lit ''channel''),
         table_row (lit ''---'') (lit ''----------------------'') (lit ''--------'') (lit ''-------------'')] @
        map (\<lambda>event. table_row (int_str (ce_resp_seq event)) (ce_resp_type event) (ce_resp_actor event)
               (ce_resp_channel event)) events)"

definition format_outbox_table :: "outbox_message list \<Rightarrow> pystr" where
  "format_outbox_table messages =
     (let header_lines =
        [lit ''Mailer outbox'', [], table_row (lit ''#'') (lit ''to'') (lit ''subject'') (lit ''body''),
         table_row (lit ''-'') (lit ''----------------------'') (lit ''----------------------'') (lit ''-----'')] in
      if messages = [] then join_lines (header_lines @ [table_row (lit ''-'') (lit ''(empty)'') [] []])
      else join_lines (header_lines @
        map (\<lambda>(index, message). table_row (nat_str index) (om_to message) (om_subject message)
               (truncate_cell (om_body message) 40))
          (enumerate 1 messages)))"

section \<open>The run\<close>

text \<open>15 January 2030, 09:30 UTC.\<close>

definition DEMO_FIXED_NOW :: datetime where
  "DEMO_FIXED_NOW = seconds 1894699800"

definition DEMO_EMAIL :: inbound_email_request where
  "DEMO_EMAIL = \<lparr>ie_envelope_from = SOPHIE_EMAIL, ie_message_id = lit ''msg-demo-sophie-refund'',
     ie_subject = lit ''Refund please'', ie_body = lit ''My espresso machine arrived damaged.''\<rparr>"

definition reset_counter_for_tests :: "int \<Rightarrow> unit op" where
  "reset_counter_for_tests start_at =
     (if start_at < 1 then raiseM (ValueError (lit ''Identifier counter must start at one or greater.''))
      else modifyM (\<lambda>w. w\<lparr>w_counter := nat start_at\<rparr>))"

definition reset_now_for_tests :: "unit op" where
  "reset_now_for_tests = modifyM (\<lambda>w. w\<lparr>w_override_now := None\<rparr>)"

text \<open>An instant of the model is one of UTC, so the check for a time zone passes.\<close>

definition set_now_for_tests :: "datetime \<Rightarrow> unit op" where
  "set_now_for_tests override_now = modifyM (\<lambda>w. w\<lparr>w_override_now := Some override_now\<rparr>)"

definition reset_adapters_for_tests :: "unit op" where
  "reset_adapters_for_tests =
     thenM (modifyM (\<lambda>w. w\<lparr>w_payment_calls := [], w_provider_refs := []\<rparr>))
    (thenM (modifyM (\<lambda>w. w\<lparr>w_outbox := []\<rparr>))
       (modifyM (\<lambda>w. w\<lparr>w_escalations := []\<rparr>)))"

text \<open>The registry of case locks, which is reset too, is a state of its own in the theory of the locks.\<close>

definition reset_demo_primitives :: "unit op" where
  "reset_demo_primitives =
     thenM (reset_counter_for_tests 1)
    (thenM reset_now_for_tests
    (thenM (set_now_for_tests DEMO_FIXED_NOW) reset_adapters_for_tests))"

definition reset_database :: "unit op" where
  "reset_database = modifyM (\<lambda>w. w\<lparr>w_db := empty_db, w_committed := empty_db\<rparr>)"

text \<open>The file is deleted and every table dropped and created again.\<close>

definition prepare_demo_database :: "unit op" where
  "prepare_demo_database =
     thenM reset_database (session_begin (seed_database STANDARD))"

text \<open>A 202 answer, for an unknown sender, does not raise either.\<close>

definition post_canonical_inbound_email :: "nat \<times> nat \<Rightarrow> host \<Rightarrow> http_response option op" where
  "post_canonical_inbound_email fuel h = post_inbound_email fuel h DEMO_EMAIL"

text \<open>What is printed; an answer without events has no \<open>"events"\<close>.\<close>

definition run_demo :: "nat \<times> nat \<Rightarrow> host \<Rightarrow> pystr option op" where
  "run_demo fuel h =
     thenM reset_demo_primitives
    (thenM prepare_demo_database
    (bindM (post_canonical_inbound_email fuel h) (\<lambda>response. case response of
        None \<Rightarrow> returnM None
      | Some (InboundEmailResponse case_id status events) \<Rightarrow>
          bindM (getM w_outbox) (\<lambda>outbox.
            returnM (Some (format_event_table case_id (case_status_value status) events @ [10, 10] @
              format_outbox_table outbox @ [10])))
      | Some _ \<Rightarrow> raiseM (KeyError (lit ''events'')))))"

section \<open>Shape\<close>

lemma truncate_cell_width: "3 \<le> width \<Longrightarrow> length (truncate_cell s width) \<le> width"
  by (auto simp: truncate_cell_def lit_def)

text \<open>Rows line up: the last column begins at the same place whenever the cells fit.\<close>

lemma table_row_columns:
  assumes "length first \<le> 4" and "length second \<le> 22" and "length third \<le> 8"
  shows "drop 40 (table_row first second third fourth) = fourth"
  using assms by (simp add: table_row_def pad_left_def pad_right_def lit_def)

text \<open>
  Repeated demonstrations print the same: everything a process kept from earlier runs is reset
  before the first read, except the wall clock, which the frozen clock hides.
\<close>

lemma demo_repeats: "run_demo fuel h w = run_demo fuel h (fresh_world (w_utc_now w))"
proof -
  have reset: "reset_demo_primitives v = (Inr (), v\<lparr>w_counter := 1, w_override_now := Some DEMO_FIXED_NOW,
      w_payment_calls := [], w_provider_refs := [], w_outbox := [], w_escalations := []\<rparr>)" for v
    by (simp add: reset_demo_primitives_def reset_counter_for_tests_def reset_now_for_tests_def set_now_for_tests_def
        reset_adapters_for_tests_def thenM_def bindM_def)
  have "reset_database (snd (reset_demo_primitives w)) = reset_database (snd (reset_demo_primitives (fresh_world (w_utc_now w))))"
    unfolding reset by (cases w) (simp add: reset_database_def fresh_world_def modifyM_def)
  then show ?thesis
    by (simp add: run_demo_def prepare_demo_database_def thenM_def bindM_def reset)
qed

end
