(* ===== verification/Wiring.thy ===== *)
theory Wiring
  imports System
begin

text \<open>
  The application factory and the dependency providers (\<open>main.py\<close>, \<open>api/dependencies.py\<close>): what an
  application keeps in its state and what a handler is given.  The session factory is the
  database of the world, so the state only records that one was configured.
\<close>

text \<open>
  The attribute \<open>model_gateway\<close>: missing or \<open>None\<close>, an exact \<open>ModelGateway\<close> with its transport, or
  anything else, which includes instances of subclasses.
\<close>

datatype gateway_attribute = NoGateway | ExactGateway transport | OtherGateway

record application_state =
  st_session_factory :: bool
  st_model_gateway :: gateway_attribute

text \<open>
  \<open>production\<close> is the transport of \<open>ModelGateway.heuristic_subprocess()\<close>.  An application object is
  truthy whatever its class, so \<open>or\<close> replaces a missing gateway only.
\<close>

definition create_app :: "transport \<Rightarrow> gateway_attribute \<Rightarrow> application_state" where
  "create_app production model_gateway =
     \<lparr>st_session_factory = True,
      st_model_gateway = (case model_gateway of NoGateway \<Rightarrow> ExactGateway production | g \<Rightarrow> g)\<rparr>"

definition get_session_factory :: "application_state \<Rightarrow> error + unit" where
  "get_session_factory st =
     (if st_session_factory st then Inr ()
      else Inl (RuntimeError (lit ''Application session factory is not configured.'')))"

definition get_model_gateway :: "transport \<Rightarrow> application_state \<Rightarrow> error + transport" where
  "get_model_gateway production st =
     (case st_model_gateway st of
        NoGateway \<Rightarrow> Inr production
      | ExactGateway t \<Rightarrow> Inr t
      | OtherGateway \<Rightarrow>
          Inl (TypeError (lit ''Application model gateway must be a trusted ModelGateway instance'')))"

text \<open>FastAPI resolves both dependencies before it runs a handler.\<close>

definition with_dependencies :: "transport \<Rightarrow> application_state \<Rightarrow> host \<Rightarrow> (host \<Rightarrow> 'a op) \<Rightarrow> 'a op" where
  "with_dependencies production st h handler =
     bindM (liftM (get_session_factory st)) (\<lambda>_.
     bindM (liftM (get_model_gateway production st)) (\<lambda>t. handler (h\<lparr>h_transport := t\<rparr>)))"

text \<open>A served request is a step of the system, or is refused before it begins.\<close>

lemma served_requests_are_steps:
  assumes "handler \<in> {\<lambda>h. post_inbound_email fuel h email, \<lambda>h. post_operator_approve fuel h approval,
    \<lambda>h. post_operator_reject fuel h rejection, \<lambda>h. post_verification_confirm fuel h token}"
    and "with_dependencies production st h handler w = (result, w')"
  shows "step w w' \<or> w' = w \<and> (\<exists>e. result = Inl e)"
proof (cases "get_session_factory st")
  case (Inl e)
  with assms(2) show ?thesis by (auto simp: with_dependencies_def bindM_def)
next
  case (Inr x)
  show ?thesis
  proof (cases "get_model_gateway production st")
    case (Inl e)
    with assms(2) \<open>get_session_factory st = Inr x\<close> show ?thesis by (auto simp: with_dependencies_def bindM_def)
  next
    case (Inr t)
    with assms(2) \<open>get_session_factory st = Inr x\<close> have "handler (h\<lparr>h_transport := t\<rparr>) w = (result, w')"
      by (simp add: with_dependencies_def bindM_def)
    with assms(1) show ?thesis by (blast intro: step.intros)
  qed
qed

text \<open>An application that was created always has both, unless it was given an untrusted gateway.\<close>

lemma created_application_serves:
  "model_gateway \<noteq> OtherGateway \<Longrightarrow>
   \<exists>t. with_dependencies production (create_app production model_gateway) h handler = handler (h\<lparr>h_transport := t\<rparr>)"
  by (cases model_gateway)
    (auto simp: with_dependencies_def create_app_def get_session_factory_def get_model_gateway_def bindM_def fun_eq_iff)

end
