(* ===== verification/Spec2Isabelle.thy ===== *)
theory Spec2Isabelle
  imports Bytes Queue_Progress Protocol Answers Locks Heuristic_Menu Envelope Prompt_Obedient Worker_Start Demonstration Wiring
begin

text \<open>
  A verification development for SafeRefundAgent (\<open>src/saferefund\<close> and \<open>worker\<close>).  A language
  model proposes actions on support cases; a deterministic gate decides each proposal on the
  recorded history of the case and is the only part that pays refunds, sends mail and escalates.
  The development models the program from the database rows to the HTTP handlers and proves that
  no model and no sequence of requests can make the gate break its promises.

  \<^bold>\<open>The program and its model.\<close>  Text is a list of code points, money is Python's decimal, a
  fallible function returns a sum of an error and a result, and an operation (\<open>'a op\<close>) is a
  function from the world to a result or an exception and a new world.  The world holds the
  tables seen by the current session, the committed tables, the clock, the identifier counter
  and what the mock adapters recorded.  Definitions keep the names of the source.

  \<^item> \<open>Prelude\<close>: text, errors, operations and their proof rules (\<open>preserves\<close>, \<open>hoare\<close>).
    \<open>Enums\<close>, \<open>Decimal\<close>, \<open>Config\<close>: vocabularies and exceptions of \<open>domain/enums.py\<close>, the decimal
    arithmetic used, the settings of \<open>config.py\<close>.
  \<^item> \<open>Events\<close>, \<open>Actions\<close>: payload schemas, the event catalogue and canonical events
    (\<open>domain/payloads.py\<close>, \<open>domain/events.py\<close>), the closed action vocabulary (\<open>actions/\<close>).
  \<^item> \<open>Projections\<close>: the folds that compute customer, case and order summaries (\<open>projections/\<close>).
    \<open>Policy\<close>: obligations, checks, verdicts, single-use authorisations (\<open>policy/\<close>).
  \<^item> \<open>World\<close>, \<open>Repositories\<close>: tables with constraints and mapper listeners, sessions, clock,
    identifiers, adapters; lookups, the append protocol, guarded status transitions
    (\<open>domain/tables.py\<close>, \<open>clock.py\<close>, \<open>ids.py\<close>, \<open>adapters/\<close>, \<open>repositories/\<close>).
  \<^item> \<open>Gate_Common\<close>, \<open>Gate\<close>: every operation of \<open>gate/\<close>: rule contexts, expiry, effects,
    proposals and payment, operator decisions, verification.
  \<^item> \<open>Bytes\<close>, \<open>Json\<close>, \<open>Prompt\<close>, \<open>Parsing\<close>, \<open>Gateway\<close>, \<open>Loop\<close>: UTF-8 and framing, \<open>json\<close>, the
    prompt, parsing of answers, the model boundary and the agent loop (\<open>bounds.py\<close>, \<open>agent/\<close>).
  \<^item> \<open>Models\<close>, \<open>Prompt_Obedient\<close>, \<open>Worker\<close>, \<open>Worker_Start\<close>: the stand-ins for a language model with
    their transports (\<open>agent/models.py\<close>, \<open>agent/gateway.py\<close>) and the isolated worker process.
  \<^item> \<open>Routes\<close>, \<open>Wiring\<close>, \<open>Seed\<close>, \<open>Locks\<close>, \<open>Demonstration\<close>: the handlers with their queue of
    cases and what an application gives them (\<open>api/\<close>, \<open>main.py\<close>), the seed data, the lock per case as a step relation of tasks (\<open>agent/locks.py\<close>),
    the demonstration run (\<open>demo.py\<close>, \<open>demo_tables.py\<close>).
  \<^item> \<open>System\<close>: a step is one request handled from beginning to end, with any transport and any
    fuel, or the passing of time; \<open>reachable\<close> holds of the states after such steps from a seeded
    database.  A step with too little fuel stops early, so reachability is over-approximated.

  \<^bold>\<open>The invariants.\<close>  \<open>Ledger\<close> states what ties the log to the mutable refunds table: keys,
  references, dense sequence numbers, and for each order the account of executed refunds and the
  open one.  \<open>Storage\<close>, \<open>Safety\<close>, \<open>Settlement\<close>, \<open>Loop_Safety\<close> and \<open>Seed\<close> show that every operation
  keeps it, also when it raises.  \<open>Discipline\<close>, \<open>Discipline_Gate\<close> and \<open>Discipline_System\<close> do the
  same once for every predicate on the database that obeys the four laws of the locale
  \<open>log_discipline\<close>; \<open>Protocol\<close> gives it the replay of refund statuses, the protocol of events and
  the growth of the log.  \<open>World_Invariants\<close> is the interface for predicates that hold at every point
  of every operation; \<open>Queue_Progress\<close> uses it for the set of cases, \<open>Identifiers\<close> for
  the freshness of identifiers, \<open>Answers\<close> for the uniqueness of a message's case.

  \<^bold>\<open>What is shown.\<close>  Money: payments stay within the order total, are unique, backed by an
  approved row and authorised by the log (below, \<open>Policy\<close>).  History: the log is well typed,
  append-only, follows the refund protocol, determines the refunds table and can always be
  projected.  Progress: the loop and the queue of a request end; every catalogued event is
  stored; waiting for a lock is fair.  Errors: a failing model closes its case and does nothing
  else, a settled refund is answered with a conflict, unknown and expired tokens are refused (a
  token that has not expired can be confirmed again), a repeated email is answered with the case
  it opened (\<open>Expiry\<close>, \<open>Outcomes\<close>, \<open>Answers\<close>).  The boundary: untrusted text cannot forge the frame of
  the prompt, only listed orders are disclosed, memory and envelope fit their budgets
  (\<open>Prompt_Bounds\<close>, \<open>Json_Size\<close>, \<open>Envelope\<close>), answers parse to valid actions or fail, and raise in two
  cases only (\<open>Json_Errors\<close>, \<open>Parsing\<close>), requests are read back as sent (\<open>Json_Roundtrip\<close>, \<open>Models\<close>),
  the worker answers like the in-process heuristic and refuses to run where it could import the
  application (\<open>Worker\<close>, \<open>Worker_Start\<close>), and its answers follow the menu (\<open>Heuristic_Menu\<close>).
  \<open>Evaluation\<close> makes operations run in the simplifier; \<open>Sample_World\<close> and \<open>Paid_World\<close> are the
  reachable states on which the properties are applied.

  \<^bold>\<open>Bounds and fuel.\<close>  The loop of a case takes a number of turns and the queue a number of runs
  as fuel; \<open>None\<close> means it ran out.  \<open>MAX_AGENT_STEPS + 1\<close> turns always suffice (\<open>Loop_Progress\<close>),
  and as many runs as there are cases asked for and cases stored (\<open>Queue_Progress\<close>).
  The depth to which the JSON decoder recurses is a parameter.

  \<^bold>\<open>Assumptions.\<close>  The clock stands still within an operation.  Money survives its \<open>Numeric(12,2)\<close>
  column and Pydantic's JSON codec unchanged, an event's type column is stored as its enumeration
  member, and rows that an SQL order ties come in insertion order.  Requests are
  handled one after the other: the row and advisory locks of a customer have no effect in this
  model, and interleaving is studied for the lock per case alone.  Email addresses are
  lower-cased on ASCII letters.  Pydantic's conversion of a JSON value to a decimal and its error
  texts, the transport, \<open>repr\<close>, floats and \<open>Decimal\<close> of values no serialized prompt holds, the
  file system and \<open>setrlimit\<close> are parameters.  A value outside the declared type of a prompt's
  dataclass field is refused where it is read.

  \<^bold>\<open>Not modelled.\<close>  The lifespan hook and router registration (\<open>main.py\<close>) and the engine and
  session factories (\<open>db.py\<close>) only configure libraries; the PostgreSQL advisory locks of
  \<open>repositories/customers.py\<close> call the database; of the worker, the operating system's side of a
  process; of the demonstration, the HTTP client and the exit status.
\<close>

section \<open>Money\<close>

text \<open>C1: the shop never pays back more than a customer paid.  In every state the system can
  reach, with any model behind the gateway and any requests in any order, the payments made for
  the refunds of an order sum to at most the order's total.\<close>

theorem payments_never_exceed_order_total:
  assumes "reachable w" and "row \<in> set (db_orders (w_db w))"
  shows "paid_for_order w (or_id row) \<le> dec_val (or_total row)"
proof -
  let ?d = "w_db w" and ?ord = "or_id row"
  have ok: "db_ok ?d" "payments_ok (w_payment_calls w) ?d" using reachable_db_ok [OF assms(1)] by auto
  have account: "account_ok (order_events ?d ?ord) (order_refunds ?d ?ord) (dec_cents (or_total row))"
    and total: "is_money (or_total row)"
    using ok(1) assms(2) by (auto simp: db_ok_def accounts_ok_def references_ok_def)
  have money: "is_money (pc_amount c)" if "c \<in> set (filter (pays_for ?d ?ord) (w_payment_calls w))" for c
    using payments_backed [OF assms(1)] that by auto
  have "sum_list (map (\<lambda>c. dec_cents (pc_amount c)) (filter (pays_for ?d ?ord) (w_payment_calls w))) \<le>
      dec_cents (or_total row)"
    using paid_within_rows [OF ok, of ?ord] account by (simp add: account_ok_def)
  then show ?thesis
    using sum_list_dec_val [of "filter (pays_for ?d ?ord) (w_payment_calls w)" pc_amount, OF money]
      sum_list_dec_val [of "[row]" or_total] total
    by (simp add: paid_for_order_def divide_right_mono)
qed

theorem payments_never_exceed_order_total_witness:
  "w_payment_calls paid_world \<noteq> [] \<and> paid_for_order paid_world ORD_1002_ID \<le> 24"
proof -
  obtain row where row: "row \<in> set (db_orders (w_db paid_world))" "or_id row = ORD_1002_ID"
    "or_total row = Dec False 2400 (-2)" by (rule paid_order)
  have "dec_val (or_total row) = 24" using dec_val_cents [of 2400] row(3) by simp
  with payments_never_exceed_order_total [OF reachable_paid row(1)] row(2) paid_facts(2) show ?thesis by simp
qed

text \<open>C2: no refund is paid twice and nothing is paid that was not proposed and approved.  In
  every reachable state the idempotency keys of the provider's calls are distinct, and each call
  is backed by a refund row with that key and exactly that amount, approved or executed, and by
  a \<open>refund_proposed\<close> event of the same case, order and customer.\<close>

theorem payments_are_unique_and_backed:
  assumes "reachable w"
  shows "distinct (map pc_idempotency_key (w_payment_calls w)) \<and>
    (\<forall>c\<in>set (w_payment_calls w).
       \<exists>r\<in>set (db_refunds (w_db w)). \<exists>e\<in>set (db_events (w_db w)).
         rf_id r = pc_idempotency_key c \<and> rf_amount r = pc_amount c \<and>
         rf_status r \<in> {RS_APPROVED, RS_EXECUTED} \<and> is_money (pc_amount c) \<and>
         ev_event_type e = ET_REFUND_PROPOSED \<and>
         event_payload e = Inr (RefundProposedPayload (rf_id r) (rf_amount r)) \<and>
         ev_case_id e = Some (rf_case_id r) \<and> ev_order_id e = Some (rf_order_id r) \<and>
         ev_customer_id e = rf_customer_id r)"
  using payments_backed [OF assms] reachable_db_ok [OF assms] by (simp add: payments_ok_def)

theorem payments_are_unique_and_backed_witness:
  "\<exists>r\<in>set (db_refunds (w_db paid_world)).
     rf_id r = lit ''rfnd_6'' \<and> rf_amount r = Dec False 2400 (-2) \<and> rf_status r \<in> {RS_APPROVED, RS_EXECUTED}"
  using payments_are_unique_and_backed [OF reachable_paid] by (simp add: paid_facts(2)) blast

text \<open>C3: every payment was authorised, and the log shows how.  In every reachable state, for each
  call of the payment provider the log holds, in this order, the verification of the customer,
  the proposal of exactly the amount paid, and the approval of that refund: either by an operator,
  or by the policy, and then the amount and everything executed for the order until then are
  together at most 500.00.\<close>

theorem payments_are_authorised:
  assumes "reachable w" and "c \<in> set (w_payment_calls w)"
  shows "\<exists>xs p ys e zs. db_events (w_db w) = xs @ p # ys @ e # zs \<and>
    event_payload p = Inr (RefundProposedPayload (pc_idempotency_key c) (pc_amount c)) \<and>
    verified_in xs (ev_customer_id p) \<and>
    ((\<exists>operator_id. event_payload e = Inr (RefundApprovedPayload (pc_idempotency_key c) operator_id) \<and>
        ev_actor e = Actor_OPERATOR) \<or>
     event_payload e = Inr (RefundAutoApprovedPayload (pc_idempotency_key c)) \<and> ev_order_id e = ev_order_id p \<and>
     dec_cents (pc_amount c) + sum_list (map executed_cents
       (filter (\<lambda>x. ev_order_id x = ev_order_id e) (xs @ p # ys))) \<le> 50000)"
proof -
  obtain r where "r \<in> set (db_refunds (w_db w))" "rf_status r \<in> {RS_APPROVED, RS_EXECUTED}"
    "rf_id r = pc_idempotency_key c" "rf_amount r = pc_amount c"
    using payments_backed [OF assms] by blast
  with approved_trail [OF reachable_lawful [OF assms(1)]] reachable_db_ok [OF assms(1)]
  have "approval_trail (db_events (w_db w)) (pc_idempotency_key c) (pc_amount c)" by metis
  then show ?thesis unfolding approval_trail_def approval_event_def by blast
qed

theorem payments_are_authorised_witness:
  "\<exists>xs p ys. \<exists>e\<in>set ys. db_events (w_db paid_world) = xs @ p # ys \<and>
     event_payload p = Inr (RefundProposedPayload (lit ''rfnd_6'') (Dec False 2400 (-2))) \<and>
     verified_in xs (ev_customer_id p)"
proof -
  have "\<lparr>pc_idempotency_key = lit ''rfnd_6'', pc_amount = Dec False 2400 (-2)\<rparr> \<in> set (w_payment_calls paid_world)"
    by (simp add: paid_facts(2))
  from payments_are_authorised [OF reachable_paid this] show ?thesis by fastforce
qed

section \<open>The log and the rows\<close>

text \<open>C4: the event log and the refunds table never disagree.  In every reachable state, for
  every order, the amounts of its \<open>refund_executed\<close> events sum to those of its executed rows, the
  log shows an open refund exactly when a live row exists, and there is at most one live row.\<close>

theorem log_and_refund_rows_agree:
  assumes "reachable w" and "row \<in> set (db_orders (w_db w))"
  shows "let evs = order_events (w_db w) (or_id row); rs = order_refunds (w_db w) (or_id row);
             live = filter (\<lambda>r. live_refund_status (rf_status r)) rs in
    sum_list (map executed_cents evs) = status_cents (\<lambda>s. s = RS_EXECUTED) rs \<and>
    (open_refund_in_history evs \<longleftrightarrow> live \<noteq> []) \<and> length live \<le> 1"
  using reachable_db_ok [OF assms(1)] assms(2)
  by (auto simp: db_ok_def accounts_ok_def account_ok_def Let_def)

theorem log_and_refund_rows_agree_witness:
  "sum_list (map executed_cents (order_events (w_db contacted_world) ORD_1002_ID)) =
     status_cents (\<lambda>s. s = RS_EXECUTED) (order_refunds (w_db contacted_world) ORD_1002_ID)"
proof -
  obtain row where "row \<in> set (db_orders (w_db contacted_world))" "or_id row = ORD_1002_ID"
    by (rule contacted_order)
  with log_and_refund_rows_agree [OF reachable_contacted] show ?thesis by (metis (no_types, lifting))
qed

text \<open>C5: the event log decides the refunds table.  In every reachable state the statuses of all
  refund rows are those that replaying the log gives: the proposal creates a pending refund, and
  each later lifecycle event moves it to the status it names.  No row exists without its
  proposal, and no lifecycle event without its row.\<close>

theorem refund_rows_are_a_projection:
  assumes "reachable w"
  shows "map_of (map (\<lambda>r. (rf_id r, rf_status r)) (db_refunds (w_db w))) = refund_statuses (db_events (w_db w))"
  using reachable_lawful [OF assms] by (simp add: lawful_def row_statuses_def)

theorem refund_rows_are_a_projection_witness:
  "RS_EXECUTED \<in> ran (refund_statuses (db_events (w_db paid_world)))"
proof -
  have ok: "distinct (map rf_id (db_refunds (w_db paid_world)))"
    using reachable_db_ok [OF reachable_paid] by (simp add: db_ok_def keys_ok_def)
  obtain r where "r \<in> set (db_refunds (w_db paid_world))" "rf_status r = RS_EXECUTED"
    using paid_facts(3) by (cases "db_refunds (w_db paid_world)") auto
  with ok have "map_of (map (\<lambda>r. (rf_id r, rf_status r)) (db_refunds (w_db paid_world))) (rf_id r) = Some RS_EXECUTED"
    by (simp add: comp_def rev_image_eqI)
  then show ?thesis unfolding refund_rows_are_a_projection [OF reachable_paid] by (rule ranI)
qed

text \<open>C6: every event was warranted when it was appended.  In every reachable state, for each event
  of the log and the events before it: a verification by token answers a request of that customer
  whose deadline had not passed; a proposal is the first event of its refund and of a verified
  customer; an automatic approval keeps the order within the threshold; approvals, rejections and
  expiries move a pending refund, the first two by an operator; and an execution moves an
  approved one.\<close>

theorem log_follows_refund_protocol:
  assumes "reachable w" and "db_events (w_db w) = xs @ e # ys"
  shows "case event_payload e of
      Inr (CustomerVerifiedPayload m) \<Rightarrow>
        m \<noteq> VM_TOKEN \<or> (\<exists>q\<in>set xs. \<exists>token expires. ev_customer_id q = ev_customer_id e \<and>
          event_payload q = Inr (VerificationRequestedPayload token expires) \<and> ev_created_at e < expires)
    | Inr (RefundProposedPayload rid _) \<Rightarrow>
        refund_statuses xs rid = None \<and>
        (\<exists>v\<in>set xs. ev_event_type v = ET_CUSTOMER_VERIFIED \<and> ev_customer_id v = ev_customer_id e)
    | Inr (RefundAutoApprovedPayload rid) \<Rightarrow>
        refund_statuses xs rid = Some RS_PENDING_APPROVAL \<and>
        (\<exists>p\<in>set xs. \<exists>amount. event_payload p = Inr (RefundProposedPayload rid amount) \<and>
          ev_order_id p = ev_order_id e \<and>
          dec_cents amount + sum_list (map executed_cents (filter (\<lambda>x. ev_order_id x = ev_order_id e) xs)) \<le> 50000)
    | Inr (RefundApprovedPayload rid _) \<Rightarrow>
        refund_statuses xs rid = Some RS_PENDING_APPROVAL \<and> ev_actor e = Actor_OPERATOR
    | Inr (RefundRejectedPayload rid _ _) \<Rightarrow>
        refund_statuses xs rid = Some RS_PENDING_APPROVAL \<and> ev_actor e = Actor_OPERATOR
    | Inr (RefundExpiredPayload rid) \<Rightarrow> refund_statuses xs rid = Some RS_PENDING_APPROVAL
    | Inr (RefundExecutedPayload rid _ _) \<Rightarrow> refund_statuses xs rid = Some RS_APPROVED
    | _ \<Rightarrow> True"
proof -
  have "warranted xs e"
    using reachable_lawful [OF assms(1)] assms(2) by (simp add: lawful_def follows_protocol_def)
  then show ?thesis
    unfolding warranted_def token_open_def verified_in_def
    by (cases "event_payload e") (auto split: payload.splits)
qed

theorem log_follows_refund_protocol_witness:
  "\<exists>xs e ys rid amount. db_events (w_db paid_world) = xs @ e # ys \<and>
     event_payload e = Inr (RefundProposedPayload rid amount) \<and> refund_statuses xs rid = None"
proof -
  have "\<lparr>pc_idempotency_key = lit ''rfnd_6'', pc_amount = Dec False 2400 (-2)\<rparr> \<in> set (w_payment_calls paid_world)"
    by (simp add: paid_facts(2))
  then obtain e rid amount where e: "e \<in> set (db_events (w_db paid_world))"
    "event_payload e = Inr (RefundProposedPayload rid amount)"
    using payments_backed [OF reachable_paid] by blast
  then obtain xs ys where split: "db_events (w_db paid_world) = xs @ e # ys" by (auto dest: split_list)
  from log_follows_refund_protocol [OF reachable_paid split] e(2) split show ?thesis by auto
qed

text \<open>C7: history is never rewritten.  A step of the system, whatever the request and the model,
  only appends events to the log; it keeps the rows of the refunds table, with their
  identifier, customer, case, order and amount, and appends new ones; and a refund that was executed,
  rejected or expired stays so.\<close>

theorem history_is_append_only:
  assumes "reachable w" and "step w w'"
  shows "(\<exists>new. db_events (w_db w') = db_events (w_db w) @ new) \<and>
    (\<exists>new. map refund_intent (db_refunds (w_db w')) = map refund_intent (db_refunds (w_db w)) @ new) \<and>
    (\<forall>r\<in>set (db_refunds (w_db w)). rf_status r \<in> {RS_EXECUTED, RS_REJECTED, RS_EXPIRED} \<longrightarrow>
       (\<exists>r'\<in>set (db_refunds (w_db w')). rf_id r' = rf_id r \<and> rf_status r' = rf_status r))"
proof (intro conjI ballI impI)
  have grown: "grown (w_db w) (w_db w')" using assms by (rule step_grows)
  then show "\<exists>new. db_events (w_db w') = db_events (w_db w) @ new"
    "\<exists>new. map refund_intent (db_refunds (w_db w')) = map refund_intent (db_refunds (w_db w)) @ new"
    by (auto simp: grown_def prefix_def)
  fix r assume r: "r \<in> set (db_refunds (w_db w))" "rf_status r \<in> {RS_EXECUTED, RS_REJECTED, RS_EXPIRED}"
  have "row_statuses (w_db w) (rf_id r) = Some (rf_status r)"
    using r(1) reachable_db_ok [OF assms(1)] by (simp add: row_statuses_def db_ok_def keys_ok_def comp_def)
  with grown r(2) have "row_statuses (w_db w') (rf_id r) = Some (rf_status r)"
    by (auto simp: grown_def final_status_def)
  then show "\<exists>r'\<in>set (db_refunds (w_db w')). rf_id r' = rf_id r \<and> rf_status r' = rf_status r"
    unfolding row_statuses_def by (drule_tac map_of_SomeD) force
qed

theorem history_is_append_only_witness:
  "\<exists>new. db_events (w_db paid_world) = db_events (w_db seeded_world) @ new"
proof -
  have "step seeded_world paid_world"
    unfolding paid_world_def by (rule inbound) (rule surjective_pairing)
  with history_is_append_only [OF reachable_seeded] show ?thesis by blast
qed

text \<open>C10: the log is well typed and complete.  In every reachable state each customer's events
  carry the sequence numbers 1, 2, 3 and so on without gap or repetition; every event belongs to
  an existing customer, and its case and order, present as its type requires, belong to that
  customer; and its payload is the dictionary of the payload class of its type, recorded with the
  actor and channel the catalogue prescribes for it.\<close>

theorem event_log_is_well_typed:
  assumes "reachable w"
  shows "(\<forall>c. map ev_seq (customer_events (w_db w) c) = [1..last_seq (w_db w) c]) \<and>
    (\<forall>e\<in>set (db_events (w_db w)).
       customer_exists (w_db w) (ev_customer_id e) \<and>
       (\<forall>cs. ev_case_id e = Some cs \<longrightarrow> case_of_customer (w_db w) cs (ev_customer_id e)) \<and>
       (\<forall>ord. ev_order_id e = Some ord \<longrightarrow> order_of_customer (w_db w) ord (ev_customer_id e)) \<and>
       catalogue_scope_ok (ev_event_type e) (ev_case_id e) (ev_order_id e) \<and>
       (\<exists>p. validate_payload (ev_event_type e) (ev_payload e) = Inr p \<and> ev_payload e = model_dump p \<and>
          (ev_actor e, ev_channel e) = catalogue_actor p))"
proof -
  have ok: "db_ok (w_db w)" using reachable_db_ok [OF assms] by simp
  have "customer_exists (w_db w) (ev_customer_id e) \<and>
      (\<forall>cs. ev_case_id e = Some cs \<longrightarrow> case_of_customer (w_db w) cs (ev_customer_id e)) \<and>
      (\<forall>ord. ev_order_id e = Some ord \<longrightarrow> order_of_customer (w_db w) ord (ev_customer_id e)) \<and>
      catalogue_scope_ok (ev_event_type e) (ev_case_id e) (ev_order_id e) \<and>
      (\<exists>p. validate_payload (ev_event_type e) (ev_payload e) = Inr p \<and> ev_payload e = model_dump p \<and>
         (ev_actor e, ev_channel e) = catalogue_actor p)" if "e \<in> set (db_events (w_db w))" for e
  proof -
    have "event_ok (w_db w) e" using ok that by (simp add: db_ok_def references_ok_def)
    then show ?thesis
      unfolding event_ok_def event_payload_def
      by (cases "validate_payload (ev_event_type e) (ev_payload e)") auto
  qed
  moreover have "map ev_seq (customer_events (w_db w) c) = [1..last_seq (w_db w) c]" for c
    using ok by (simp add: db_ok_def sequences_ok_def)
  ultimately show ?thesis by blast
qed

theorem event_log_is_well_typed_witness:
  "map ev_seq (customer_events (w_db contacted_world) SOPHIE_CUSTOMER_ID) = [1..3] \<and>
   (\<exists>e\<in>set (db_events (w_db contacted_world)). ev_event_type e = ET_EMAIL_RECEIVED \<and>
      (\<exists>p. validate_payload ET_EMAIL_RECEIVED (ev_payload e) = Inr p))"
proof -
  note typed = event_log_is_well_typed [OF reachable_contacted]
  have types: "ET_EMAIL_RECEIVED \<in> ev_event_type ` set (db_events (w_db contacted_world))"
    and seq: "last_seq (w_db contacted_world) SOPHIE_CUSTOMER_ID = 3"
    using contacted_facts by (simp_all flip: set_map)
  then obtain e where "e \<in> set (db_events (w_db contacted_world))" "ev_event_type e = ET_EMAIL_RECEIVED"
    by fastforce
  with typed seq show ?thesis by metis
qed

section \<open>Every run ends\<close>

text \<open>C9: the agent loop ends, whatever the model answers.  From every state that satisfies the
  invariant, a run of the loop on any case ends within \<open>MAX_AGENT_STEPS + 1\<close> turns, by returning
  or by an exception, and allowing more turns changes nothing: the \<open>while True\<close> loop of the code
  terminates.\<close>

theorem agent_loop_ends:
  assumes "world_good w" and "MAX_AGENT_STEPS < turns"
  shows "fst (run_agent_loop turns h c w) \<noteq> Inr None \<and>
    run_agent_loop turns h c w = run_agent_loop (Suc MAX_AGENT_STEPS) h c w"
  using run_agent_loop_ends [OF assms] run_agent_loop_fuel [OF assms(1), of "Suc MAX_AGENT_STEPS" turns] assms(2)
  by simp

theorem agent_loop_ends_witness:
  "fst (run_agent_loop (Suc MAX_AGENT_STEPS) silent_host (lit ''case_2'') contacted_world) \<noteq> Inr None"
  using agent_loop_ends [OF reachable_good [OF reachable_contacted], of "Suc MAX_AGENT_STEPS"] by simp

text \<open>C8: every request is answered.  In every reachable state, and for every request that runs
  loops, there is a number of queue runs after which the handler has returned its response or
  raised, with any number of turns above the step limit; so the queue of cases that a request
  resumes always drains, even though draining adds cases to it.\<close>

theorem requests_are_answered:
  assumes "reachable w"
  shows "\<exists>n. \<forall>runs turns. n \<le> runs \<longrightarrow> MAX_AGENT_STEPS < turns \<longrightarrow>
      fst (post_inbound_email (runs, turns) h inbound w) \<noteq> Inr None \<and>
      fst (post_operator_approve (runs, turns) h approval w) \<noteq> Inr None \<and>
      fst (post_operator_reject (runs, turns) h rejection w) \<noteq> Inr None \<and>
      fst (post_verification_confirm (runs, turns) h token w) \<noteq> Inr None"
proof -
  have good: "world_good w" using assms by (rule reachable_good)
  have ends: "\<exists>n. \<forall>runs turns. n \<le> runs \<longrightarrow> MAX_AGENT_STEPS < turns \<longrightarrow> fst (m (runs, turns) w) \<noteq> Inr None"
    if "answers m" for m :: "nat \<times> nat \<Rightarrow> http_response option op"
    using that good by (simp add: answers_def)
  obtain n1 where 1: "\<forall>runs turns. n1 \<le> runs \<longrightarrow> MAX_AGENT_STEPS < turns \<longrightarrow>
      fst (post_inbound_email (runs, turns) h inbound w) \<noteq> Inr None"
    using ends [OF answers_handlers(1)] by blast
  obtain n2 where 2: "\<forall>runs turns. n2 \<le> runs \<longrightarrow> MAX_AGENT_STEPS < turns \<longrightarrow>
      fst (post_operator_approve (runs, turns) h approval w) \<noteq> Inr None"
    using ends [OF answers_handlers(2)] by blast
  obtain n3 where 3: "\<forall>runs turns. n3 \<le> runs \<longrightarrow> MAX_AGENT_STEPS < turns \<longrightarrow>
      fst (post_operator_reject (runs, turns) h rejection w) \<noteq> Inr None"
    using ends [OF answers_handlers(3)] by blast
  obtain n4 where 4: "\<forall>runs turns. n4 \<le> runs \<longrightarrow> MAX_AGENT_STEPS < turns \<longrightarrow>
      fst (post_verification_confirm (runs, turns) h token w) \<noteq> Inr None"
    using ends [OF answers_handlers(4)] by blast
  show ?thesis
    using 1 2 3 4 by (intro exI [of _ "max (max n1 n2) (max n3 n4)"]) simp
qed

theorem requests_are_answered_witness:
  "\<exists>n. \<forall>runs turns. n \<le> runs \<longrightarrow> MAX_AGENT_STEPS < turns \<longrightarrow>
      fst (post_inbound_email (runs, turns) silent_host sample_email contacted_world) \<noteq> Inr None"
  using requests_are_answered [OF reachable_contacted, of silent_host sample_email] by blast

end
